(* ===== verification/Prelude.thy ===== *)
theory Prelude
  imports Complex_Main "HOL-Library.AList"
begin

text \<open>
  What every component of the development shares: the exceptions of the program as values,
  Python's string operations, and Python dictionaries as association lists in insertion order.

  Strings are over ASCII. Python's \<open>str\<close> is a sequence of code points; the program's keys,
  symbols, currencies and configuration values are ASCII, and \<open>upper\<close>, \<open>lower\<close>, \<open>strip\<close> and
  \<open>isdigit\<close> are modelled on that range. Exceptions carry the constant head of their message, so
  that the branches which raise stay apart; the rest of a message is only logged.
\<close>

named_theorems dict_simps \<open>lookups after dictionary operations\<close>
named_theorems fl_simps \<open>evaluation of float operations\<close>

section \<open>Exceptions as values\<close>

datatype py_exc =
    ValueError string
  | TypeError
  | KeyError
  | AttributeError string
  | ZeroDivisionError
  | NotImplementedError
  | TimeoutError
  | CancelledError
  | RuntimeError string
  | OtherError string

type_synonym 'a result = "py_exc + 'a"

fun rbind :: "'a result \<Rightarrow> ('a \<Rightarrow> 'b result) \<Rightarrow> 'b result" where
  "rbind (Inl e) f = Inl e"
| "rbind (Inr x) f = f x"

fun rmap_list :: "('a \<Rightarrow> 'b result) \<Rightarrow> 'a list \<Rightarrow> 'b list result" where
  "rmap_list f [] = Inr []"
| "rmap_list f (x # xs) =
     rbind (f x) (\<lambda>y. rbind (rmap_list f xs) (\<lambda>ys. Inr (y # ys)))"

text \<open>Keeping the values of the calls that returned, as \<open>gather(return_exceptions=True)\<close> does.\<close>

fun rights :: "('e + 'a) list \<Rightarrow> 'a list" where
  "rights [] = []"
| "rights (Inl e # xs) = rights xs"
| "rights (Inr x # xs) = x # rights xs"

lemma rbind_Inr_iff: "rbind m f = Inr y \<longleftrightarrow> (\<exists>x. m = Inr x \<and> f x = Inr y)"
  by (cases m) auto

lemma rbind_Inl_iff: "rbind m f = Inl e \<longleftrightarrow> m = Inl e \<or> (\<exists>x. m = Inr x \<and> f x = Inl e)"
  by (cases m) auto

text \<open>A list without its entry at a position: what is in flight, less what has returned.\<close>

definition drop_nth :: "nat \<Rightarrow> 'a list \<Rightarrow> 'a list" where
  [simp]: "drop_nth n xs = take n xs @ drop (Suc n) xs"

lemma in_drop_nth: "x \<in> set (drop_nth n xs) \<Longrightarrow> x \<in> set xs"
  by (auto dest: in_set_takeD in_set_dropD)

lemma rmap_list_Inr_length: "rmap_list f xs = Inr ys \<Longrightarrow> length ys = length xs"
  by (induction xs arbitrary: ys) (auto simp: rbind_Inr_iff)

lemma rmap_list_Inr_map: "(\<And>x. x \<in> set xs \<Longrightarrow> f x = Inr (g x)) \<Longrightarrow> rmap_list f xs = Inr (map g xs)"
  by (induction xs) auto

lemma rights_append [simp]: "rights (xs @ ys) = rights xs @ rights ys"
  by (induction xs rule: rights.induct) auto

lemma set_rights: "set (rights xs) = {x. Inr x \<in> set xs}"
  by (induction xs rule: rights.induct) auto

section \<open>Strings\<close>

definition py_spaces :: "char list" where
  "py_spaces = [CHR 0x09, CHR 0x0A, CHR 0x0B, CHR 0x0C, CHR 0x0D,
     CHR 0x1C, CHR 0x1D, CHR 0x1E, CHR 0x1F, CHR 0x20]"

definition py_isspace :: "char \<Rightarrow> bool" where
  "py_isspace c = (c \<in> set py_spaces)"

definition py_isdigit_char :: "char \<Rightarrow> bool" where
  "py_isdigit_char c = (c \<in> set ''0123456789'')"

definition py_islower_char :: "char \<Rightarrow> bool" where
  "py_islower_char c = (c \<in> set ''abcdefghijklmnopqrstuvwxyz'')"

definition py_isupper_char :: "char \<Rightarrow> bool" where
  "py_isupper_char c = (c \<in> set ''ABCDEFGHIJKLMNOPQRSTUVWXYZ'')"

text \<open>Upper and lower case differ in bit 5 of the ASCII code.\<close>

fun set_case_bit :: "bool \<Rightarrow> char \<Rightarrow> char" where
  "set_case_bit b (Char b0 b1 b2 b3 b4 b5 b6 b7) = Char b0 b1 b2 b3 b4 b b6 b7"

definition py_upper_char :: "char \<Rightarrow> char" where
  "py_upper_char c = (if py_islower_char c then set_case_bit False c else c)"

definition py_lower_char :: "char \<Rightarrow> char" where
  "py_lower_char c = (if py_isupper_char c then set_case_bit True c else c)"

definition py_upper :: "string \<Rightarrow> string" where
  "py_upper s = map py_upper_char s"

definition py_lower :: "string \<Rightarrow> string" where
  "py_lower s = map py_lower_char s"

definition py_lstrip :: "string \<Rightarrow> string" where
  "py_lstrip s = dropWhile py_isspace s"

definition py_rstrip :: "string \<Rightarrow> string" where
  "py_rstrip s = rev (dropWhile py_isspace (rev s))"

definition py_strip :: "string \<Rightarrow> string" where
  "py_strip s = py_rstrip (py_lstrip s)"

text \<open>\<open>s.lstrip("0")\<close>.\<close>

definition lstrip_zeros :: "string \<Rightarrow> string" where
  "lstrip_zeros s = dropWhile (\<lambda>c. c = CHR ''0'') s"

definition py_isdigit :: "string \<Rightarrow> bool" where
  "py_isdigit s = (s \<noteq> [] \<and> list_all py_isdigit_char s)"

text \<open>\<open>s.zfill(w)\<close> for a string without a sign, the only use in the program.\<close>

definition zfill_digits :: "nat \<Rightarrow> string \<Rightarrow> string" where
  "zfill_digits w s = replicate (w - length s) (CHR ''0'') @ s"

text \<open>\<open>s.split(c)\<close> for a one-character separator: always at least one part.\<close>

fun split_on :: "char \<Rightarrow> string \<Rightarrow> string list" where
  "split_on c [] = [[]]"
| "split_on c (x # xs) =
     (if x = c then [] # split_on c xs
      else (case split_on c xs of [] \<Rightarrow> [[x]] | p # ps \<Rightarrow> (x # p) # ps))"

text \<open>\<open>s.split(c, 1)\<close>, as a pair, when \<open>c\<close> occurs.\<close>

definition split_first :: "char \<Rightarrow> string \<Rightarrow> (string \<times> string) option" where
  "split_first c s =
     (if c \<in> set s
      then Some (takeWhile (\<lambda>x. x \<noteq> c) s, tl (dropWhile (\<lambda>x. x \<noteq> c) s))
      else None)"

text \<open>\<open>s.rsplit(c, 1)\<close>, as a pair, when \<open>c\<close> occurs.\<close>

definition split_last :: "char \<Rightarrow> string \<Rightarrow> (string \<times> string) option" where
  "split_last c s =
     (if c \<in> set s
      then Some (rev (tl (dropWhile (\<lambda>x. x \<noteq> c) (rev s))), rev (takeWhile (\<lambda>x. x \<noteq> c) (rev s)))
      else None)"

text \<open>\<open>hint in text\<close>: substring test.\<close>

definition py_in :: "string \<Rightarrow> string \<Rightarrow> bool" where
  "py_in h t = list_ex (\<lambda>i. take (length h) (drop i t) = h) [0..<Suc (length t)]"

definition dot :: char where
  "dot = CHR 0x2E"

definition comma :: char where
  "comma = CHR 0x2C"

lemma split_on_nonempty [simp]: "split_on c s \<noteq> []"
  by (cases s) (auto split: list.splits)

lemma split_on_no_sep: "c \<notin> set s \<Longrightarrow> split_on c s = [s]"
  by (induction s) auto

lemma split_on_no_sep_in_parts: "p \<in> set (split_on c s) \<Longrightarrow> c \<notin> set p"
proof (induction s arbitrary: p)
  case (Cons x xs)
  then show ?case by (auto split: if_splits list.splits)
qed simp

lemma dropWhile_append_sep:
  "c \<notin> set b \<Longrightarrow> dropWhile (\<lambda>x. x \<noteq> c) (b @ c # a) = c # a"
  by (induction b) auto

lemma takeWhile_append_sep:
  "c \<notin> set b \<Longrightarrow> takeWhile (\<lambda>x. x \<noteq> c) (b @ c # a) = b"
  by (induction b) auto

lemma split_last_append: "c \<notin> set b \<Longrightarrow> split_last c (a @ c # b) = Some (a, b)"
  using dropWhile_append_sep [of c "rev b" "rev a"] takeWhile_append_sep [of c "rev b" "rev a"]
  by (simp add: split_last_def)

lemma split_first_append: "c \<notin> set a \<Longrightarrow> split_first c (a @ c # b) = Some (a, b)"
  by (simp add: split_first_def dropWhile_append_sep takeWhile_append_sep)

lemma split_last_SomeD:
  assumes "split_last c s = Some (a, b)"
  shows "s = a @ c # b \<and> c \<notin> set b"
proof -
  from assms have c: "c \<in> set s" by (simp add: split_last_def split: if_splits)
  then obtain u v where s: "s = u @ c # v" and v: "c \<notin> set v"
    by (meson split_list_last)
  with split_last_append [OF v, of u] assms show ?thesis by auto
qed

lemma py_upper_append [simp]: "py_upper (a @ b) = py_upper a @ py_upper b"
  by (simp add: py_upper_def)

lemma py_upper_idem [simp]: "py_upper (py_upper s) = py_upper s"
proof -
  have "py_upper_char (py_upper_char c) = py_upper_char c" for c
    by (auto simp: py_upper_char_def py_islower_char_def)
  then show ?thesis by (simp add: py_upper_def)
qed

lemma dropWhile_idem: "dropWhile P (dropWhile P xs) = dropWhile P xs"
  by (induction xs) auto

lemma dropWhile_hd_not: "xs \<noteq> [] \<Longrightarrow> \<not> P (hd xs) \<Longrightarrow> dropWhile P xs = xs"
  by (cases xs) auto

lemma py_strip_id:
  assumes "s \<noteq> []" "\<not> py_isspace (hd s)" "\<not> py_isspace (last s)"
  shows "py_strip s = s"
  using assms
  by (simp add: py_strip_def py_lstrip_def py_rstrip_def dropWhile_hd_not hd_rev)

lemma py_strip_Nil [simp]: "py_strip [] = []"
  by (simp add: py_strip_def py_lstrip_def py_rstrip_def)

section \<open>Integers as text\<close>

definition digit_char :: "nat \<Rightarrow> char" where
  "digit_char d = ''0123456789'' ! d"

definition digit_val :: "char \<Rightarrow> nat" where
  "digit_val c = length (takeWhile (\<lambda>x. x \<noteq> c) ''0123456789'')"

fun nat_str :: "nat \<Rightarrow> string" where
  "nat_str n = (if n < 10 then [digit_char n] else nat_str (n div 10) @ [digit_char (n mod 10)])"

declare nat_str.simps [simp del]

text \<open>\<open>str(i)\<close>.\<close>

definition py_str_int :: "int \<Rightarrow> string" where
  "py_str_int i = (if i < 0 then CHR ''-'' # nat_str (nat (- i)) else nat_str (nat i))"

definition digits_val :: "string \<Rightarrow> nat" where
  "digits_val s = foldl (\<lambda>n c. 10 * n + digit_val c) 0 s"

text \<open>
  The digits Python accepts in a number: single underscores may stand between two digits.
  The result is the digits read and the rest of the text.
\<close>

fun more_digits :: "string \<Rightarrow> string \<times> string" where
  "more_digits [] = ([], [])"
| "more_digits [c] = (if py_isdigit_char c then ([c], []) else ([], [c]))"
| "more_digits (c # d # cs) =
     (if py_isdigit_char c then (case more_digits (d # cs) of (ds, r) \<Rightarrow> (c # ds, r))
      else if c = CHR ''_'' \<and> py_isdigit_char d
        then (case more_digits cs of (ds, r) \<Rightarrow> (d # ds, r))
      else ([], c # d # cs))"

definition take_digits :: "string \<Rightarrow> string \<times> string" where
  "take_digits s =
     (case s of [] \<Rightarrow> ([], []) | c # cs \<Rightarrow> if py_isdigit_char c then more_digits s else ([], s))"

fun take_sign :: "string \<Rightarrow> bool \<times> string" where
  "take_sign [] = (False, [])"
| "take_sign (c # cs) =
     (if c = CHR ''-'' then (True, cs) else if c = CHR ''+'' then (False, cs) else (False, c # cs))"

text \<open>\<open>int(s)\<close>: \<open>None\<close> is the ValueError.\<close>

definition py_int_of_str :: "string \<Rightarrow> int option" where
  "py_int_of_str s =
     (case take_sign (py_strip s) of (neg, t) \<Rightarrow>
      (case take_digits t of (ds, r) \<Rightarrow>
        if ds = [] \<or> r \<noteq> [] then None
        else Some (if neg then - int (digits_val ds) else int (digits_val ds))))"

lemma less_10_cases: "(d::nat) < 10 \<Longrightarrow> d \<in> {0, 1, 2, 3, 4, 5, 6, 7, 8, 9}"
  by auto

lemma digit_char_isdigit: "d < 10 \<Longrightarrow> py_isdigit_char (digit_char d)"
  by (auto dest!: less_10_cases simp: py_isdigit_char_def digit_char_def)

lemma digit_val_char: "d < 10 \<Longrightarrow> digit_val (digit_char d) = d"
  by (auto dest!: less_10_cases simp: digit_val_def digit_char_def)

lemma digits_val_snoc: "digits_val (s @ [c]) = 10 * digits_val s + digit_val c"
  by (simp add: digits_val_def)

lemma nat_str_nonempty [simp]: "nat_str n \<noteq> []"
  by (subst nat_str.simps) simp

lemma nat_str_digits: "list_all py_isdigit_char (nat_str n)"
proof (induction n rule: nat_str.induct)
  case (1 n)
  then show ?case
    by (subst nat_str.simps) (auto simp: digit_char_isdigit)
qed

lemma digits_val_nat_str: "digits_val (nat_str n) = n"
proof (induction n rule: nat_str.induct)
  case (1 n)
  show ?case
  proof (cases "n < 10")
    case True
    then show ?thesis
      by (subst nat_str.simps) (simp add: digits_val_def digit_val_char)
  next
    case False
    with 1 have "digits_val (nat_str (n div 10)) = n div 10" by simp
    with False show ?thesis
      by (subst nat_str.simps) (simp add: digits_val_snoc digit_val_char)
  qed
qed

lemma more_digits_all: "list_all py_isdigit_char s \<Longrightarrow> more_digits s = (s, [])"
  by (induction s rule: more_digits.induct) auto

lemma take_digits_all: "list_all py_isdigit_char s \<Longrightarrow> take_digits s = (s, [])"
  by (cases s) (auto simp: take_digits_def more_digits_all)

lemma digit_not_special:
  "py_isdigit_char c \<Longrightarrow> c \<noteq> CHR ''-'' \<and> c \<noteq> CHR ''+'' \<and> \<not> py_isspace c"
  by (auto simp: py_isdigit_char_def py_isspace_def py_spaces_def)

lemma py_strip_digits:
  assumes "s \<noteq> []" "list_all py_isdigit_char s"
  shows "py_strip s = s"
proof -
  have "hd s \<in> set s" "last s \<in> set s" using assms(1) by auto
  with assms show ?thesis
    by (auto simp: list_all_iff digit_not_special intro!: py_strip_id)
qed

lemma py_strip_neg_digits:
  assumes "s \<noteq> []" "list_all py_isdigit_char s"
  shows "py_strip (CHR ''-'' # s) = CHR ''-'' # s"
proof -
  have "last s \<in> set s" using assms(1) by auto
  with assms have "\<not> py_isspace (last s)" by (simp add: list_all_iff digit_not_special)
  with assms(1) show ?thesis
    by (intro py_strip_id) (simp_all add: py_isspace_def py_spaces_def)
qed

lemma take_sign_digits: "list_all py_isdigit_char s \<Longrightarrow> take_sign s = (False, s)"
  by (cases s) (auto simp: digit_not_special)

lemma py_int_of_str_int [simp]: "py_int_of_str (py_str_int i) = Some i"
proof (cases "i < 0")
  case True
  then show ?thesis
    by (simp add: py_int_of_str_def py_str_int_def py_strip_neg_digits nat_str_digits
        take_digits_all digits_val_nat_str)
next
  case False
  then show ?thesis
    by (simp add: py_int_of_str_def py_str_int_def py_strip_digits nat_str_digits
        take_sign_digits take_digits_all digits_val_nat_str)
qed

lemma py_str_int_inj: "py_str_int i = py_str_int j \<Longrightarrow> i = j"
  by (metis option.inject py_int_of_str_int)

section \<open>Dictionaries in insertion order\<close>

text \<open>
  A \<open>dict\<close> is an association list with distinct keys: \<open>AList.update\<close> replaces the value in place
  or appends, which is Python's order. \<open>dict_update\<close> is \<open>d.update(pairs)\<close> and a dict
  comprehension over pairs.
\<close>

type_synonym ('k, 'v) dict = "('k \<times> 'v) list"

fun dict_update :: "('k, 'v) dict \<Rightarrow> ('k \<times> 'v) list \<Rightarrow> ('k, 'v) dict" where
  "dict_update d [] = d"
| "dict_update d ((k, v) # kvs) = dict_update (AList.update k v d) kvs"

definition dict_of :: "('k \<times> 'v) list \<Rightarrow> ('k, 'v) dict" where
  "dict_of kvs = dict_update [] kvs"

definition dict_keys :: "('k, 'v) dict \<Rightarrow> 'k list" where
  "dict_keys d = map fst d"

definition dict_values :: "('k, 'v) dict \<Rightarrow> 'v list" where
  "dict_values d = map snd d"

definition dict_wf :: "('k, 'v) dict \<Rightarrow> bool" where
  "dict_wf d = distinct (map fst d)"

lemma dict_wf_Nil [simp]: "dict_wf []"
  by (simp add: dict_wf_def)

lemma dict_wf_AList_update [simp, intro]: "dict_wf d \<Longrightarrow> dict_wf (AList.update k v d)"
  by (simp add: dict_wf_def distinct_update)

lemma dict_wf_update [simp, intro]: "dict_wf d \<Longrightarrow> dict_wf (dict_update d kvs)"
  by (induction d kvs rule: dict_update.induct) auto

lemma dict_wf_of [simp]: "dict_wf (dict_of kvs)"
  by (simp add: dict_of_def)

lemma dict_wf_filter [simp, intro]: "dict_wf d \<Longrightarrow> dict_wf (filter P d)"
  by (induction d) (auto simp: dict_wf_def)

lemma map_of_AList_update [dict_simps]: "map_of (AList.update k v d) = (map_of d)(k \<mapsto> v)"
  by (simp add: update_conv')

lemma map_of_dict_update_notin:
  "k \<notin> fst ` set kvs \<Longrightarrow> map_of (dict_update d kvs) k = map_of d k"
  by (induction d kvs rule: dict_update.induct) (auto simp: dict_simps)

lemma map_of_dict_update:
  "map_of (dict_update d kvs) = map_of d ++ map_of (rev kvs)"
proof (induction d kvs rule: dict_update.induct)
  case (2 d k v kvs)
  show ?case
    by (rule ext) (simp add: 2 dict_simps map_add_def split: option.splits)
qed simp

lemma map_of_dict_of: "map_of (dict_of kvs) = map_of (rev kvs)"
  by (simp add: dict_of_def map_of_dict_update)

lemma map_of_filter_key:
  "map_of (filter (\<lambda>(k, v). P k) d) k = (if P k then map_of d k else None)"
  by (induction d) auto

lemma dom_dict_of: "dom (map_of (dict_of kvs)) = fst ` set kvs"
  by (simp add: map_of_dict_of dom_map_of_conv_image_fst)

lemma dict_update_append: "dict_update d (xs @ ys) = dict_update (dict_update d xs) ys"
  by (induction d xs rule: dict_update.induct) auto

lemma AList_update_new: "k \<notin> fst ` set d \<Longrightarrow> AList.update k v d = d @ [(k, v)]"
  by (induction d) auto

lemma dict_update_fresh:
  "distinct (map fst kvs) \<Longrightarrow> fst ` set kvs \<inter> fst ` set d = {} \<Longrightarrow> dict_update d kvs = d @ kvs"
proof (induction d kvs rule: dict_update.induct)
  case (2 d k v kvs)
  then have "AList.update k v d = d @ [(k, v)]" by (simp add: AList_update_new)
  with 2 show ?case by auto
qed simp

lemma dict_of_distinct: "distinct (map fst kvs) \<Longrightarrow> dict_of kvs = kvs"
  by (simp add: dict_of_def dict_update_fresh)

lemma dict_wf_map_of_mem: "dict_wf d \<Longrightarrow> map_of d k = Some v \<longleftrightarrow> (k, v) \<in> set d"
  by (simp add: dict_wf_def)

text \<open>
  \<open>d1 == d2\<close> on dictionaries: the same keys, in any order, with values equal under \<open>eq\<close>.
\<close>

definition dict_eq_by :: "('k \<Rightarrow> 'v \<Rightarrow> 'v \<Rightarrow> bool) \<Rightarrow> ('k, 'v) dict \<Rightarrow> ('k, 'v) dict \<Rightarrow> bool" where
  "dict_eq_by eq d1 d2 =
     (length d1 = length d2 \<and>
      list_all (\<lambda>(k, v). case map_of d2 k of None \<Rightarrow> False | Some w \<Rightarrow> eq k v w) d1)"

lemma dict_wf_same_keys:
  assumes "dict_wf d1" "dict_wf d2" "length d1 = length d2" "fst ` set d1 \<subseteq> fst ` set d2"
  shows "fst ` set d1 = fst ` set d2"
proof -
  have "card (fst ` set d1) = length d1" "card (fst ` set d2) = length d2"
    using assms(1,2) distinct_card [of "map fst d1"] distinct_card [of "map fst d2"]
    by (simp_all add: dict_wf_def)
  then show ?thesis
    using assms(3,4) card_subset_eq [of "fst ` set d2" "fst ` set d1"] by simp
qed

lemma dict_eq_by_imp_map_of:
  assumes "dict_wf d1" "dict_wf d2" "dict_eq_by eq d1 d2"
    and eq: "\<And>k v w. eq k v w \<Longrightarrow> v = w"
  shows "map_of d1 = map_of d2"
proof -
  have entry: "map_of d2 k = Some v" if "(k, v) \<in> set d1" for k v
    using that assms(3) eq
    by (fastforce simp: dict_eq_by_def list_all_iff split: option.splits)
  have "fst ` set d1 \<subseteq> fst ` set d2"
    using entry by (force dest: map_of_SomeD)
  then have keys: "fst ` set d1 = fst ` set d2"
    using assms(3) dict_wf_same_keys [OF assms(1,2)] by (simp add: dict_eq_by_def)
  show ?thesis
  proof
    fix k
    show "map_of d1 k = map_of d2 k"
    proof (cases "map_of d1 k")
      case None
      with keys show ?thesis by (metis map_of_eq_None_iff)
    next
      case (Some v)
      with entry show ?thesis by (metis map_of_SomeD)
    qed
  qed
qed

lemma dict_eq_by_refl:
  assumes "dict_wf d" "list_all (\<lambda>(k, v). eq k v v) d"
  shows "dict_eq_by eq d d"
  using assms by (auto simp: dict_eq_by_def list_all_iff dict_wf_def)

lemma dict_eq_iff_map_of:
  assumes "dict_wf d1" "dict_wf d2"
  shows "dict_eq_by (\<lambda>k v w. v = w) d1 d2 \<longleftrightarrow> map_of d1 = map_of d2"
proof
  assume eq: "map_of d1 = map_of d2"
  then have "fst ` set d1 = fst ` set d2"
    by (metis dom_map_of_conv_image_fst)
  then have len: "length d1 = length d2"
    using assms distinct_card [of "map fst d1"] distinct_card [of "map fst d2"]
    by (simp add: dict_wf_def)
  have "map_of d2 k = Some v" if "(k, v) \<in> set d1" for k v
    using that assms(1) by (simp add: eq [symmetric] dict_wf_map_of_mem)
  then show "dict_eq_by (\<lambda>k v w. v = w) d1 d2"
    using len by (auto simp: dict_eq_by_def list_all_iff)
qed (rule dict_eq_by_imp_map_of [OF assms], auto)

lemma list_all_map_of: "list_all P d \<Longrightarrow> map_of d k = Some v \<Longrightarrow> P (k, v)"
  by (metis list_all_iff map_of_SomeD)

lemma list_all_AList_update:
  "list_all P d \<Longrightarrow> P (k, v) \<Longrightarrow> list_all P (AList.update k v d)"
  by (induction d) auto

lemma distinct_map_filter_fst: "dict_wf d \<Longrightarrow> distinct (map fst (filter P d))"
  by (induction d) (auto simp: dict_wf_def)

end
