(* ===== verification/PyFloat.thy ===== *)
theory PyFloat
  imports Prelude
begin

text \<open>
  Python floats as exact rationals with the two infinities and NaN. Arithmetic follows IEEE 754
  on the special values; finite arithmetic is exact, so rounding, overflow to infinity and the
  sign of zero are outside the model. \<open>=\<close> of HOL is identity of values; Python's \<open>==\<close> is
  \<open>feq\<close>, which is false on NaN, and every comparison with NaN is false.
\<close>

datatype fl = Fin rat | PInf | NInf | NaN

fun fl_plus :: "fl \<Rightarrow> fl \<Rightarrow> fl" where
  "fl_plus NaN _ = NaN"
| "fl_plus _ NaN = NaN"
| "fl_plus (Fin a) (Fin b) = Fin (a + b)"
| "fl_plus PInf NInf = NaN"
| "fl_plus NInf PInf = NaN"
| "fl_plus PInf _ = PInf"
| "fl_plus _ PInf = PInf"
| "fl_plus NInf _ = NInf"
| "fl_plus _ NInf = NInf"

fun fl_neg :: "fl \<Rightarrow> fl" where
  "fl_neg (Fin a) = Fin (- a)"
| "fl_neg PInf = NInf"
| "fl_neg NInf = PInf"
| "fl_neg NaN = NaN"

text \<open>An infinity with the sign of the given rational; zero has no infinity to scale to.\<close>

definition inf_sign :: "rat \<Rightarrow> fl" where
  "inf_sign a = (if a = 0 then NaN else if 0 < a then PInf else NInf)"

fun fl_times :: "fl \<Rightarrow> fl \<Rightarrow> fl" where
  "fl_times NaN _ = NaN"
| "fl_times _ NaN = NaN"
| "fl_times (Fin a) (Fin b) = Fin (a * b)"
| "fl_times (Fin a) PInf = inf_sign a"
| "fl_times PInf (Fin a) = inf_sign a"
| "fl_times (Fin a) NInf = inf_sign (- a)"
| "fl_times NInf (Fin a) = inf_sign (- a)"
| "fl_times PInf PInf = PInf"
| "fl_times NInf NInf = PInf"
| "fl_times PInf NInf = NInf"
| "fl_times NInf PInf = NInf"

text \<open>Only used on a divisor that is not zero; \<open>py_div\<close> below raises on zero.\<close>

fun fl_inverse :: "fl \<Rightarrow> fl" where
  "fl_inverse (Fin a) = (if a = 0 then NaN else Fin (inverse a))"
| "fl_inverse PInf = Fin 0"
| "fl_inverse NInf = Fin 0"
| "fl_inverse NaN = NaN"

fun fl_less :: "fl \<Rightarrow> fl \<Rightarrow> bool" where
  "fl_less NaN _ = False"
| "fl_less _ NaN = False"
| "fl_less (Fin a) (Fin b) = (a < b)"
| "fl_less _ NInf = False"
| "fl_less NInf _ = True"
| "fl_less PInf _ = False"
| "fl_less _ PInf = True"

fun fl_le :: "fl \<Rightarrow> fl \<Rightarrow> bool" where
  "fl_le NaN _ = False"
| "fl_le _ NaN = False"
| "fl_le (Fin a) (Fin b) = (a \<le> b)"
| "fl_le NInf _ = True"
| "fl_le _ NInf = False"
| "fl_le _ PInf = True"
| "fl_le PInf _ = False"

fun fl_abs :: "fl \<Rightarrow> fl" where
  "fl_abs (Fin a) = Fin \<bar>a\<bar>"
| "fl_abs PInf = PInf"
| "fl_abs NInf = PInf"
| "fl_abs NaN = NaN"

instantiation fl :: "{zero, one, plus, uminus, minus, times, inverse, ord, abs}"
begin

definition zero_fl :: fl where "zero_fl = Fin 0"
definition one_fl :: fl where "one_fl = Fin 1"
definition plus_fl :: "fl \<Rightarrow> fl \<Rightarrow> fl" where "plus_fl = fl_plus"
definition uminus_fl :: "fl \<Rightarrow> fl" where "uminus_fl = fl_neg"
definition minus_fl :: "fl \<Rightarrow> fl \<Rightarrow> fl" where "minus_fl a b = fl_plus a (fl_neg b)"
definition times_fl :: "fl \<Rightarrow> fl \<Rightarrow> fl" where "times_fl = fl_times"
definition inverse_fl :: "fl \<Rightarrow> fl" where "inverse_fl = fl_inverse"
definition divide_fl :: "fl \<Rightarrow> fl \<Rightarrow> fl" where "divide_fl a b = fl_times a (fl_inverse b)"
definition less_fl :: "fl \<Rightarrow> fl \<Rightarrow> bool" where "less_fl = fl_less"
definition less_eq_fl :: "fl \<Rightarrow> fl \<Rightarrow> bool" where "less_eq_fl = fl_le"
definition abs_fl :: "fl \<Rightarrow> fl" where "abs_fl = fl_abs"

instance ..

end

instance fl :: comm_monoid_add
proof
  fix a b c :: fl
  show "a + b + c = a + (b + c)"
    unfolding plus_fl_def by (cases a; cases b; cases c) simp_all
  show "a + b = b + a"
    unfolding plus_fl_def by (cases a; cases b) simp_all
  show "0 + a = a"
    unfolding plus_fl_def zero_fl_def by (cases a) simp_all
qed

instance fl :: numeral ..

definition feq :: "fl \<Rightarrow> fl \<Rightarrow> bool" where
  "feq a b = (a \<noteq> NaN \<and> a = b)"

definition is_finite :: "fl \<Rightarrow> bool" where
  "is_finite a = (case a of Fin _ \<Rightarrow> True | _ \<Rightarrow> False)"

definition fl_of_int :: "int \<Rightarrow> fl" where
  "fl_of_int i = Fin (of_int i)"

text \<open>\<open>a / b\<close>: Python raises on a zero divisor.\<close>

definition py_div :: "fl \<Rightarrow> fl \<Rightarrow> fl result" where
  "py_div a b = (if b = 0 then Inl ZeroDivisionError else Inr (a / b))"

lemma numeral_fl: "numeral n = Fin (numeral n)"
  by (induction n) (simp_all only: numeral.simps one_fl_def plus_fl_def fl_plus.simps)

lemma fl_arith [simp]:
  "Fin a + Fin b = Fin (a + b)" "Fin a * Fin b = Fin (a * b)" "Fin a - Fin b = Fin (a - b)"
  "- Fin a = Fin (- a)" "\<bar>Fin a\<bar> = Fin \<bar>a\<bar>"
  "Fin a < Fin b \<longleftrightarrow> a < b" "Fin a \<le> Fin b \<longleftrightarrow> a \<le> b"
  by (simp_all add: plus_fl_def times_fl_def minus_fl_def uminus_fl_def abs_fl_def less_fl_def
      less_eq_fl_def)

lemma fl_divide [simp]: "b \<noteq> 0 \<Longrightarrow> Fin a / Fin b = Fin (a / b)"
  by (simp add: divide_fl_def divide_inverse)

lemma fl_consts: "(0::fl) = Fin 0" "(1::fl) = Fin 1"
  by (simp_all add: zero_fl_def one_fl_def)

lemma fl_NaN [simp]:
  "NaN + a = NaN" "a + NaN = NaN" "NaN * a = NaN" "a * NaN = NaN"
  "NaN - a = NaN" "a - NaN = NaN" "- NaN = NaN"
  "\<not> NaN < a" "\<not> a < NaN" "\<not> NaN \<le> a" "\<not> a \<le> NaN"
  by (cases a; simp add: plus_fl_def times_fl_def minus_fl_def uminus_fl_def less_fl_def
      less_eq_fl_def)+

lemma fl_inf [simp]:
  "0 < PInf" "\<not> PInf < a" "\<not> 0 < NInf" "\<not> PInf \<le> Fin r" "Fin r < PInf" "NInf < 0" "NInf \<le> 0"
  "\<not> PInf \<le> 0" "PInf \<noteq> 0" "NInf \<noteq> 0" "NaN \<noteq> 0" "0 \<noteq> PInf" "0 \<noteq> NInf" "0 \<noteq> NaN"
  by (cases a; simp add: less_fl_def less_eq_fl_def zero_fl_def)+

lemma Fin_zero_iff [simp]: "Fin a = 0 \<longleftrightarrow> a = 0" "0 = Fin a \<longleftrightarrow> a = 0"
  by (auto simp: zero_fl_def)

lemma Fin_order_zero [simp]: "0 < Fin a \<longleftrightarrow> 0 < a" "Fin a < 0 \<longleftrightarrow> a < 0" "0 \<le> Fin a \<longleftrightarrow> 0 \<le> a"
  "Fin a \<le> 0 \<longleftrightarrow> a \<le> 0"
  by (simp_all add: zero_fl_def)

lemmas [fl_simps] = fl_consts numeral_fl py_div_def feq_def is_finite_def fl_of_int_def

lemma feq_refl [simp]: "feq a a \<longleftrightarrow> a \<noteq> NaN"
  by (simp add: feq_def)

lemma feq_imp_eq: "feq a b \<Longrightarrow> a = b"
  by (simp add: feq_def)

lemma is_finite_simps [simp]:
  "is_finite (Fin r)" "\<not> is_finite PInf" "\<not> is_finite NInf" "\<not> is_finite NaN" "is_finite 0"
  by (simp_all add: is_finite_def zero_fl_def)

lemma is_finite_iff: "is_finite a \<longleftrightarrow> (\<exists>r. a = Fin r)"
  by (cases a) auto

lemma fl_pos_not_le: "0 < (a::fl) \<longleftrightarrow> a \<noteq> NaN \<and> \<not> a \<le> 0"
  by (cases a) (auto simp: zero_fl_def less_fl_def less_eq_fl_def)

lemma fl_zero_le [simp]: "(0::fl) \<le> 0" "(0::fl) \<le> 1" "(0::fl) < 1" "(1::fl) \<noteq> 0" "(0::fl) \<le> PInf"
  by (simp_all add: zero_fl_def one_fl_def less_eq_fl_def)

lemma fl_less_irrefl [simp]: "\<not> (a::fl) < a"
  by (cases a) (simp_all add: less_fl_def)

lemma fl_nonneg_not_NaN: "0 \<le> (a::fl) \<Longrightarrow> a \<noteq> NaN"
  by auto

lemma fl_divide_one_nonneg: "0 < (a::fl) \<Longrightarrow> 0 \<le> 1 / a"
  by (cases a) (auto simp: divide_fl_def one_fl_def zero_fl_def less_fl_def less_eq_fl_def
      times_fl_def inf_sign_def)

lemma fl_mid_nonneg: "0 < (a::fl) \<Longrightarrow> 0 < b \<Longrightarrow> 0 < (a + b) / 2"
  by (cases a; cases b) (auto simp: divide_fl_def numeral_fl zero_fl_def less_fl_def
      plus_fl_def times_fl_def inverse_fl_def inf_sign_def)

lemma fl_zero_times_finite: "is_finite a \<Longrightarrow> 0 * a = 0" "is_finite a \<Longrightarrow> a * 0 = 0"
  by (auto simp: is_finite_iff zero_fl_def)

lemma fl_mult_commute: "(a::fl) * b = b * a"
  unfolding times_fl_def by (cases a; cases b) (auto simp: mult.commute)

lemma fl_times_1 [simp]: "a * (1::fl) = a" "(1::fl) * a = a"
  by (cases a; simp add: times_fl_def one_fl_def inf_sign_def)+

lemma fl_div_1 [simp]: "a / (1::fl) = a"
  by (cases a) (simp_all add: divide_fl_def one_fl_def inf_sign_def)

section \<open>Text to float\<close>

text \<open>\<open>float(s)\<close>: sign, \<open>inf\<close>/\<open>infinity\<close>/\<open>nan\<close> in any case, or a decimal number.\<close>

definition pow10 :: "int \<Rightarrow> rat" where
  "pow10 e = (if 0 \<le> e then 10 ^ nat e else inverse (10 ^ nat (- e)))"

text \<open>The exponent part: \<open>None\<close> when the text after the mantissa is not one.\<close>

definition parse_exponent :: "string \<Rightarrow> int option" where
  "parse_exponent t =
     (case t of
        [] \<Rightarrow> Some 0
      | c # cs \<Rightarrow>
          if c = CHR ''e'' \<or> c = CHR ''E''
          then (case take_sign cs of (neg, u) \<Rightarrow>
                (case take_digits u of (ds, r) \<Rightarrow>
                  if ds = [] \<or> r \<noteq> [] then None
                  else Some (if neg then - int (digits_val ds) else int (digits_val ds))))
          else None)"

definition parse_decimal :: "string \<Rightarrow> rat option" where
  "parse_decimal t =
     (case take_digits t of (ip, r) \<Rightarrow>
      (case (case r of [] \<Rightarrow> ([], []) | c # cs \<Rightarrow> if c = dot then take_digits cs else ([], r)) of
        (fp, r') \<Rightarrow>
          if ip = [] \<and> fp = [] then None
          else (case parse_exponent r' of
                  None \<Rightarrow> None
                | Some e \<Rightarrow>
                    Some (of_nat (digits_val (ip @ fp)) * pow10 (e - int (length fp))))))"

definition py_float_of_str :: "string \<Rightarrow> fl option" where
  "py_float_of_str s =
     (case take_sign (py_strip s) of (neg, t) \<Rightarrow>
       (let v = (if py_lower t \<in> {''inf'', ''infinity''} then Some PInf
                 else if py_lower t = ''nan'' then Some NaN
                 else map_option Fin (parse_decimal t))
        in if neg then map_option fl_neg v else v))"

section \<open>Dynamic values\<close>

text \<open>
  The values a broker SDK hands over untyped: what \<open>getattr\<close> and \<open>row.get\<close> return. \<open>VEnum\<close> is an
  enum member, of which the program reads \<open>name\<close>; \<open>VObj\<close> is any other object, with the text
  \<open>str\<close> gives for it.
\<close>

datatype pyval =
    VNone
  | VBool bool
  | VInt int
  | VFloat fl
  | VStr string
  | VList "pyval list"
  | VEnum string
  | VObj string

text \<open>\<open>float(v)\<close>.\<close>

fun py_float :: "pyval \<Rightarrow> fl result" where
  "py_float (VBool b) = Inr (if b then 1 else 0)"
| "py_float (VInt i) = Inr (fl_of_int i)"
| "py_float (VFloat f) = Inr f"
| "py_float (VStr s) =
     (case py_float_of_str s of None \<Rightarrow> Inl (ValueError ''could not convert string to float'')
      | Some f \<Rightarrow> Inr f)"
| "py_float _ = Inl TypeError"

text \<open>\<open>bool(v)\<close>, as \<open>or\<close> and \<open>if\<close> read it.\<close>

fun py_truthy :: "pyval \<Rightarrow> bool" where
  "py_truthy VNone = False"
| "py_truthy (VBool b) = b"
| "py_truthy (VInt i) = (i \<noteq> 0)"
| "py_truthy (VFloat f) = (f \<noteq> 0)"
| "py_truthy (VStr s) = (s \<noteq> [])"
| "py_truthy (VList xs) = (xs \<noteq> [])"
| "py_truthy (VEnum _) = True"
| "py_truthy (VObj _) = True"

text \<open>
  \<open>str(v)\<close>. The shortest decimal text of a float, and the text of a list or an enum member,
  are not computed: \<open>rt\<close> supplies them.
\<close>

fun py_str :: "(pyval \<Rightarrow> string) \<Rightarrow> pyval \<Rightarrow> string" where
  "py_str rt VNone = ''None''"
| "py_str rt (VBool b) = (if b then ''True'' else ''False'')"
| "py_str rt (VInt i) = py_str_int i"
| "py_str rt (VStr s) = s"
| "py_str rt (VObj s) = s"
| "py_str rt v = rt v"

text \<open>\<open>int(v)\<close>: floats truncate towards zero; infinities and NaN raise.\<close>

definition trunc_rat :: "rat \<Rightarrow> int" where
  "trunc_rat r = (if 0 \<le> r then \<lfloor>r\<rfloor> else \<lceil>r\<rceil>)"

fun py_int :: "pyval \<Rightarrow> int result" where
  "py_int (VBool b) = Inr (if b then 1 else 0)"
| "py_int (VInt i) = Inr i"
| "py_int (VFloat (Fin r)) = Inr (trunc_rat r)"
| "py_int (VFloat NaN) = Inl (ValueError ''cannot convert float NaN to integer'')"
| "py_int (VFloat _) = Inl (OtherError ''OverflowError'')"
| "py_int (VStr s) =
     (case py_int_of_str s of None \<Rightarrow> Inl (ValueError ''invalid literal for int()'') | Some i \<Rightarrow> Inr i)"
| "py_int _ = Inl TypeError"

lemma py_float_raises: "py_float v = Inl e \<Longrightarrow> e = TypeError \<or> (\<exists>m. e = ValueError m)"
  by (cases v) (auto split: option.splits)

end
