(* ===== verification/Broker.thy ===== *)
theory Broker
  imports PyFloat
begin

text \<open>
  \<open>app/core/broker.py\<close>: the connection state, the normalised position and account summary that
  every adapter produces, the two intraday figures computed from a position, and the surface of
  the Broker protocol, with the optional capabilities callers probe for with \<open>getattr\<close>.
\<close>

datatype ConnectionState = CONNECTED | RECONNECTING | DISCONNECTED

record Position =
  broker :: string
  account_id :: string
  native_key :: string
  canonical_symbol :: string
  native_symbol :: string
  exchange :: string
  currency :: string
  name_en :: string
  asset_class :: string
  quantity :: fl
  avg_cost :: fl
  last_price :: fl
  market_value_native :: fl
  market_value_usd :: fl
  unrealized_pnl_native :: fl
  unrealized_pnl_usd :: fl
  fx_is_stale :: bool
  fx_is_fallback :: bool
  fx_unavailable :: bool
  last_price_is_previous_close :: bool
  last_price_is_broker_mark :: bool
  last_price_is_delayed :: bool
  last_price_is_stale :: bool
  price_magnifier :: int
  previous_close :: fl

text \<open>
  \<open>Position.__eq__\<close>, generated by \<open>@dataclass\<close>: field by field, floats by Python's equality, so a
  position holding a NaN differs from itself.
\<close>

definition float_fields :: "Position \<Rightarrow> fl list" where
  "float_fields p =
     [quantity p, avg_cost p, last_price p, market_value_native p, market_value_usd p,
      unrealized_pnl_native p, unrealized_pnl_usd p, previous_close p]"

definition pos_eq :: "Position \<Rightarrow> Position \<Rightarrow> bool" where
  "pos_eq p q = (p = q \<and> NaN \<notin> set (float_fields p))"

definition intraday_change_pct :: "Position \<Rightarrow> fl option" where
  "intraday_change_pct p =
     (if previous_close p \<le> 0 \<or> last_price p \<le> 0 then None
      else if last_price_is_previous_close p then None
      else Some ((last_price p - previous_close p) / previous_close p * 100))"

text \<open>Raises on a zero price magnifier, which the division does not guard.\<close>

definition intraday_pnl_usd :: "Position \<Rightarrow> fl result" where
  "intraday_pnl_usd p =
     (if previous_close p \<le> 0 \<or> last_price p \<le> 0 \<or> fx_unavailable p
         \<or> last_price_is_previous_close p \<or> feq (market_value_native p) 0
      then Inr 0
      else rbind (py_div (market_value_usd p) (market_value_native p)) (\<lambda>fx.
           rbind (py_div ((last_price p - previous_close p) * quantity p)
                         (fl_of_int (price_magnifier p))) (\<lambda>native.
             Inr (native * fx))))"

record AccountSummary =
  as_broker :: string
  as_account_id :: string
  base_currency :: string
  net_liquidation_usd :: fl
  cash_usd :: fl
  buying_power_usd :: fl
  net_liquidation_native :: fl
  gross_position_value_usd :: fl

text \<open>
  What a caller sees of a concrete broker: its name and the results of the protocol's calls. The
  optional members are the capabilities looked up with \<open>getattr(broker, name, None)\<close>; \<open>None\<close> is
  the adapter that lacks the attribute.
\<close>

record Broker =
  b_name :: string
  b_get_connection_state :: "ConnectionState result"
  b_get_positions :: "Position list result"
  b_get_account_summary :: "AccountSummary list result"
  b_current_backoff_delay :: "fl option option"
  b_has_start :: bool
  b_has_retry_now :: bool

section \<open>Lemmas\<close>

lemma pos_eq_imp_eq: "pos_eq p q \<Longrightarrow> p = q"
  by (simp add: pos_eq_def)

lemma pos_eq_refl: "NaN \<notin> set (float_fields p) \<Longrightarrow> pos_eq p p"
  by (simp add: pos_eq_def)

lemma intraday_change_pct_None_iff:
  "intraday_change_pct p = None \<longleftrightarrow>
     previous_close p \<le> 0 \<or> last_price p \<le> 0 \<or> last_price_is_previous_close p"
  by (simp add: intraday_change_pct_def)

text \<open>The only failure is the division by a zero magnifier.\<close>

lemma intraday_pnl_usd_total:
  "price_magnifier p \<noteq> 0 \<Longrightarrow> \<exists>v. intraday_pnl_usd p = Inr v"
  by (cases "market_value_native p")
     (auto simp: intraday_pnl_usd_def py_div_def fl_of_int_def feq_def)

lemma intraday_pnl_usd_value:
  assumes "market_value_native p = Fin mv" "market_value_usd p = Fin mu" "mv \<noteq> 0"
    and "last_price p = Fin l" "previous_close p = Fin c" "0 < l" "0 < c"
    and "quantity p = Fin q" "price_magnifier p = m" "m \<noteq> 0"
    and "\<not> fx_unavailable p" "\<not> last_price_is_previous_close p"
  shows "intraday_pnl_usd p = Inr (Fin ((l - c) * q / of_int m * (mu / mv)))"
  using assms
  by (simp add: intraday_pnl_usd_def py_div_def fl_of_int_def feq_def zero_fl_def)

end
