(* ===== verification/Symbols.thy ===== *)
theory Symbols
  imports Broker
begin

text \<open>
  \<open>app/core/symbols.py\<close> and \<open>app/core/yahoo_quotes.py\<close>: the exchange and currency tables, the
  canonical symbol, the country flags, and the Yahoo symbol and payload helpers. A flag emoji is a
  pair of regional indicator letters; \<open>Flag ''HK''\<close> is the emoji of those two letters.
\<close>

datatype flag = Flag string

definition IB_EXCHANGE_TO_SUFFIX :: "(string, string) dict" where
  "IB_EXCHANGE_TO_SUFFIX = [
     (''NASDAQ'', ''US''), (''NYSE'', ''US''), (''ARCA'', ''US''), (''AMEX'', ''US''),
     (''BATS'', ''US''), (''IEX'', ''US''), (''PINK'', ''US''), (''ISLAND'', ''US''),
     (''SEHK'', ''HK''), (''HKEX'', ''HK''), (''SEHKNTL'', ''HK''), (''SEHKSZSE'', ''HK''),
     (''TWSE'', ''TW''), (''TPEX'', ''TW''), (''SSE'', ''SH''), (''SZSE'', ''SZ''),
     (''TSEJ'', ''JP''), (''TSE'', ''JP''), (''OSE'', ''JP''), (''KSE'', ''KR''),
     (''KRX'', ''KR''), (''KOSDAQ'', ''KR''), (''ASX'', ''AU''), (''LSE'', ''UK''),
     (''IOB'', ''UK''), (''LSEETF'', ''UK''), (''SGX'', ''SG''), (''EBS'', ''CH''),
     (''SIX'', ''CH''), (''TSX'', ''CA''), (''TSXV'', ''CA''), (''IBIS'', ''DE''),
     (''FWB'', ''DE''), (''SBF'', ''FR''), (''AEB'', ''NL''), (''BM'', ''ES''),
     (''BVME'', ''IT''), (''SFB'', ''SE'')]"

definition SUFFIX_TO_FLAG :: "(string, flag) dict" where
  "SUFFIX_TO_FLAG = [
     (''US'', Flag ''US''), (''HK'', Flag ''HK''), (''TW'', Flag ''TW''),
     (''SH'', Flag ''CN''), (''SZ'', Flag ''CN''), (''JP'', Flag ''JP''),
     (''KR'', Flag ''KR''), (''AU'', Flag ''AU''), (''UK'', Flag ''GB''),
     (''SG'', Flag ''SG''), (''CH'', Flag ''CH''), (''CA'', Flag ''CA''),
     (''DE'', Flag ''DE''), (''FR'', Flag ''FR''), (''NL'', Flag ''NL''),
     (''ES'', Flag ''ES''), (''IT'', Flag ''IT''), (''SE'', Flag ''SE'')]"

definition CURRENCY_NAMES :: "(string, string) dict" where
  "CURRENCY_NAMES = [
     (''USD'', ''US Dollar''), (''HKD'', ''Hong Kong Dollar''),
     (''JPY'', ''Japanese Yen''), (''KRW'', ''South Korean Won''),
     (''TWD'', ''Taiwan Dollar''), (''CNH'', ''Offshore Renminbi (CNH)''),
     (''AUD'', ''Australian Dollar''), (''GBP'', ''British Pound''),
     (''EUR'', ''Euro''), (''SGD'', ''Singapore Dollar''),
     (''CHF'', ''Swiss Franc''), (''CAD'', ''Canadian Dollar''),
     (''SEK'', ''Swedish Krona'')]"

definition CURRENCY_TO_FLAG :: "(string, flag) dict" where
  "CURRENCY_TO_FLAG = [
     (''USD'', Flag ''US''), (''HKD'', Flag ''HK''), (''JPY'', Flag ''JP''),
     (''KRW'', Flag ''KR''), (''TWD'', Flag ''TW''), (''CNH'', Flag ''CN''),
     (''AUD'', Flag ''AU''), (''GBP'', Flag ''GB''), (''EUR'', Flag ''EU''),
     (''SGD'', Flag ''SG''), (''CHF'', Flag ''CH''), (''CAD'', Flag ''CA''),
     (''SEK'', Flag ''SE'')]"

definition flag_for_currency :: "string \<Rightarrow> flag result" where
  "flag_for_currency c =
     (case map_of CURRENCY_TO_FLAG c of
        None \<Rightarrow> Inl (ValueError ''unknown currency'')
      | Some f \<Rightarrow> Inr f)"

definition canonical_symbol_of :: "string \<Rightarrow> string \<Rightarrow> string result" where
  "canonical_symbol_of native primary_exchange =
     (case map_of IB_EXCHANGE_TO_SUFFIX primary_exchange of
        None \<Rightarrow> Inl (ValueError ''unknown exchange'')
      | Some suffix \<Rightarrow> Inr (native @ dot # suffix))"

definition suffix_for_exchange :: "string \<Rightarrow> string result" where
  "suffix_for_exchange primary_exchange =
     (if primary_exchange = [] then Inr []
      else (case map_of IB_EXCHANGE_TO_SUFFIX primary_exchange of
              None \<Rightarrow> Inl (ValueError ''unknown exchange'')
            | Some suffix \<Rightarrow> Inr suffix))"

text \<open>The second lookup is unguarded in the code: a suffix without a flag would be a KeyError.\<close>

definition flag_for_exchange :: "string \<Rightarrow> flag result" where
  "flag_for_exchange primary_exchange =
     (case map_of IB_EXCHANGE_TO_SUFFIX primary_exchange of
        None \<Rightarrow> Inl (ValueError ''unknown exchange'')
      | Some suffix \<Rightarrow>
          (case map_of SUFFIX_TO_FLAG suffix of None \<Rightarrow> Inl KeyError | Some f \<Rightarrow> Inr f))"

section \<open>Yahoo symbols and payloads\<close>

definition YAHOO_SUFFIX :: "(string, string) dict" where
  "YAHOO_SUFFIX = [
     (''TSEJ'', ''.T''), (''TSE'', ''.T''), (''OSE'', ''.T''), (''SEHK'', ''.HK''),
     (''SEHKNTL'', ''.HK''), (''SEHKSZSE'', ''.HK''), (''KRX'', ''.KS''), (''KSE'', ''.KS''),
     (''KOSDAQ'', ''.KQ''), (''TWSE'', ''.TW''), (''TPEX'', ''.TWO''), (''SSE'', ''.SS''),
     (''SZSE'', ''.SZ''), (''SGX'', ''.SI''), (''ASX'', ''.AX''), (''LSE'', ''.L''),
     (''IOB'', ''.IL''), (''IBIS'', ''.DE''), (''FWB'', ''.F''), (''SBF'', ''.PA''),
     (''AEB'', ''.AS''), (''BM'', ''.MC''), (''BVME'', ''.MI''), (''SFB'', ''.ST''),
     (''EBS'', ''.SW''), (''SIX'', ''.SW''), (''TSX'', ''.TO''), (''NYSE'', []),
     (''NASDAQ'', []), (''ARCA'', []), (''AMEX'', []), (''BATS'', [])]"

definition PADDED_EXCHANGES :: "(string, nat) dict" where
  "PADDED_EXCHANGES = [
     (''SEHK'', 4), (''SEHKNTL'', 4), (''SEHKSZSE'', 4)]"

definition yahoo_symbol_for :: "string \<Rightarrow> string \<Rightarrow> string option" where
  "yahoo_symbol_for native ex =
     (case map_of YAHOO_SUFFIX ex of
        None \<Rightarrow> None
      | Some suffix \<Rightarrow>
          (let symbol = (case map_of PADDED_EXCHANGES ex of
                           None \<Rightarrow> native
                         | Some w \<Rightarrow> if py_isdigit native then zfill_digits w native else native)
           in Some (if suffix \<noteq> [] then symbol @ suffix else symbol)))"

text \<open>A parsed JSON document, as \<open>response.json()\<close> returns it.\<close>

datatype json =
    JNull
  | JBool bool
  | JInt int
  | JNum fl
  | JStr string
  | JList "json list"
  | JObj "(string \<times> json) list"

text \<open>
  \<open>x[k]\<close> for a string key and \<open>x[0]\<close>: \<open>None\<close> stands for the KeyError, IndexError or TypeError
  that the caller catches together. \<open>x[0]\<close> of a non-empty text is its first character.
\<close>

fun j_field :: "string \<Rightarrow> json \<Rightarrow> json option" where
  "j_field k (JObj kvs) = map_of kvs k"
| "j_field k _ = None"

fun j_first :: "json \<Rightarrow> json option" where
  "j_first (JList (x # xs)) = Some x"
| "j_first (JStr (c # cs)) = Some (JStr [c])"
| "j_first _ = None"

text \<open>\<open>isinstance(value, (int, float)) and value > 0\<close>, with the float it converts to.\<close>

fun positive_number :: "json \<Rightarrow> fl option" where
  "positive_number (JBool b) = (if b then Some 1 else None)"
| "positive_number (JInt i) = (if 0 < i then Some (fl_of_int i) else None)"
| "positive_number (JNum f) = (if 0 < f then Some f else None)"
| "positive_number _ = None"

fun first_positive :: "json list \<Rightarrow> fl option" where
  "first_positive [] = None"
| "first_positive (v # vs) =
     (case positive_number v of Some f \<Rightarrow> Some f | None \<Rightarrow> first_positive vs)"

definition yahoo_closes :: "json \<Rightarrow> json list option" where
  "yahoo_closes payload =
     (case Option.bind (j_field ''chart'' payload) (\<lambda>chart.
           Option.bind (j_field ''result'' chart) (\<lambda>results.
           Option.bind (j_first results) (\<lambda>result.
           Option.bind (j_field ''indicators'' result) (\<lambda>ind.
           Option.bind (j_field ''quote'' ind) (\<lambda>quotes.
           Option.bind (j_first quotes) (j_field ''close'')))))) of
        Some (JList closes) \<Rightarrow> Some closes
      | _ \<Rightarrow> None)"

definition extract_latest_close :: "json \<Rightarrow> fl option" where
  "extract_latest_close payload =
     (case yahoo_closes payload of
        None \<Rightarrow> None
      | Some closes \<Rightarrow> first_positive (rev closes))"

section \<open>Lemmas\<close>

lemma suffix_table_wf: "dict_wf IB_EXCHANGE_TO_SUFFIX"
  by code_simp

text \<open>Facts about every row of a table are evaluated once, by the code equations.\<close>

lemma suffix_rows:
  "list_all (\<lambda>(e, s). map_of SUFFIX_TO_FLAG s \<noteq> None \<and> dot \<notin> set s \<and> s \<noteq> [])
     IB_EXCHANGE_TO_SUFFIX"
  by code_simp

lemma suffix_row:
  "map_of IB_EXCHANGE_TO_SUFFIX e = Some s \<Longrightarrow>
     map_of SUFFIX_TO_FLAG s \<noteq> None \<and> dot \<notin> set s \<and> s \<noteq> []"
  by (drule list_all_map_of [OF suffix_rows]) simp

lemma flag_rows:
  "list_all (\<lambda>(s, f). (f = Flag ''HK'') = (s = ''HK'') \<and> (f = Flag ''TW'') = (s = ''TW'')
     \<and> (f = Flag ''CN'') = (s \<in> {''SH'', ''SZ''})) SUFFIX_TO_FLAG"
  by code_simp

lemma flag_row:
  "map_of SUFFIX_TO_FLAG s = Some f \<Longrightarrow>
     (f = Flag ''HK'') = (s = ''HK'') \<and> (f = Flag ''TW'') = (s = ''TW'')
     \<and> (f = Flag ''CN'') = (s \<in> {''SH'', ''SZ''})"
  by (drule list_all_map_of [OF flag_rows]) simp

lemma canonical_symbol_of_Inr_iff:
  "canonical_symbol_of n e = Inr c \<longleftrightarrow>
     (\<exists>s. map_of IB_EXCHANGE_TO_SUFFIX e = Some s \<and> c = n @ dot # s)"
  by (auto simp: canonical_symbol_of_def split: option.splits)

lemma canonical_symbol_split:
  "canonical_symbol_of n e = Inr c \<Longrightarrow>
     \<exists>s. map_of IB_EXCHANGE_TO_SUFFIX e = Some s \<and> split_last dot c = Some (n, s)"
  using suffix_row [of e] split_last_append [of dot] by (auto simp: canonical_symbol_of_Inr_iff)

lemma flag_for_exchange_cases:
  "(\<exists>s f. map_of IB_EXCHANGE_TO_SUFFIX e = Some s \<and> map_of SUFFIX_TO_FLAG s = Some f
      \<and> flag_for_exchange e = Inr f)
   \<or> map_of IB_EXCHANGE_TO_SUFFIX e = None
      \<and> flag_for_exchange e = Inl (ValueError ''unknown exchange'')"
  using suffix_row [of e]
  by (cases "map_of IB_EXCHANGE_TO_SUFFIX e") (auto simp: flag_for_exchange_def)

text \<open>The search from the end of the list is the last positive entry of the list.\<close>

lemma first_positive_skip:
  "list_all (\<lambda>x. positive_number x = None) pre \<Longrightarrow>
     first_positive (pre @ vs) = first_positive vs"
  by (induction pre) auto

lemma first_positive_SomeD:
  assumes "first_positive vs = Some f"
  shows "\<exists>pre v post. vs = pre @ v # post \<and> positive_number v = Some f
       \<and> list_all (\<lambda>x. positive_number x = None) pre"
  using assms
proof (induction vs)
  case (Cons v vs)
  show ?case
  proof (cases "positive_number v")
    case None
    with Cons obtain pre w post where
      "vs = pre @ w # post" "positive_number w = Some f"
      "list_all (\<lambda>x. positive_number x = None) pre" by auto
    with None show ?thesis by (intro exI [of _ "v # pre"]) simp
  next
    case (Some g)
    with Cons.prems show ?thesis by (intro exI [of _ "[]"]) simp
  qed
qed simp

lemma first_positive_None_iff:
  "first_positive vs = None \<longleftrightarrow> list_all (\<lambda>x. positive_number x = None) vs"
  by (induction vs) (auto split: option.splits)

lemma positive_number_pos: "positive_number v = Some f \<Longrightarrow> 0 < f"
  by (cases v) (auto simp: fl_simps split: if_splits)

section \<open>Properties\<close>

text \<open>C38. A canonical symbol determines the native symbol and the country suffix it was built
  from, also when the native symbol contains dots (as BRK.B does): two instruments share a
  canonical symbol only if they share both.\<close>
theorem canonical_symbol_inj:
  assumes "canonical_symbol_of n e = Inr c" "canonical_symbol_of n' e' = Inr c"
  shows "n = n' \<and> suffix_for_exchange e = suffix_for_exchange e'"
proof -
  obtain s where s: "map_of IB_EXCHANGE_TO_SUFFIX e = Some s" "split_last dot c = Some (n, s)"
    using canonical_symbol_split [OF assms(1)] by blast
  obtain s' where s': "map_of IB_EXCHANGE_TO_SUFFIX e' = Some s'" "split_last dot c = Some (n', s')"
    using canonical_symbol_split [OF assms(2)] by blast
  have ne: "map_of IB_EXCHANGE_TO_SUFFIX [] = None" by code_simp
  have "e \<noteq> []" "e' \<noteq> []" using s(1) s'(1) ne by auto
  with s s' show ?thesis by (simp add: suffix_for_exchange_def)
qed

theorem canonical_symbol_inj_witness:
  "canonical_symbol_of ''BRK.B'' ''NYSE'' = Inr ''BRK.B.US''
   \<and> suffix_for_exchange ''NYSE'' = suffix_for_exchange ''ARCA''"
proof -
  have a: "canonical_symbol_of ''BRK.B'' ''NYSE'' = Inr ''BRK.B.US''" by code_simp
  have b: "canonical_symbol_of ''BRK.B'' ''ARCA'' = Inr ''BRK.B.US''" by code_simp
  show ?thesis using a canonical_symbol_inj [OF a b] by simp
qed

text \<open>Hong Kong, Taiwan and mainland China are never grouped: an exchange gets the Hong Kong,
  Taiwan or mainland flag exactly when its symbols carry the suffix HK, TW, or SH/SZ; and the flag
  lookup never fails on an exchange that has a suffix.\<close>
theorem flags_separate_greater_china:
  assumes "canonical_symbol_of n e = Inr c"
  shows "\<exists>f s. flag_for_exchange e = Inr f \<and> suffix_for_exchange e = Inr s
     \<and> (f = Flag ''HK'') = (s = ''HK'') \<and> (f = Flag ''TW'') = (s = ''TW'')
     \<and> (f = Flag ''CN'') = (s \<in> {''SH'', ''SZ''})"
proof -
  obtain s where s: "map_of IB_EXCHANGE_TO_SUFFIX e = Some s"
    using assms by (auto simp: canonical_symbol_of_Inr_iff)
  then obtain f where f: "map_of SUFFIX_TO_FLAG s = Some f" "flag_for_exchange e = Inr f"
    using flag_for_exchange_cases [of e] by auto
  have ne: "map_of IB_EXCHANGE_TO_SUFFIX [] = None" by code_simp
  have sf: "suffix_for_exchange e = Inr s" using s ne by (auto simp: suffix_for_exchange_def)
  show ?thesis
    by (intro exI [of _ f] exI [of _ s] conjI f(2) sf) (use flag_row [OF f(1)] in simp_all)
qed

theorem flags_separate_greater_china_witness:
  "\<exists>f s. flag_for_exchange ''SEHK'' = Inr f \<and> suffix_for_exchange ''SEHK'' = Inr s
     \<and> (f = Flag ''HK'') = (s = ''HK'') \<and> (f = Flag ''TW'') = (s = ''TW'')
     \<and> (f = Flag ''CN'') = (s \<in> {''SH'', ''SZ''})"
proof -
  have c: "canonical_symbol_of ''700'' ''SEHK'' = Inr ''700.HK''" by code_simp
  show ?thesis by (rule flags_separate_greater_china [OF c])
qed

text \<open>The close taken from a Yahoo payload is exactly the positive number standing nearest the
  end of its close list: every entry after it is null, not a number, or not positive.\<close>
theorem extract_latest_close_latest:
  "extract_latest_close payload = Some f \<longleftrightarrow>
     (\<exists>pre v post. yahoo_closes payload = Some (pre @ v # post) \<and> positive_number v = Some f
        \<and> list_all (\<lambda>x. positive_number x = None) post)" (is "?L \<longleftrightarrow> ?R")
proof
  assume ?L
  then obtain closes where c: "yahoo_closes payload = Some closes"
    and f: "first_positive (rev closes) = Some f"
    by (auto simp: extract_latest_close_def split: option.splits)
  obtain pre v post where sp: "rev closes = pre @ v # post" "positive_number v = Some f"
    "list_all (\<lambda>x. positive_number x = None) pre"
    using first_positive_SomeD [OF f] by blast
  have "closes = rev post @ v # rev pre" using sp(1) by (simp add: rev_swap)
  with c sp show ?R by (intro exI [of _ "rev post"] exI [of _ v] exI [of _ "rev pre"]) simp
next
  assume ?R
  then show ?L by (auto simp: extract_latest_close_def first_positive_skip)
qed

end
