(* ===== verification/Live.thy ===== *)
theory Live
  imports Symbols
begin

text \<open>
  \<open>app/core/live_positions.py\<close>: the observable store of current positions with its
  level-triggered change event, the display hash of a row, and the server-sent event generator,
  as one client's throttle arithmetic and as a system of several clients that share the store.
\<close>

type_synonym PositionKey = "string \<times> string \<times> string"

definition pos_key :: "Position \<Rightarrow> PositionKey" where
  "pos_key p = (broker p, account_id p, canonical_symbol p)"

definition keyed :: "Position list \<Rightarrow> (PositionKey \<times> Position) list" where
  "keyed ps = map (\<lambda>p. (pos_key p, p)) ps"

record LivePositions =
  lp_positions :: "(PositionKey, Position) dict"
  lp_changed :: bool

definition lp_new :: LivePositions where
  "lp_new = \<lparr>lp_positions = [], lp_changed = False\<rparr>"

definition get_all :: "LivePositions \<Rightarrow> Position list" where
  "get_all s = dict_values (lp_positions s)"

definition set_position :: "LivePositions \<Rightarrow> Position \<Rightarrow> LivePositions" where
  "set_position s p =
     (let existing = map_of (lp_positions s) (pos_key p)
      in if (case existing of None \<Rightarrow> False | Some q \<Rightarrow> pos_eq q p) then s
         else s\<lparr>lp_positions := AList.update (pos_key p) p (lp_positions s), lp_changed := True\<rparr>)"

definition replace_all :: "LivePositions \<Rightarrow> Position list \<Rightarrow> LivePositions" where
  "replace_all s ps =
     (let new_map = dict_of (keyed ps)
      in if dict_eq_by (\<lambda>k. pos_eq) new_map (lp_positions s) then s
         else s\<lparr>lp_positions := new_map, lp_changed := True\<rparr>)"

text \<open>
  The rows kept from the old map are the same objects in both maps, and Python's dictionary
  comparison takes identity first: a kept row equals itself even when it holds a NaN.
\<close>

definition same_row :: "Position list \<Rightarrow> PositionKey \<Rightarrow> Position \<Rightarrow> Position \<Rightarrow> bool" where
  "same_row ps k p q = (if k \<in> pos_key ` set ps then pos_eq p q else p = q)"

definition replace_broker :: "LivePositions \<Rightarrow> string \<Rightarrow> Position list \<Rightarrow> LivePositions" where
  "replace_broker s b ps =
     (let kept = filter (\<lambda>(k, p). fst k \<noteq> b) (lp_positions s);
          new_map = dict_update kept (keyed ps)
      in if dict_eq_by (same_row ps) new_map (lp_positions s) then s
         else s\<lparr>lp_positions := new_map, lp_changed := True\<rparr>)"

text \<open>\<open>wait_for_change\<close>: \<open>None\<close> while it blocks; when it returns the event is cleared.\<close>

definition wait_for_change :: "LivePositions \<Rightarrow> LivePositions option" where
  "wait_for_change s = (if lp_changed s then Some (s\<lparr>lp_changed := False\<rparr>) else None)"

definition live_wf :: "LivePositions \<Rightarrow> bool" where
  "live_wf s = (dict_wf (lp_positions s) \<and> list_all (\<lambda>(k, p). k = pos_key p) (lp_positions s))"

definition row_of :: "LivePositions \<Rightarrow> PositionKey \<Rightarrow> Position option" where
  "row_of s = map_of (lp_positions s)"

section \<open>Display hash\<close>

text \<open>
  \<open>fmt\<close> is the text of a float in an f-string and \<open>sha\<close> the truncated hex digest; both come from
  the standard library and are not computed here.
\<close>

definition bar :: string where
  "bar = [CHR 0x7C]"

definition flag01 :: "bool \<Rightarrow> string" where
  "flag01 b = (if b then ''1'' else ''0'')"

definition hash_payload :: "(fl \<Rightarrow> string) \<Rightarrow> Position \<Rightarrow> string" where
  "hash_payload fmt p =
     name_en p @ bar @ currency p @ bar @ fmt (quantity p) @ bar @ fmt (last_price p) @ bar
     @ fmt (market_value_native p) @ bar @ fmt (market_value_usd p) @ bar
     @ fmt (unrealized_pnl_native p) @ bar @ fmt (unrealized_pnl_usd p) @ bar
     @ flag01 (last_price_is_stale p) @ bar @ flag01 (last_price_is_broker_mark p) @ bar
     @ flag01 (last_price_is_delayed p)"

definition hash_position :: "(string \<Rightarrow> string) \<Rightarrow> (fl \<Rightarrow> string) \<Rightarrow> Position \<Rightarrow> string" where
  "hash_position sha fmt p = sha (hash_payload fmt p)"

definition row_hashes :: "(Position \<Rightarrow> string) \<Rightarrow> Position list \<Rightarrow> (PositionKey, string) dict" where
  "row_hashes h ps = dict_of (map (\<lambda>p. (pos_key p, h p)) ps)"

section \<open>Lemmas on the store\<close>

lemma fst_set_keyed [simp]: "fst ` set (keyed ps) = pos_key ` set ps"
  by (force simp: keyed_def)

lemma keyed_entries: "list_all (\<lambda>(k, p). k = pos_key p) (keyed ps)"
  by (simp add: keyed_def list_all_iff)

lemma AList_update_entries:
  "list_all (\<lambda>(k, p). k = pos_key p) d \<Longrightarrow> k = pos_key p \<Longrightarrow>
     list_all (\<lambda>(k, p). k = pos_key p) (AList.update k p d)"
  by (induction d) auto

lemma dict_update_entries:
  "list_all (\<lambda>(k, p). k = pos_key p) d \<Longrightarrow> list_all (\<lambda>(k, p). k = pos_key p) kvs \<Longrightarrow>
     list_all (\<lambda>(k, p). k = pos_key p) (dict_update d kvs)"
  by (induction d kvs rule: dict_update.induct) (auto simp: AList_update_entries)

lemma live_wf_new [simp]: "live_wf lp_new"
  by (simp add: live_wf_def lp_new_def)

lemma live_wf_set_position [simp]: "live_wf s \<Longrightarrow> live_wf (set_position s p)"
  by (simp add: live_wf_def set_position_def Let_def AList_update_entries)

lemma live_wf_replace_all [simp]: "live_wf s \<Longrightarrow> live_wf (replace_all s ps)"
  by (simp add: live_wf_def replace_all_def Let_def dict_of_def dict_update_entries keyed_entries)

lemma live_wf_replace_broker [simp]:
  assumes "live_wf s"
  shows "live_wf (replace_broker s b ps)"
proof -
  have "list_all (\<lambda>(k, p). k = pos_key p) (filter (\<lambda>(k, p). fst k \<noteq> b) (lp_positions s))"
    using assms by (auto simp: live_wf_def list_all_iff)
  with assms show ?thesis
    by (simp add: live_wf_def replace_broker_def Let_def dict_update_entries keyed_entries)
qed

lemma row_of_key: "live_wf s \<Longrightarrow> row_of s k = Some p \<Longrightarrow> pos_key p = k"
  by (auto simp: live_wf_def row_of_def dest: list_all_map_of)

lemma row_of_mem: "live_wf s \<Longrightarrow> row_of s k = Some p \<longleftrightarrow> (k, p) \<in> set (lp_positions s)"
  by (simp add: live_wf_def row_of_def dict_wf_map_of_mem)

lemma get_all_rows: "live_wf s \<Longrightarrow> p \<in> set (get_all s) \<longleftrightarrow> row_of s (pos_key p) = Some p"
  by (force simp: row_of_mem get_all_def dict_values_def live_wf_def list_all_iff)

lemma row_of_set_position: "row_of (set_position s p) = (row_of s)(pos_key p \<mapsto> p)"
  by (auto simp: row_of_def set_position_def Let_def dict_simps fun_upd_idem
      dest: pos_eq_imp_eq split: option.splits)

lemma row_of_replace_all:
  assumes "live_wf s"
  shows "row_of (replace_all s ps) = map_of (rev (keyed ps))"
proof (cases "dict_eq_by (\<lambda>k. pos_eq) (dict_of (keyed ps)) (lp_positions s)")
  case True
  moreover from this have "map_of (dict_of (keyed ps)) = map_of (lp_positions s)"
    using assms by (intro dict_eq_by_imp_map_of [where eq = "\<lambda>k. pos_eq"])
       (auto simp: live_wf_def dest: pos_eq_imp_eq)
  ultimately show ?thesis
    by (simp add: row_of_def replace_all_def map_of_dict_of)
next
  case False
  then show ?thesis by (simp add: row_of_def replace_all_def Let_def map_of_dict_of)
qed

lemma row_of_replace_broker:
  assumes "live_wf s"
  shows "row_of (replace_broker s b ps) k =
    (case map_of (rev (keyed ps)) k of Some p \<Rightarrow> Some p
     | None \<Rightarrow> if fst k = b then None else row_of s k)"
proof -
  let ?new = "dict_update (filter (\<lambda>(k, p). fst k \<noteq> b) (lp_positions s)) (keyed ps)"
  have new: "map_of ?new k = (case map_of (rev (keyed ps)) k of Some p \<Rightarrow> Some p
     | None \<Rightarrow> if fst k = b then None else row_of s k)"
    using map_of_filter_key [of "\<lambda>k. fst k \<noteq> b" "lp_positions s" k]
    by (simp add: map_of_dict_update map_add_def row_of_def split: option.splits)
  let ?same = "same_row ps"
  show ?thesis
  proof (cases "dict_eq_by ?same ?new (lp_positions s)")
    case True
    then have "map_of ?new = map_of (lp_positions s)"
      using assms by (intro dict_eq_by_imp_map_of [where eq = ?same])
         (auto simp: live_wf_def same_row_def dest: pos_eq_imp_eq split: if_splits)
    with True new show ?thesis by (simp add: row_of_def replace_broker_def)
  next
    case False
    with new show ?thesis by (simp add: row_of_def replace_broker_def Let_def)
  qed
qed

text \<open>A store that does not change keeps its event as it was; a store that changes sets it.\<close>

lemma set_position_changed:
  "lp_changed (set_position s p) = (lp_changed s \<or> set_position s p \<noteq> s \<or>
     (\<exists>q. row_of s (pos_key p) = Some q \<and> \<not> pos_eq q p) \<or> row_of s (pos_key p) = None)"
  by (auto simp: set_position_def row_of_def Let_def split: option.splits)

lemma set_position_rows_unchanged:
  "lp_changed (set_position s p) = False \<Longrightarrow> set_position s p = s"
  by (auto simp: set_position_def Let_def split: if_splits)

lemma replace_broker_rows_unchanged:
  "lp_changed (replace_broker s b ps) = False \<Longrightarrow> replace_broker s b ps = s"
  by (auto simp: replace_broker_def Let_def split: if_splits)

section \<open>The interface of a row store\<close>

text \<open>What the broker adapters rely on: a streaming adapter sets single rows, polling adapters
  replace the rows of their own broker.\<close>

locale row_store =
  fixes set_row :: "'s \<Rightarrow> Position \<Rightarrow> 's"
    and replace_rows :: "'s \<Rightarrow> string \<Rightarrow> Position list \<Rightarrow> 's"
    and row :: "'s \<Rightarrow> PositionKey \<Rightarrow> Position option"
    and ok :: "'s \<Rightarrow> bool"
  assumes ok_set: "ok s \<Longrightarrow> ok (set_row s p)"
    and ok_replace: "ok s \<Longrightarrow> ok (replace_rows s b ps)"
    and row_set: "ok s \<Longrightarrow> row (set_row s p) = (row s)(pos_key p \<mapsto> p)"
    and row_replace: "ok s \<Longrightarrow> row (replace_rows s b ps) k =
      (case map_of (rev (keyed ps)) k of Some p \<Rightarrow> Some p
       | None \<Rightarrow> if fst k = b then None else row s k)"
begin

lemma ok_seed: "ok s \<Longrightarrow> ok (foldl set_row s ps)"
  by (induction ps arbitrary: s) (auto intro: ok_set)

lemma row_seed: "ok s \<Longrightarrow> row (foldl set_row s ps) = row s ++ map_of (rev (keyed ps))"
  by (induction ps arbitrary: s) (auto simp: ok_set row_set keyed_def)

lemma rows_other_broker:
  assumes "ok s" "list_all (\<lambda>p. broker p = b) ps" "fst k \<noteq> b"
  shows "row (replace_rows s b ps) k = row s k"
proof -
  have "k \<notin> fst ` set (rev (keyed ps))"
    using assms(2,3) by (auto simp: list_all_iff pos_key_def)
  then have "map_of (rev (keyed ps)) k = None" by (metis map_of_eq_None_iff)
  with assms show ?thesis by (simp add: row_replace)
qed

lemma rows_own_broker:
  assumes "ok s" "fst k = b"
  shows "row (replace_rows s b ps) k = map_of (rev (keyed ps)) k"
  using assms by (simp add: row_replace split: option.splits)

text \<open>Refreshes of two different brokers do not interfere, in either order.\<close>

lemma replace_commute:
  assumes "ok s" "b \<noteq> c" "list_all (\<lambda>p. broker p = b) ps" "list_all (\<lambda>p. broker p = c) qs"
  shows "row (replace_rows (replace_rows s b ps) c qs) k
       = row (replace_rows (replace_rows s c qs) b ps) k"
proof -
  consider "fst k = b" | "fst k = c" | "fst k \<noteq> b" "fst k \<noteq> c" by blast
  then show ?thesis
    using assms
    by cases (simp_all add: rows_other_broker rows_own_broker ok_replace)
qed

end

interpretation lp: row_store set_position replace_broker row_of live_wf
  by unfold_locales (simp_all add: row_of_set_position row_of_replace_broker)

section \<open>The event generator\<close>

text \<open>
  The throttle of one client, on the readings of the monotonic clock. After a change is noticed at
  \<open>now\<close>, the generator sleeps for the rest of the minimum interval since the last emission.
\<close>

definition throttle_sleep :: "rat \<Rightarrow> rat \<Rightarrow> rat \<Rightarrow> rat" where
  "throttle_sleep min_interval last_emit now =
     (let elapsed = now - last_emit in if elapsed < min_interval then min_interval - elapsed else 0)"

text \<open>
  The emissions of a run. Every round gives the clock when the change is noticed, how much longer
  than asked the sleep takes, whether the hashes differ, and how long the consumer keeps the
  generator suspended at its \<open>yield\<close>; \<open>last_emit\<close> is read after that suspension.
\<close>

fun emissions :: "rat \<Rightarrow> rat \<Rightarrow> (rat \<times> rat \<times> bool \<times> rat) list \<Rightarrow> rat list" where
  "emissions min_interval last_emit [] = []"
| "emissions min_interval last_emit ((now, over, differs, held) # rounds) =
     (let emit = now + throttle_sleep min_interval last_emit now + over
      in if differs then emit # emissions min_interval (emit + held) rounds
         else emissions min_interval last_emit rounds)"

lemma throttle_sleep_reaches:
  "last_emit + min_interval \<le> now + throttle_sleep min_interval last_emit now"
  by (simp add: throttle_sleep_def Let_def)

text \<open>
  Several clients share one store and its one change event. A client is suspended at a \<open>yield\<close> or
  about to wait (\<open>Idle\<close>); blocked in \<open>wait_for_change\<close> (\<open>Waiting\<close>); chosen to resume because the
  event was set while it waited (\<open>Woken\<close>); past the wait, in its throttle sleep (\<open>Ready\<close>); or
  suspended at the \<open>yield\<close> of an update whose hashes it will remember (\<open>Yielding\<close>).
\<close>

datatype sse_pc =
    Idle
  | Waiting
  | Woken
  | Ready
  | Yielding "(PositionKey, string) dict"

record sse_client =
  pc :: sse_pc
  last_hashes :: "(PositionKey, string) dict"

record sse_system =
  store :: LivePositions
  clients :: "sse_client list"

definition same_hashes :: "(PositionKey, string) dict \<Rightarrow> (PositionKey, string) dict \<Rightarrow> bool" where
  "same_hashes = dict_eq_by (\<lambda>k v w. v = w)"

text \<open>Setting the event resumes every client that waits on it.\<close>

definition wake_waiting :: "LivePositions \<Rightarrow> sse_client list \<Rightarrow> sse_client list" where
  "wake_waiting s cs =
     (if lp_changed s then map (\<lambda>c. if pc c = Waiting then c\<lparr>pc := Woken\<rparr> else c) cs else cs)"

definition produce :: "sse_system \<Rightarrow> LivePositions \<Rightarrow> sse_system" where
  "produce y s = y\<lparr>store := s, clients := wake_waiting s (clients y)\<rparr>"

definition set_client :: "sse_system \<Rightarrow> nat \<Rightarrow> sse_client \<Rightarrow> sse_system" where
  "set_client y i c = y\<lparr>clients := (clients y)[i := c]\<rparr>"

definition sse_connect :: "(Position \<Rightarrow> string) \<Rightarrow> sse_system \<Rightarrow> sse_system" where
  "sse_connect h y =
     y\<lparr>clients := clients y @ [\<lparr>pc = Idle, last_hashes = row_hashes h (get_all (store y))\<rparr>]\<rparr>"

text \<open>The client leaves its yield and calls \<open>wait_for_change\<close>.\<close>

definition sse_enter :: "sse_system \<Rightarrow> nat \<Rightarrow> sse_system" where
  "sse_enter y i =
     (case wait_for_change (store y) of
        Some s \<Rightarrow> (set_client y i ((clients y ! i)\<lparr>pc := Ready\<rparr>))\<lparr>store := s\<rparr>
      | None \<Rightarrow> set_client y i ((clients y ! i)\<lparr>pc := Waiting\<rparr>))"

text \<open>The resumed waiter clears the event.\<close>

definition sse_wake :: "sse_system \<Rightarrow> nat \<Rightarrow> sse_system" where
  "sse_wake y i =
     (set_client y i ((clients y ! i)\<lparr>pc := Ready\<rparr>))\<lparr>store := (store y)\<lparr>lp_changed := False\<rparr>\<rparr>"

text \<open>After the throttle: compare the hashes of the current rows with the remembered ones.\<close>

definition sse_compare :: "(Position \<Rightarrow> string) \<Rightarrow> sse_system \<Rightarrow> nat \<Rightarrow> sse_system" where
  "sse_compare h y i =
     (let c = clients y ! i; new_hashes = row_hashes h (get_all (store y))
      in if same_hashes new_hashes (last_hashes c) then set_client y i (c\<lparr>pc := Idle\<rparr>)
         else set_client y i (c\<lparr>pc := Yielding new_hashes\<rparr>))"

inductive sse_step :: "(Position \<Rightarrow> string) \<Rightarrow> sse_system \<Rightarrow> sse_system \<Rightarrow> bool"
  for h :: "Position \<Rightarrow> string" where
  producer_set: "sse_step h y (produce y (set_position (store y) p))"
| producer_replace: "sse_step h y (produce y (replace_broker (store y) b ps))"
| enter: "i < length (clients y) \<Longrightarrow> pc (clients y ! i) = Idle \<Longrightarrow> sse_step h y (sse_enter y i)"
| heartbeat: "i < length (clients y) \<Longrightarrow> pc (clients y ! i) = Waiting \<or> pc (clients y ! i) = Woken \<Longrightarrow>
    sse_step h y (set_client y i ((clients y ! i)\<lparr>pc := Idle\<rparr>))"
| wake: "i < length (clients y) \<Longrightarrow> pc (clients y ! i) = Woken \<Longrightarrow> sse_step h y (sse_wake y i)"
| compare: "i < length (clients y) \<Longrightarrow> pc (clients y ! i) = Ready \<Longrightarrow>
    sse_step h y (sse_compare h y i)"
| resume: "i < length (clients y) \<Longrightarrow> pc (clients y ! i) = Yielding hs \<Longrightarrow>
    sse_step h y (set_client y i ((clients y ! i)\<lparr>pc := Idle, last_hashes := hs\<rparr>))"

text \<open>Runs of \<open>n\<close> clients that connect to a fresh store.\<close>

fun connected :: "(Position \<Rightarrow> string) \<Rightarrow> nat \<Rightarrow> sse_system" where
  "connected h 0 = \<lparr>store = lp_new, clients = []\<rparr>"
| "connected h (Suc n) = sse_connect h (connected h n)"

inductive sse_reachable :: "(Position \<Rightarrow> string) \<Rightarrow> nat \<Rightarrow> sse_system \<Rightarrow> bool"
  for h :: "Position \<Rightarrow> string" and n :: nat where
  start: "sse_reachable h n (connected h n)"
| step: "sse_reachable h n y \<Longrightarrow> sse_step h y z \<Longrightarrow> sse_reachable h n z"

text \<open>The rows a client has shown are those of the store.\<close>

definition shows_current :: "(Position \<Rightarrow> string) \<Rightarrow> sse_system \<Rightarrow> sse_client \<Rightarrow> bool" where
  "shows_current h y c = same_hashes (row_hashes h (get_all (store y))) (last_hashes c)"

section \<open>Lemmas on the event generator\<close>

lemma same_hashes_refl [simp]: "same_hashes (row_hashes h ps) (row_hashes h ps)"
  by (simp add: same_hashes_def row_hashes_def dict_eq_by_refl list_all_iff)

lemma set_position_changes: "set_position s p = s \<or> lp_changed (set_position s p)"
  by (simp add: set_position_def Let_def)

lemma replace_broker_changes: "replace_broker s b ps = s \<or> lp_changed (replace_broker s b ps)"
  by (simp add: replace_broker_def Let_def)

text \<open>
  With one client: while the event is clear, a client that waits or is about to wait remembers
  the hashes of the store, and one that yields will remember them; only a set event resumes it.
\<close>

fun client_settled :: "(PositionKey, string) dict \<Rightarrow> sse_client \<Rightarrow> bool" where
  "client_settled hs c =
     (case pc c of
        Idle \<Rightarrow> same_hashes hs (last_hashes c)
      | Waiting \<Rightarrow> same_hashes hs (last_hashes c)
      | Woken \<Rightarrow> False
      | Ready \<Rightarrow> True
      | Yielding hs' \<Rightarrow> same_hashes hs hs')"

definition one_client_inv :: "(Position \<Rightarrow> string) \<Rightarrow> sse_system \<Rightarrow> bool" where
  "one_client_inv h y =
     (\<exists>c. clients y = [c] \<and>
        (if lp_changed (store y) then pc c \<noteq> Waiting
         else client_settled (row_hashes h (get_all (store y))) c))"

lemma one_client_produce:
  assumes "one_client_inv h y" "s = store y \<or> lp_changed s"
  shows "one_client_inv h (produce y s)"
proof -
  obtain c where c: "clients y = [c]" using assms(1) by (auto simp: one_client_inv_def)
  show ?thesis
  proof (cases "lp_changed s")
    case True
    with c show ?thesis by (simp add: one_client_inv_def produce_def wake_waiting_def)
  next
    case False
    with assms have "s = store y" by simp
    with False assms(1) show ?thesis by (simp add: one_client_inv_def produce_def wake_waiting_def)
  qed
qed

lemma one_client_step:
  assumes "sse_step h y z" "one_client_inv h y"
  shows "one_client_inv h z"
  using assms
proof (induction rule: sse_step.induct)
  case (producer_set y p)
  then show ?case using set_position_changes by (intro one_client_produce)
next
  case (producer_replace y b ps)
  then show ?case using replace_broker_changes by (intro one_client_produce)
next
  case (enter i y)
  then show ?case
    by (auto simp: one_client_inv_def sse_enter_def wait_for_change_def set_client_def)
next
  case (heartbeat i y)
  then show ?case by (auto simp: one_client_inv_def set_client_def split: if_splits)
next
  case (wake i y)
  then show ?case by (auto simp: one_client_inv_def sse_wake_def set_client_def)
next
  case (compare i y)
  then show ?case
    by (auto simp: one_client_inv_def sse_compare_def Let_def set_client_def)
next
  case (resume i y hs)
  then show ?case by (auto simp: one_client_inv_def set_client_def)
qed

lemma one_client_reachable: "sse_reachable h 1 y \<Longrightarrow> one_client_inv h y"
proof (induction rule: sse_reachable.induct)
  case start
  show ?case
    by (simp add: one_client_inv_def sse_connect_def lp_new_def)
next
  case (step y z)
  then show ?case by (blast intro: one_client_step)
qed

lemma successively_lower_head:
  fixes m :: rat
  assumes "successively (\<lambda>a b. a + m \<le> b) (y # es)" "x \<le> y"
  shows "successively (\<lambda>a b. a + m \<le> b) (x # es)"
proof (cases es)
  case (Cons e es')
  then have "y + m \<le> e" "successively (\<lambda>a b. a + m \<le> b) (e # es')" using assms(1) by simp_all
  moreover have "x + m \<le> e" using \<open>y + m \<le> e\<close> assms(2) by (rule order_trans [OF add_right_mono, rotated])
  ultimately show ?thesis using Cons by simp
qed simp

lemma emissions_spaced_from:
  assumes "list_all (\<lambda>(now, over, differs, held). 0 \<le> over \<and> 0 \<le> held) rounds"
  shows "successively (\<lambda>a b. a + m \<le> b) (prev # emissions m prev rounds)"
  using assms
proof (induction m prev rounds rule: emissions.induct)
  case (2 m prev now over differs held rounds)
  define emit where "emit = now + throttle_sleep m prev now + over"
  have bounds: "0 \<le> over" "0 \<le> held" using 2(3) by simp_all
  have rest: "list_all (\<lambda>(now, over, differs, held). 0 \<le> over \<and> 0 \<le> held) rounds"
    using 2(3) by simp
  have spaced: "prev + m \<le> emit"
    using throttle_sleep_reaches [of prev m now] bounds(1) by (simp add: emit_def)
  show ?case
  proof (cases differs)
    case True
    then have "successively (\<lambda>a b. a + m \<le> b) ((emit + held) # emissions m (emit + held) rounds)"
      using 2(1) [OF emit_def True rest] by simp
    then have "successively (\<lambda>a b. a + m \<le> b) (emit # emissions m (emit + held) rounds)"
      by (rule successively_lower_head) (use bounds(2) in simp)
    with True spaced show ?thesis
      by (simp only: emissions.simps Let_def emit_def [symmetric] if_True successively.simps)
  next
    case False
    have "emissions m prev ((now, over, differs, held) # rounds) = emissions m prev rounds"
      using False by (simp add: Let_def)
    with 2(2) [OF emit_def False rest] show ?thesis by simp
  qed
qed simp

section \<open>Properties\<close>

text \<open>Refreshing the rows of one broker leaves every other broker's rows as they were, and makes
  the rows of that broker exactly the given ones, the last winning where a key repeats.\<close>
theorem replace_broker_rows:
  assumes "live_wf s" "list_all (\<lambda>p. broker p = b) ps"
  shows "live_wf (replace_broker s b ps)
    \<and> row_of (replace_broker s b ps)
      = (\<lambda>k. if fst k = b then map_of (rev (keyed ps)) k else row_of s k)"
  using lp.rows_own_broker [OF assms(1)] lp.rows_other_broker [OF assms] assms(1) by auto

definition demo_row :: "string \<Rightarrow> string \<Rightarrow> fl \<Rightarrow> Position" where
  "demo_row b c q =
     \<lparr>broker = b, account_id = ''A'', native_key = c, canonical_symbol = c, native_symbol = c,
      exchange = ''SEHK'', currency = ''HKD'', name_en = c, asset_class = ''STK'', quantity = q,
      avg_cost = 1, last_price = 1, market_value_native = q, market_value_usd = q,
      unrealized_pnl_native = 0, unrealized_pnl_usd = 0, fx_is_stale = False,
      fx_is_fallback = False, fx_unavailable = False, last_price_is_previous_close = False,
      last_price_is_broker_mark = False, last_price_is_delayed = False,
      last_price_is_stale = False, price_magnifier = 1, previous_close = 1\<rparr>"

theorem replace_broker_rows_witness:
  "row_of (replace_broker (set_position (set_position lp_new (demo_row ''ibkr'' ''A.US'' 1))
       (demo_row ''tiger'' ''B.US'' 1)) ''tiger'' [demo_row ''tiger'' ''C.US'' 2])
   = (\<lambda>k. if fst k = ''tiger'' then map_of (rev (keyed [demo_row ''tiger'' ''C.US'' 2])) k
         else row_of (set_position (set_position lp_new (demo_row ''ibkr'' ''A.US'' 1))
           (demo_row ''tiger'' ''B.US'' 1)) k)"
  by (rule conjunct2 [OF replace_broker_rows]) (simp_all add: demo_row_def)

text \<open>C1. With one client connected no update is lost: whenever the client is blocked waiting for a
  change, the rows it has shown are, by their hashes, those of the store; and whenever they are
  not, it is past its wait or the event is set, so its next wait returns at once.\<close>
theorem sse_single_client_current:
  assumes "sse_reachable h 1 y"
  shows "\<exists>c. clients y = [c]
    \<and> (pc c = Waiting \<longrightarrow> \<not> lp_changed (store y) \<and> shows_current h y c)
    \<and> (pc c = Idle \<and> \<not> shows_current h y c \<longrightarrow> wait_for_change (store y) \<noteq> None)
    \<and> (pc c = Woken \<longrightarrow> lp_changed (store y))"
proof -
  obtain c where "clients y = [c]"
    and "if lp_changed (store y) then pc c \<noteq> Waiting
         else client_settled (row_hashes h (get_all (store y))) c"
    using one_client_reachable [OF assms] by (auto simp: one_client_inv_def)
  then show ?thesis
    by (intro exI [of _ c]) (auto simp: shows_current_def wait_for_change_def split: if_splits)
qed

theorem sse_single_client_current_witness:
  "\<exists>c. clients (connected name_en 1) = [c]
    \<and> (pc c = Waiting \<longrightarrow> \<not> lp_changed (store (connected name_en 1))
          \<and> shows_current name_en (connected name_en 1) c)
    \<and> (pc c = Idle \<and> \<not> shows_current name_en (connected name_en 1) c
          \<longrightarrow> wait_for_change (store (connected name_en 1)) \<noteq> None)
    \<and> (pc c = Woken \<longrightarrow> lp_changed (store (connected name_en 1)))"
  by (rule sse_single_client_current [OF sse_reachable.start])

text \<open>C2. With two clients an update can be lost: a client that is still sending an event when the
  store changes, while the other client's wait consumes the shared event, next blocks on a clear
  event with rows on its page that are not those of the store.\<close>
theorem sse_two_clients_lose_update:
  "\<exists>y. sse_reachable h 2 y \<and> pc (clients y ! 0) = Waiting \<and> \<not> lp_changed (store y)
     \<and> \<not> shows_current h y (clients y ! 0)"
proof -
  let ?p = "demo_row ''ibkr'' ''A.US'' 1"
  let ?y0 = "connected h 2"
  let ?y1 = "produce ?y0 (set_position (store ?y0) ?p)"
  let ?y2 = "sse_enter ?y1 1"
  let ?y3 = "sse_enter ?y2 0"
  note eval = numeral_2_eq_2 sse_connect_def lp_new_def produce_def set_position_def
    wake_waiting_def sse_enter_def set_client_def wait_for_change_def
  have "sse_reachable h 2 ?y0" by (rule sse_reachable.start)
  then have "sse_reachable h 2 ?y1" by (rule sse_reachable.step [OF _ sse_step.producer_set])
  then have "sse_reachable h 2 ?y2"
    by (rule sse_reachable.step [OF _ sse_step.enter]) (simp_all add: eval)
  then have "sse_reachable h 2 ?y3"
    by (rule sse_reachable.step [OF _ sse_step.enter]) (simp_all add: eval)
  then show ?thesis
    by (intro exI [of _ ?y3] conjI)
      (simp_all add: eval shows_current_def same_hashes_def dict_eq_by_def row_hashes_def
        dict_of_def get_all_def dict_values_def)
qed

text \<open>One client's update events are at least the minimum interval apart, however late the
  sleeps end and however long the consumer holds the generator between events.\<close>
theorem emissions_spaced:
  assumes "list_all (\<lambda>(now, over, differs, held). 0 \<le> over \<and> 0 \<le> held) rounds"
  shows "successively (\<lambda>a b. a + min_interval \<le> b) (start # emissions min_interval start rounds)"
  by (rule emissions_spaced_from [OF assms])

theorem emissions_spaced_witness:
  "emissions (1/2) 0 [(1/10, 0, True, 0), (6/10, 1/10, True, 0)] = [1/2, 11/10]
   \<and> successively (\<lambda>a b. a + 1/2 \<le> b) (0 # emissions (1/2) 0 [(1/10, 0, True, 0), (6/10, 1/10, True, 0)])"
  using emissions_spaced [of "[(1/10, 0, True, 0), (6/10, 1/10, True, 0)]" "1/2" 0]
  by (simp add: throttle_sleep_def)

text \<open>The display hash does not see the previous close or the currency flags of a row, although the
  displayed day change depends on the previous close: a corrected previous close alone changes
  the page of a reload and is never pushed.\<close>
theorem hash_misses_previous_close:
  "hash_position sha fmt (p\<lparr>previous_close := c, fx_is_stale := f1, fx_is_fallback := f2,
      fx_unavailable := f3, last_price_is_previous_close := f4\<rparr>) = hash_position sha fmt p
   \<and> intraday_change_pct (demo_row b s 1) \<noteq> intraday_change_pct ((demo_row b s 1)\<lparr>previous_close := 2\<rparr>)"
  by (simp add: hash_position_def hash_payload_def intraday_change_pct_def demo_row_def fl_simps)

end
