(* ===== verification/Clock.thy ===== *)
theory Clock
  imports Prelude
begin

text \<open>
  Instants: UTC datetimes as microseconds since 0001-01-01T00:00:00 (the first day Python's
  \<open>datetime\<close> has), their weekday and hour, and the text \<open>isoformat()\<close> gives. The database keeps
  that text and compares it; the section on order shows that this is comparison of instants.
\<close>

type_synonym instant = int

definition day_us :: int where
  "day_us = 86400000000"

definition seconds :: "int \<Rightarrow> int" where
  "seconds n = n * 1000000"

definition days :: "int \<Rightarrow> int" where
  "days n = n * day_us"

text \<open>\<open>weekday()\<close>: Monday is 0; 0001-01-01 was a Monday.\<close>

definition weekday :: "instant \<Rightarrow> int" where
  "weekday t = (t div day_us) mod 7"

definition hour :: "instant \<Rightarrow> int" where
  "hour t = (t mod day_us) div 3600000000"

section \<open>Calendar fields\<close>

definition leap :: "int \<Rightarrow> bool" where
  "leap y = (y mod 4 = 0 \<and> (y mod 100 \<noteq> 0 \<or> y mod 400 = 0))"

definition days_before_year :: "int \<Rightarrow> int" where
  "days_before_year y = (y - 1) * 365 + (y - 1) div 4 - (y - 1) div 100 + (y - 1) div 400"

text \<open>The year of a day number, by the cycles of 400, 100, 4 and 1 years.\<close>

definition year_of :: "int \<Rightarrow> int" where
  "year_of n =
     (let a = n div 146097; r = n mod 146097;
          b = min 3 (r div 36524); r2 = r - 36524 * b;
          c = r2 div 1461; r3 = r2 mod 1461;
          d = min 3 (r3 div 365)
      in 400 * a + 100 * b + 4 * c + d + 1)"

definition month_starts :: "bool \<Rightarrow> int list" where
  "month_starts lp =
     (if lp then [31, 60, 91, 121, 152, 182, 213, 244, 274, 305, 335]
      else [31, 59, 90, 120, 151, 181, 212, 243, 273, 304, 334])"

definition day_of_year :: "int \<Rightarrow> int" where
  "day_of_year n = n - days_before_year (year_of n)"

definition starts_upto :: "int \<Rightarrow> int list" where
  "starts_upto n = filter (\<lambda>s. s \<le> day_of_year n) (month_starts (leap (year_of n)))"

definition month_of :: "int \<Rightarrow> int" where
  "month_of n = 1 + int (length (starts_upto n))"

definition day_of_month :: "int \<Rightarrow> int" where
  "day_of_month n =
     1 + day_of_year n - (if starts_upto n = [] then 0 else last (starts_upto n))"

section \<open>ISO text\<close>

definition digit_of :: "int \<Rightarrow> char" where
  "digit_of i = digit_char (nat (i mod 10))"

definition pad2 :: "int \<Rightarrow> string" where
  "pad2 i = [digit_of (i div 10), digit_of i]"

definition pad4 :: "int \<Rightarrow> string" where
  "pad4 i = pad2 (i div 100) @ pad2 i"

definition pad6 :: "int \<Rightarrow> string" where
  "pad6 i = pad4 (i div 100) @ pad2 i"

definition iso_date :: "int \<Rightarrow> string" where
  "iso_date n = pad4 (year_of n) @ ''-'' @ pad2 (month_of n) @ ''-'' @ pad2 (day_of_month n)"

definition iso_fraction :: "int \<Rightarrow> string" where
  "iso_fraction us = (if us = 0 then [] else dot # pad6 us) @ ''+00:00''"

definition isoformat :: "instant \<Rightarrow> string" where
  "isoformat t =
     (let n = t div day_us; u = t mod day_us
      in iso_date n @ ''T'' @ pad2 (u div 3600000000) @ '':'' @ pad2 (u mod 3600000000 div 60000000)
         @ '':'' @ pad2 (u mod 60000000 div 1000000) @ iso_fraction (u mod 1000000))"

text \<open>SQLite's default comparison of text: by the bytes of the characters.\<close>

fun text_le :: "string \<Rightarrow> string \<Rightarrow> bool" where
  "text_le [] _ = True"
| "text_le (c # cs) [] = False"
| "text_le (c # cs) (d # ds) =
     (of_char c < (of_char d :: nat) \<or> (c = d \<and> text_le cs ds))"

section \<open>The order of texts is the order of instants\<close>

lemma div_bounds: "0 < (k::int) \<Longrightarrow> k * (x div k) \<le> x \<and> x < k * (x div k) + k"
  using mult_div_mod_eq [of k x] pos_mod_bound [of k x] pos_mod_sign [of k x] by linarith

lemma div_eqI: "0 < (k::int) \<Longrightarrow> k * q \<le> x \<Longrightarrow> x < k * q + k \<Longrightarrow> x div k = q"
  using int_div_pos_eq [of x k q "x - k * q"] by simp

lemma days_before_year_cycles:
  assumes "0 \<le> b" "b \<le> 3" "0 \<le> c" "c \<le> 24" "0 \<le> d" "d \<le> 3"
  shows "days_before_year (400 * a + 100 * b + 4 * c + d + 1)
    = 146097 * a + 36524 * b + 1461 * c + 365 * d"
proof -
  have "(400 * a + 100 * b + 4 * c + d) div 4 = 100 * a + 25 * b + c"
    by (rule div_eqI) (use assms in \<open>simp_all add: algebra_simps\<close>)
  moreover have "(400 * a + 100 * b + 4 * c + d) div 100 = 4 * a + b"
    by (rule div_eqI) (use assms in \<open>simp_all add: algebra_simps\<close>)
  moreover have "(400 * a + 100 * b + 4 * c + d) div 400 = a"
    by (rule div_eqI) (use assms in \<open>simp_all add: algebra_simps\<close>)
  ultimately show ?thesis by (simp add: days_before_year_def)
qed

lemma days_before_year_next:
  assumes "0 \<le> b" "b \<le> 3" "0 \<le> c" "c \<le> 24" "0 \<le> d" "d \<le> 3"
  shows "days_before_year (400 * a + 100 * b + 4 * c + d + 1 + 1)
    = 146097 * a + 36524 * b + 1461 * c + 365 * d + 365
      + (if d = 3 \<and> (c < 24 \<or> b = 3) then 1 else 0)"
proof (cases "d = 3")
  case False
  with assms days_before_year_cycles [of b c "d + 1" a] show ?thesis by (simp add: add.assoc)
next
  case d: True
  show ?thesis
  proof (cases "c < 24")
    case True
    with d assms days_before_year_cycles [of b "c + 1" 0 a] show ?thesis by simp
  next
    case c: False
    show ?thesis
    proof (cases "b = 3")
      case True
      with c d assms days_before_year_cycles [of 0 0 0 "a + 1"] show ?thesis by simp
    next
      case False
      with c d assms days_before_year_cycles [of "b + 1" 0 0 a] show ?thesis by simp
    qed
  qed
qed

lemma capped_div:
  assumes "0 < (k::int)" "0 \<le> x"
  shows "0 \<le> min 3 (x div k)" "min 3 (x div k) \<le> 3" "k * min 3 (x div k) \<le> x"
    "min 3 (x div k) < 3 \<longrightarrow> x < k * min 3 (x div k) + k"
proof -
  have q: "0 \<le> x div k" "k * (x div k) \<le> x" "x < k * (x div k) + k"
    using assms div_bounds [of k x] by (simp_all add: pos_imp_zdiv_nonneg_iff)
  have le: "k * min 3 (x div k) \<le> k * (x div k)" using assms(1) by (intro mult_left_mono) simp_all
  show "0 \<le> min 3 (x div k)" "min 3 (x div k) \<le> 3" using q(1) by simp_all
  show "k * min 3 (x div k) \<le> x" using le q(2) by linarith
  show "min 3 (x div k) < 3 \<longrightarrow> x < k * min 3 (x div k) + k"
    using q(3) by (simp add: min_def)
qed

lemma year_of_bracket:
  assumes "0 \<le> n"
  shows "days_before_year (year_of n) \<le> n \<and> n < days_before_year (year_of n + 1)
    \<and> n < days_before_year (year_of n) + 366 \<and> 1 \<le> year_of n"
proof -
  define a r where "a = n div 146097" and "r = n mod 146097"
  define b where "b = min 3 (r div 36524)"
  define r2 where "r2 = r - 36524 * b"
  define c r3 where "c = r2 div 1461" and "r3 = r2 mod 1461"
  define d where "d = min 3 (r3 div 365)"
  have y: "year_of n = 400 * a + 100 * b + 4 * c + d + 1"
    by (simp only: year_of_def Let_def a_def r_def b_def r2_def c_def r3_def d_def)
  have n: "n = 146097 * a + r" "0 \<le> a" and r: "0 \<le> r" "r < 146097"
    using assms mult_div_mod_eq [of 146097 n] by (simp_all add: a_def r_def pos_imp_zdiv_nonneg_iff)
  have k: "0 < (36524::int)" "0 < (1461::int)" "0 < (365::int)" by simp_all
  note cb = capped_div [OF k(1) r(1), folded b_def]
  have r2: "r = 36524 * b + r2" by (simp add: r2_def)
  then have b: "0 \<le> b" "b \<le> 3" "0 \<le> r2" "b < 3 \<longrightarrow> r2 < 36524" "r2 \<le> 36524"
    using cb r by linarith+
  have c3: "r2 = 1461 * c + r3" "0 \<le> r3" "r3 < 1461"
    using mult_div_mod_eq [of 1461 r2] pos_mod_bound [OF k(2), of r2] pos_mod_sign [OF k(2), of r2]
    by (simp_all only: c_def [symmetric] r3_def [symmetric])
  have c: "0 \<le> c" "c \<le> 24" "r2 = 1461 * c + r3" "0 \<le> r3" "r3 < 1461"
    using b c3 by linarith+
  note cd = capped_div [OF k(3) c(4), folded d_def]
  have d: "0 \<le> d" "d \<le> 3" "365 * d \<le> r3" "d < 3 \<longrightarrow> r3 < 365 * d + 365" "r3 \<le> 365 * d + 365"
    using cd c(5) by linarith+
  have r': "r = 36524 * b + 1461 * c + r3" using c(3) by (simp add: r2_def)
  have start: "days_before_year (year_of n) = 146097 * a + 36524 * b + 1461 * c + 365 * d"
    unfolding y by (rule days_before_year_cycles) (rule b c d)+
  have "next": "days_before_year (year_of n + 1) = 146097 * a + 36524 * b + 1461 * c + 365 * d + 365
      + (if d = 3 \<and> (c < 24 \<or> b = 3) then 1 else 0)"
    unfolding y by (rule days_before_year_next) (rule b c d)+
  have low: "days_before_year (year_of n) \<le> n" using start n(1) r' d(3) by linarith
  have leap: "n < days_before_year (year_of n) + 366" using start n(1) r' d(5) by linarith
  have up: "n < days_before_year (year_of n + 1)"
  proof (cases "d = 3 \<and> (c < 24 \<or> b = 3)")
    case True
    with "next" n(1) r' d(5) show ?thesis by simp
  next
    case False
    have "r3 < 365 * d + 365"
    proof (cases "d = 3")
      case True
      with False b(4) c(2,3) b(2) show ?thesis by linarith
    next
      case False
      with d show ?thesis by linarith
    qed
    with False "next" n(1) r' show ?thesis by simp
  qed
  have "1 \<le> year_of n" using y n(2) b(1) c(1) d(1) by linarith
  with low up leap show ?thesis by simp
qed

lemma days_before_year_mono: "x \<le> y \<Longrightarrow> days_before_year x \<le> days_before_year y"
  using zdiv_mono1 [of "x - 1" "y - 1" 4] zdiv_mono1 [of "x - 1" "y - 1" 400]
    div_bounds [of 100 "x - 1"] div_bounds [of 100 "y - 1"]
  unfolding days_before_year_def by (cases "x = y") auto

lemma year_of_mono:
  assumes "0 \<le> m" "m \<le> n"
  shows "year_of m \<le> year_of n"
proof (rule ccontr)
  assume "\<not> year_of m \<le> year_of n"
  then have "days_before_year (year_of n + 1) \<le> days_before_year (year_of m)"
    by (intro days_before_year_mono) simp
  with year_of_bracket [of m] year_of_bracket [of n] assms show False by linarith
qed

lemma day_of_year_range:
  assumes "0 \<le> n"
  shows "0 \<le> day_of_year n \<and> day_of_year n < 366"
  using year_of_bracket [OF assms] unfolding day_of_year_def by linarith

lemma successively_head_least:
  fixes s :: int
  shows "successively (\<lambda>a b. a < b \<and> b \<le> a + g) (s # ms) \<Longrightarrow> r \<in> set ms \<Longrightarrow> s < r"
  by (induction ms arbitrary: s) fastforce+

lemma last_start_gap:
  fixes k :: int
  assumes "successively (\<lambda>a b. a < b \<and> b \<le> a + g) (p # ms)" "p \<le> k" "k < last (p # ms) + g"
  shows "0 \<le> k - last (p # filter (\<lambda>s. s \<le> k) ms) \<and> k - last (p # filter (\<lambda>s. s \<le> k) ms) < g"
  using assms
proof (induction ms arbitrary: p)
  case (Cons s ms)
  show ?case
  proof (cases "s \<le> k")
    case True
    with Cons.IH [of s] Cons.prems show ?thesis by simp
  next
    case False
    have "s < r" if "r \<in> set ms" for r
      by (rule successively_head_least [where g = g, OF _ that]) (use Cons.prems(1) in simp)
    with False have "filter (\<lambda>s. s \<le> k) (s # ms) = []" by (force simp: filter_empty_conv)
    with False Cons.prems show ?thesis by simp
  qed
qed simp

lemma month_day_range:
  assumes "0 \<le> n"
  shows "1 \<le> month_of n" "month_of n \<le> 12" "1 \<le> day_of_month n" "day_of_month n < 100"
proof -
  have "length (starts_upto n) \<le> length (month_starts (leap (year_of n)))"
    unfolding starts_upto_def by (rule length_filter_le)
  also have "\<dots> = 11" by (simp add: month_starts_def)
  finally show "1 \<le> month_of n" "month_of n \<le> 12" by (simp_all add: month_of_def)
  let ?ms = "month_starts (leap (year_of n))"
  have "successively (\<lambda>a b. a < b \<and> b \<le> a + 32) (0 # ?ms)" "334 \<le> last (0 # ?ms)"
    by (simp_all add: month_starts_def)
  then have "0 \<le> day_of_year n - last (0 # starts_upto n) \<and> day_of_year n - last (0 # starts_upto n) < 32"
    using day_of_year_range [OF assms] unfolding starts_upto_def by (intro last_start_gap) simp_all
  then show "1 \<le> day_of_month n" "day_of_month n < 100"
    by (auto simp: day_of_month_def split: if_splits)
qed

lemma length_filter_mono: "(\<And>x. P x \<Longrightarrow> Q x) \<Longrightarrow> length (filter P xs) \<le> length (filter Q xs)"
  by (induction xs) auto

lemma filter_same_length:
  "(\<And>x. P x \<Longrightarrow> Q x) \<Longrightarrow> length (filter P xs) = length (filter Q xs) \<Longrightarrow> filter P xs = filter Q xs"
proof (induction xs)
  case (Cons x xs)
  have "length (filter P xs) \<le> length (filter Q xs)" by (rule length_filter_mono) (rule Cons.prems)
  with Cons show ?case by (auto split: if_splits)
qed simp

text \<open>Later days have lexicographically later dates.\<close>

lemma date_strict_mono:
  assumes "0 \<le> m" "m < n"
  shows "year_of m < year_of n \<or> year_of m = year_of n \<and>
    (month_of m < month_of n \<or> month_of m = month_of n \<and> day_of_month m < day_of_month n)"
proof (cases "year_of m = year_of n")
  case True
  then have doy: "day_of_year m < day_of_year n" using assms by (simp add: day_of_year_def)
  have "length (starts_upto m) \<le> length (starts_upto n)"
    unfolding starts_upto_def True by (rule length_filter_mono) (use doy in linarith)
  moreover have "day_of_month m < day_of_month n" if "length (starts_upto m) = length (starts_upto n)"
  proof -
    have "starts_upto m = starts_upto n"
      using that unfolding starts_upto_def True by (rule filter_same_length [rotated]) (use doy in linarith)
    with doy show ?thesis by (simp add: day_of_month_def)
  qed
  ultimately show ?thesis using True by (auto simp: month_of_def)
next
  case False
  with year_of_mono [of m n] assms show ?thesis by linarith
qed

lemma date_lex:
  assumes "0 \<le> m" "0 \<le> n"
  shows "(year_of m < year_of n \<or> year_of m = year_of n \<and>
      (month_of m < month_of n \<or> month_of m = month_of n \<and>
        (day_of_month m < day_of_month n \<or> day_of_month m = day_of_month n \<and> R)))
    \<longleftrightarrow> m < n \<or> m = n \<and> R"
proof (cases m n rule: linorder_cases)
  case less
  with date_strict_mono [OF assms(1) less] show ?thesis by auto
next
  case greater
  with date_strict_mono [OF assms(2) greater] show ?thesis by auto
qed simp

lemma div_mod_strict_mono:
  assumes "0 < (k::int)" "i < j"
  shows "i div k < j div k \<or> i div k = j div k \<and> i mod k < j mod k"
proof -
  have "i div k \<le> j div k" using assms by (intro zdiv_mono1) simp_all
  moreover have "i mod k < j mod k" if "i div k = j div k"
  proof -
    have "k * (i div k) = k * (j div k)" using that by simp
    with assms(2) mult_div_mod_eq [of k i] mult_div_mod_eq [of k j] show ?thesis by linarith
  qed
  ultimately show ?thesis by linarith
qed

lemma div_mod_split:
  assumes "0 < (k::int)"
  shows "(i div k < j div k \<or> i div k = j div k \<and> (i mod k < j mod k \<or> i mod k = j mod k \<and> R))
    \<longleftrightarrow> i < j \<or> i = j \<and> R"
proof (cases i j rule: linorder_cases)
  case less
  with div_mod_strict_mono [OF assms less] show ?thesis by auto
next
  case greater
  with div_mod_strict_mono [OF assms greater] show ?thesis by auto
qed simp

lemma div_mod_lex:
  "0 < (k::int) \<Longrightarrow> a \<le> b \<longleftrightarrow> a div k < b div k \<or> a div k = b div k \<and> a mod k \<le> b mod k"
  using div_mod_split [of k a b True] by (simp add: le_less)

lemma digit_order:
  "list_all (\<lambda>i. list_all (\<lambda>j. (of_char (digit_char i) < (of_char (digit_char j) :: nat)) = (i < j)
      \<and> (digit_char i = digit_char j) = (i = j)) [0,1,2,3,4,5,6,7,8,9]) [0,1,2,3,4,5,6,7,8,9]"
  by code_simp

lemma digit_of_order:
  "(of_char (digit_of i) < (of_char (digit_of j) :: nat)) = (i mod 10 < j mod 10)"
  "(digit_of i = digit_of j) = (i mod 10 = j mod 10)"
proof -
  have mem: "nat (k mod 10) \<in> set [0,1,2,3,4,5,6,7,8,9]" for k :: int
  proof -
    have "0 \<le> k mod 10" "k mod 10 < 10" by simp_all
    then have "nat (k mod 10) < 10" by linarith
    from less_10_cases [OF this] show ?thesis by simp
  qed
  have "(of_char (digit_of i) < (of_char (digit_of j) :: nat)) = (nat (i mod 10) < nat (j mod 10))
     \<and> (digit_of i = digit_of j) = (nat (i mod 10) = nat (j mod 10))"
    using digit_order mem [of i] mem [of j] unfolding list_all_iff digit_of_def by blast
  moreover have "(nat (i mod 10) < nat (j mod 10)) = (i mod 10 < j mod 10)"
    by (rule nat_less_eq_zless) simp
  moreover have "(nat (i mod 10) = nat (j mod 10)) = (i mod 10 = j mod 10)"
    by (rule eq_nat_nat_iff) simp_all
  ultimately show "(of_char (digit_of i) < (of_char (digit_of j) :: nat)) = (i mod 10 < j mod 10)"
    "(digit_of i = digit_of j) = (i mod 10 = j mod 10)" by (simp_all only:)
qed

lemma pad2_order:
  assumes "0 \<le> i" "i < 100" "0 \<le> j" "j < 100"
  shows "text_le (pad2 i @ x) (pad2 j @ y) \<longleftrightarrow> i < j \<or> i = j \<and> text_le x y"
proof -
  have "i div 10 mod 10 = i div 10" "j div 10 mod 10 = j div 10"
    using assms by (simp_all add: pos_imp_zdiv_nonneg_iff div_less_iff_less_mult)
  then have "text_le (pad2 i @ x) (pad2 j @ y) \<longleftrightarrow>
      i div 10 < j div 10 \<or> i div 10 = j div 10 \<and> (i mod 10 < j mod 10 \<or> i mod 10 = j mod 10 \<and> text_le x y)"
    by (simp add: pad2_def digit_of_order)
  also have "\<dots> \<longleftrightarrow> i < j \<or> i = j \<and> text_le x y" by (rule div_mod_split) simp
  finally show ?thesis .
qed

lemma pad2_mod: "pad2 (i mod 100) = pad2 i"
proof -
  have "i mod 100 = 10 * (i div 10 mod 10) + i mod 10"
    using zmod_zmult2_eq [of 10 i 10] by simp
  then have "i mod 100 div 10 = i div 10 mod 10" by (intro div_eqI) simp_all
  moreover have "i mod 100 mod 10 = i mod 10" by (simp add: mod_mod_cancel)
  ultimately have "i mod 100 div 10 mod 10 = i div 10 mod 10" "i mod 100 mod 10 = i mod 10"
    by simp_all
  then show ?thesis by (simp add: pad2_def digit_of_def)
qed

lemma pad4_order:
  assumes "0 \<le> i" "i < 10000" "0 \<le> j" "j < 10000"
  shows "text_le (pad4 i @ x) (pad4 j @ y) \<longleftrightarrow> i < j \<or> i = j \<and> text_le x y"
proof -
  have "text_le (pad4 i @ x) (pad4 j @ y) \<longleftrightarrow>
      i div 100 < j div 100 \<or> i div 100 = j div 100 \<and>
        (i mod 100 < j mod 100 \<or> i mod 100 = j mod 100 \<and> text_le x y)"
    using assms pad2_order [of "i mod 100" "j mod 100" x y]
      pad2_order [of "i div 100" "j div 100" "pad2 i @ x" "pad2 j @ y"]
    by (simp add: pad4_def pad2_mod)
  also have "\<dots> \<longleftrightarrow> i < j \<or> i = j \<and> text_le x y" by (rule div_mod_split) simp
  finally show ?thesis .
qed

lemma pad6_order:
  assumes "0 \<le> i" "i < 1000000" "0 \<le> j" "j < 1000000"
  shows "text_le (pad6 i @ x) (pad6 j @ y) \<longleftrightarrow> i < j \<or> i = j \<and> text_le x y"
proof -
  have "text_le (pad6 i @ x) (pad6 j @ y) \<longleftrightarrow>
      i div 100 < j div 100 \<or> i div 100 = j div 100 \<and>
        (i mod 100 < j mod 100 \<or> i mod 100 = j mod 100 \<and> text_le x y)"
    using assms pad2_order [of "i mod 100" "j mod 100" x y]
      pad4_order [of "i div 100" "j div 100" "pad2 i @ x" "pad2 j @ y"]
    by (simp add: pad6_def pad2_mod)
  also have "\<dots> \<longleftrightarrow> i < j \<or> i = j \<and> text_le x y" by (rule div_mod_split) simp
  finally show ?thesis .
qed

lemma text_le_refl [simp]: "text_le x x"
  by (induction x) auto

text \<open>A whole second has no fraction: its text goes on with a plus sign, which sorts before the
  dot of a fraction.\<close>

lemma iso_fraction_order:
  assumes "0 \<le> i" "i < 1000000" "0 \<le> j" "j < 1000000"
  shows "text_le (iso_fraction i) (iso_fraction j) \<longleftrightarrow> i \<le> j"
  using assms pad6_order [OF assms, of "''+00:00''" "''+00:00''"]
  by (auto simp: iso_fraction_def dot_def)

definition max_instant :: instant where
  "max_instant = days 3652059"

lemma year_of_max: "0 \<le> n \<Longrightarrow> n < 3652059 \<Longrightarrow> year_of n < 10000"
proof -
  assume "0 \<le> n" "n < 3652059"
  moreover have "year_of 3652058 = 9999" by code_simp
  ultimately show ?thesis using year_of_mono [of n 3652058] by simp
qed

lemma iso_date_order:
  assumes "0 \<le> m" "m < 3652059" "0 \<le> n" "n < 3652059"
  shows "text_le (iso_date m @ x) (iso_date n @ y) \<longleftrightarrow> m < n \<or> m = n \<and> text_le x y"
  using assms month_day_range [of m] month_day_range [of n] year_of_bracket [of m]
    year_of_bracket [of n] year_of_max [of m] year_of_max [of n]
    date_lex [of m n "text_le x y"]
  by (simp add: iso_date_def pad2_order pad4_order)

lemma time_fields_order:
  assumes "0 \<le> h" "h < 100" "0 \<le> h'" "h' < 100" "0 \<le> m" "m < 100" "0 \<le> m'" "m' < 100"
    and "0 \<le> s" "s < 100" "0 \<le> s'" "s' < 100" "0 \<le> f" "f < 1000000" "0 \<le> f'" "f' < 1000000"
  shows "text_le (pad2 h @ '':'' @ pad2 m @ '':'' @ pad2 s @ iso_fraction f)
                 (pad2 h' @ '':'' @ pad2 m' @ '':'' @ pad2 s' @ iso_fraction f')
    \<longleftrightarrow> h < h' \<or> h = h' \<and> (m < m' \<or> m = m' \<and> (s < s' \<or> s = s' \<and> f \<le> f'))"
  using assms by (simp add: pad2_order iso_fraction_order)

lemma div_range:
  assumes "0 < (k::int)" "0 \<le> x" "x < k * n"
  shows "0 \<le> x div k \<and> x div k < n"
proof -
  have "k * (x div k) < k * n" using div_bounds [OF assms(1), of x] assms(3) by linarith
  then show ?thesis using assms by (simp add: pos_imp_zdiv_nonneg_iff)
qed

lemma time_range:
  fixes u :: int
  assumes "0 \<le> u" "u < day_us"
  shows "0 \<le> u div 3600000000 \<and> u div 3600000000 < 100"
    "0 \<le> u mod 3600000000 div 60000000 \<and> u mod 3600000000 div 60000000 < 100"
    "0 \<le> u mod 60000000 div 1000000 \<and> u mod 60000000 div 1000000 < 100"
proof -
  show "0 \<le> u div 3600000000 \<and> u div 3600000000 < 100"
    by (rule div_range) (use assms in \<open>simp_all add: day_us_def\<close>)
  have "u mod 3600000000 < 3600000000" by (rule pos_mod_bound) simp
  then show "0 \<le> u mod 3600000000 div 60000000 \<and> u mod 3600000000 div 60000000 < 100"
    by (intro div_range) simp_all
  have "u mod 60000000 < 60000000" by (rule pos_mod_bound) simp
  then show "0 \<le> u mod 60000000 div 1000000 \<and> u mod 60000000 div 1000000 < 100"
    by (intro div_range) simp_all
qed

lemma time_lex:
  fixes a b :: int
  shows "a \<le> b \<longleftrightarrow> a div 3600000000 < b div 3600000000 \<or> a div 3600000000 = b div 3600000000 \<and>
      (a mod 3600000000 div 60000000 < b mod 3600000000 div 60000000 \<or>
       a mod 3600000000 div 60000000 = b mod 3600000000 div 60000000 \<and>
       (a mod 60000000 div 1000000 < b mod 60000000 div 1000000 \<or>
        a mod 60000000 div 1000000 = b mod 60000000 div 1000000 \<and> a mod 1000000 \<le> b mod 1000000))"
proof -
  have m1: "x mod 3600000000 mod 60000000 = x mod 60000000" for x :: int
    by (rule mod_mod_cancel) simp
  have m2: "x mod 60000000 mod 1000000 = x mod 1000000" for x :: int
    by (rule mod_mod_cancel) simp
  have k: "0 < (3600000000::int)" "0 < (60000000::int)" "0 < (1000000::int)" by simp_all
  note h = div_mod_lex [OF k(1), of a b]
    and m = div_mod_lex [OF k(2), of "a mod 3600000000" "b mod 3600000000", unfolded m1]
    and s = div_mod_lex [OF k(3), of "a mod 60000000" "b mod 60000000", unfolded m2]
  show ?thesis by (subst h, subst m, subst s) (rule refl)
qed

lemma isoformat_order_lemma:
  assumes "0 \<le> t" "t < max_instant" "0 \<le> u" "u < max_instant"
  shows "text_le (isoformat t) (isoformat u) \<longleftrightarrow> t \<le> u"
proof -
  have k: "0 < day_us" by (simp add: day_us_def)
  have d: "0 \<le> t div day_us \<and> t div day_us < 3652059" "0 \<le> u div day_us \<and> u div day_us < 3652059"
    by (rule div_range [OF k]; use assms in \<open>simp add: max_instant_def days_def mult.commute\<close>)+
  define a b where "a = t mod day_us" and "b = u mod day_us"
  have ab: "0 \<le> a" "a < day_us" "0 \<le> b" "b < day_us"
    using k by (simp_all add: a_def b_def)
  have f: "0 \<le> a mod 1000000" "a mod 1000000 < 1000000" "0 \<le> b mod 1000000" "b mod 1000000 < 1000000"
    by simp_all
  note ra = time_range [OF ab(1,2)] and rb = time_range [OF ab(3,4)]
  define x y where
    "x = pad2 (a div 3600000000) @ '':'' @ pad2 (a mod 3600000000 div 60000000)
       @ '':'' @ pad2 (a mod 60000000 div 1000000) @ iso_fraction (a mod 1000000)" and
    "y = pad2 (b div 3600000000) @ '':'' @ pad2 (b mod 3600000000 div 60000000)
       @ '':'' @ pad2 (b mod 60000000 div 1000000) @ iso_fraction (b mod 1000000)"
  have xy: "text_le x y \<longleftrightarrow> a \<le> b"
    unfolding x_def y_def time_lex [of a b]
    by (rule time_fields_order) (use ra rb f in \<open>blast+\<close>)
  have "isoformat t = iso_date (t div day_us) @ ''T'' @ x" "isoformat u = iso_date (u div day_us) @ ''T'' @ y"
    by (simp_all only: isoformat_def Let_def a_def [symmetric] b_def [symmetric] x_def y_def)
  moreover have "text_le (''T'' @ x) (''T'' @ y) \<longleftrightarrow> text_le x y" by simp
  ultimately have "text_le (isoformat t) (isoformat u) \<longleftrightarrow>
      t div day_us < u div day_us \<or> t div day_us = u div day_us \<and> a \<le> b"
    using iso_date_order d xy by (simp only:)
  also have "\<dots> \<longleftrightarrow> t \<le> u"
    unfolding a_def b_def by (rule div_mod_lex [OF k, symmetric])
  finally show ?thesis .
qed

section \<open>Properties\<close>

text \<open>The text the database stores for an instant sorts, byte by byte, exactly as the instants
  do, also between whole seconds (which have no fraction) and fractions: a query that compares
  stored timestamps with a cutoff selects by time.\<close>
theorem isoformat_order:
  assumes "0 \<le> t" "t < max_instant" "0 \<le> u" "u < max_instant"
  shows "text_le (isoformat t) (isoformat u) \<longleftrightarrow> t \<le> u"
  by (rule isoformat_order_lemma [OF assms])

theorem isoformat_order_witness:
  "isoformat (days 738944) = ''2024-02-29T00:00:00+00:00''
   \<and> text_le (isoformat (days 738943)) (isoformat (days 738944))"
proof -
  have "isoformat (days 738944) = ''2024-02-29T00:00:00+00:00''" by code_simp
  moreover have "text_le (isoformat (days 738943)) (isoformat (days 738944)) \<longleftrightarrow> days 738943 \<le> days 738944"
    by (rule isoformat_order) (simp_all add: days_def day_us_def max_instant_def)
  ultimately show ?thesis by (simp add: days_def day_us_def)
qed

end
