(* ===== verification/Markets.thy ===== *)
theory Markets
  imports Symbols Clock
begin

text \<open>
  \<open>app/core/markets.py\<close>: the exchange tables, the trading state of an exchange at a moment with its
  next transition, the next regular close, and the closures in a range of dates. The calendar of
  an exchange (sessions, breaks, holidays, time zone) comes from \<open>exchange_calendars\<close> and
  \<open>zoneinfo\<close>; it is the record \<open>Calendar\<close>, an argument of every operation. Dates are day numbers.
\<close>

definition IB_EXCHANGE_TO_MIC :: "(string, string) dict" where
  "IB_EXCHANGE_TO_MIC = [
     (''SEHK'', ''XHKG''), (''SEHKNTL'', ''XHKG''), (''SEHKSZSE'', ''XHKG''), (''TSEJ'', ''XTKS''),
     (''TSE'', ''XTKS''), (''OSE'', ''XTKS''), (''KRX'', ''XKRX''), (''KSE'', ''XKRX''),
     (''KOSDAQ'', ''XKRX''), (''TWSE'', ''XTAI''), (''TPEX'', ''XTAI''), (''SSE'', ''XSHG''),
     (''SZSE'', ''XSHG''), (''SGX'', ''XSES''), (''ASX'', ''XASX''), (''LSE'', ''XLON''),
     (''IOB'', ''XLON''), (''IBIS'', ''XETR''), (''FWB'', ''XETR''), (''SBF'', ''XPAR''),
     (''AEB'', ''XAMS''), (''BM'', ''XMAD''), (''BVME'', ''XMIL''), (''SFB'', ''XSTO''),
     (''EBS'', ''XSWX''), (''SIX'', ''XSWX''), (''TSX'', ''XTSE''), (''NYSE'', ''XNYS''),
     (''NASDAQ'', ''XNYS''), (''ARCA'', ''XNYS''), (''AMEX'', ''XNYS''), (''BATS'', ''XNYS'')]"

definition mic_for_ib_exchange :: "string \<Rightarrow> string option" where
  "mic_for_ib_exchange e = map_of IB_EXCHANGE_TO_MIC e"

definition IB_EXCHANGE_TO_DISPLAY :: "(string, string) dict" where
  "IB_EXCHANGE_TO_DISPLAY = [
     (''SEHK'', ''HKEX''), (''SEHKNTL'', ''HKEX''), (''SEHKSZSE'', ''HKEX''),
     (''TSEJ'', ''TSE''), (''OSE'', ''OSE''), (''KSE'', ''KRX''),
     (''IBIS'', ''Xetra''), (''FWB'', ''Xetra''), (''SBF'', ''Euronext''),
     (''AEB'', ''Euronext''), (''BM'', ''BME Madrid''), (''BVME'', ''Borsa Italiana''),
     (''SFB'', ''Stockholm''), (''EBS'', ''SIX Swiss''), (''SIX'', ''SIX Swiss''),
     (''TPEX'', ''TPEx'')]"

definition display_name_for_ib_exchange :: "string \<Rightarrow> string" where
  "display_name_for_ib_exchange e =
     (case map_of IB_EXCHANGE_TO_DISPLAY e of None \<Rightarrow> e | Some n \<Rightarrow> n)"

definition US_EXTENDED_EXCHANGES :: "string list" where
  "US_EXTENDED_EXCHANGES = [''NYSE'', ''NASDAQ'', ''ARCA'', ''AMEX'', ''BATS'']"

definition IB_EXCHANGE_TO_REGION_COLOR :: "(string, string) dict" where
  "IB_EXCHANGE_TO_REGION_COLOR = [
     (''SEHK'', ''#ef4444''), (''SEHKNTL'', ''#ef4444''), (''SEHKSZSE'', ''#ef4444''),
     (''TWSE'', ''#10b981''), (''TPEX'', ''#10b981''), (''SSE'', ''#a855f7''),
     (''SZSE'', ''#a855f7''), (''TSEJ'', ''#f59e0b''), (''TSE'', ''#f59e0b''),
     (''OSE'', ''#f59e0b''), (''KRX'', ''#fb7185''), (''KSE'', ''#fb7185''),
     (''KOSDAQ'', ''#fb7185''), (''SGX'', ''#22d3ee''), (''ASX'', ''#84cc16''),
     (''LSE'', ''#94a3b8''), (''IOB'', ''#94a3b8''), (''IBIS'', ''#a78bfa''),
     (''FWB'', ''#a78bfa''), (''SBF'', ''#a78bfa''), (''AEB'', ''#a78bfa''),
     (''BM'', ''#a78bfa''), (''BVME'', ''#a78bfa''), (''SFB'', ''#a78bfa''),
     (''EBS'', ''#a78bfa''), (''SIX'', ''#a78bfa''), (''NYSE'', ''#3b82f6''),
     (''NASDAQ'', ''#3b82f6''), (''ARCA'', ''#3b82f6''), (''AMEX'', ''#3b82f6''),
     (''BATS'', ''#3b82f6''), (''TSX'', ''#fb923c'')]"

definition region_color_for_exchange :: "string option \<Rightarrow> string" where
  "region_color_for_exchange e =
     (case e of
        None \<Rightarrow> ''transparent''
      | Some x \<Rightarrow> if x = [] then ''transparent''
          else (case map_of IB_EXCHANGE_TO_REGION_COLOR x of None \<Rightarrow> ''transparent'' | Some c \<Rightarrow> c))"

definition MIC_TO_TZ_LABEL :: "(string, string) dict" where
  "MIC_TO_TZ_LABEL = [
     (''XHKG'', ''HKT''), (''XTKS'', ''JST''), (''XKRX'', ''KST''), (''XTAI'', ''TST''),
     (''XSHG'', ''CST''), (''XSES'', ''SGT''), (''XASX'', ''AEST''), (''XLON'', ''GMT''),
     (''XETR'', ''CET''), (''XPAR'', ''CET''), (''XAMS'', ''CET''), (''XMAD'', ''CET''),
     (''XMIL'', ''CET''), (''XSTO'', ''CET''), (''XSWX'', ''CET''), (''XNYS'', ''ET''),
     (''XTSE'', ''ET'')]"

datatype MarketState = OPEN | EXTENDED | LUNCH | CLOSED | HOLIDAY

definition STATE_LABEL :: "(MarketState, string) dict" where
  "STATE_LABEL = [(OPEN, ''Open''), (EXTENDED, ''Pre/post''), (LUNCH, ''Lunch''),
     (CLOSED, ''Closed''), (HOLIDAY, ''Holiday'')]"

datatype ExtendedSession = PRE | POST

record MarketStatus =
  ms_exchange :: string
  ms_state :: MarketState
  ms_extended_session :: "ExtendedSession option"
  ms_next_transition_local :: string
  ms_next_transition_iso :: string
  ms_next_transition_label :: string

datatype ClosureKind = HolidayClosure | EarlyClose

record ExchangeClosure =
  ec_date :: int
  ec_kind :: ClosureKind
  ec_close_local :: "string option"

section \<open>Calendars\<close>

text \<open>
  One row of \<open>cal.schedule\<close>, labelled by its local date. \<open>cal_format\<close> is the local time of an
  instant as \<open>%H:%M\<close> and \<open>%Z\<close>; \<open>cal_early_closes\<close> is \<open>None\<close> when the library has no such attribute.
\<close>

record Session =
  ses_date :: int
  ses_open :: instant
  ses_close :: instant
  ses_break_start :: "instant option"
  ses_break_end :: "instant option"

record Calendar =
  cal_schedule :: "Session list"
  cal_local_date :: "instant \<Rightarrow> int"
  cal_format :: "instant \<Rightarrow> (string \<times> string) result"
  cal_is_session :: "int \<Rightarrow> bool result"
  cal_early_closes :: "int list option"

definition format_local :: "Calendar \<Rightarrow> string \<Rightarrow> instant \<Rightarrow> string result" where
  "format_local cal mic t =
     (case cal_format cal t of
        Inl (AttributeError m) \<Rightarrow> Inr []
      | Inl (ValueError m) \<Rightarrow> Inr []
      | Inl TypeError \<Rightarrow> Inr []
      | Inl e \<Rightarrow> Inl e
      | Inr (hm, z) \<Rightarrow>
          (case map_of MIC_TO_TZ_LABEL mic of
             Some label \<Rightarrow> if label \<noteq> [] then Inr (hm @ '' '' @ label) else Inr (py_strip (hm @ '' '' @ z))
           | None \<Rightarrow> Inr (py_strip (hm @ '' '' @ z))))"

definition session_of :: "Calendar \<Rightarrow> int \<Rightarrow> Session option" where
  "session_of cal d = find (\<lambda>s. ses_date s = d) (cal_schedule cal)"

definition previous_session_close :: "Calendar \<Rightarrow> int \<Rightarrow> instant option" where
  "previous_session_close cal today =
     (case rev (filter (\<lambda>s. ses_date s < today) (cal_schedule cal)) of
        [] \<Rightarrow> None
      | s # ss \<Rightarrow> Some (ses_close s))"

definition next_session_open :: "Calendar \<Rightarrow> int \<Rightarrow> instant option" where
  "next_session_open cal today =
     (let future = filter (\<lambda>s. today \<le> ses_date s) (cal_schedule cal);
          rest = (case future of [] \<Rightarrow> [] | s # ss \<Rightarrow> if ses_date s = today then ss else future)
      in case rest of [] \<Rightarrow> None | s # ss \<Rightarrow> Some (ses_open s))"

definition next_close_at :: "(string \<Rightarrow> Calendar) \<Rightarrow> instant \<Rightarrow> string \<Rightarrow> instant option" where
  "next_close_at cal_of now e =
     (case mic_for_ib_exchange e of
        None \<Rightarrow> None
      | Some mic \<Rightarrow>
          (let cal = cal_of mic;
               start = cal_local_date cal now;
               window = filter (\<lambda>s. start \<le> ses_date s \<and> ses_date s \<le> start + 21) (cal_schedule cal)
           in map_option ses_close (find (\<lambda>s. now < ses_close s) window)))"

text \<open>One date of \<open>closures_in_range\<close>: the closures it adds, or the error that leaves the loop.\<close>

definition closures_on :: "Calendar \<Rightarrow> string \<Rightarrow> int \<Rightarrow> ExchangeClosure list result" where
  "closures_on cal mic d =
     (if 5 \<le> d mod 7 then Inr []
      else rbind (case cal_is_session cal d of
                    Inl (ValueError m) \<Rightarrow> Inr False
                  | Inl KeyError \<Rightarrow> Inr False
                  | r \<Rightarrow> r) (\<lambda>in_session.
        if \<not> in_session then Inr [\<lparr>ec_date = d, ec_kind = HolidayClosure, ec_close_local = None\<rparr>]
        else if d \<in> set (case cal_early_closes cal of None \<Rightarrow> [] | Some ds \<Rightarrow> ds) then
          (case session_of cal d of
             None \<Rightarrow> Inr []
           | Some s \<Rightarrow> rbind (format_local cal mic (ses_close s)) (\<lambda>text.
               Inr [\<lparr>ec_date = d, ec_kind = EarlyClose, ec_close_local = Some text\<rparr>]))
        else Inr []))"

definition closures_in_range ::
    "(string \<Rightarrow> Calendar) \<Rightarrow> string \<Rightarrow> int \<Rightarrow> int \<Rightarrow> ExchangeClosure list result" where
  "closures_in_range cal_of e start last_day =
     (case mic_for_ib_exchange e of
        None \<Rightarrow> Inr []
      | Some mic \<Rightarrow>
          rbind (rmap_list (closures_on (cal_of mic) mic) [start..last_day]) (\<lambda>css. Inr (concat css)))"

section \<open>The trading state\<close>

text \<open>
  The decision of \<open>status\<close>: the state, the moment of the next transition, its label and the
  extended session. \<open>us\<close> is whether the exchange has pre- and post-market sessions.
\<close>

record Decision =
  d_state :: MarketState
  d_transition :: "instant option"
  d_label :: string
  d_extended :: "ExtendedSession option"

definition post_market :: int where
  "post_market = 4 * 3600000000"

definition pre_market :: int where
  "pre_market = 5 * 3600000000 + 30 * 60000000"

text \<open>Outside the regular session of the day.\<close>

definition decide_outside :: "Calendar \<Rightarrow> bool \<Rightarrow> instant \<Rightarrow> int \<Rightarrow> Session \<Rightarrow> Decision" where
  "decide_outside cal us now today s =
     (let opens = ses_open s; closes = ses_close s;
          closed = (if now < opens
            then \<lparr>d_state = CLOSED, d_transition = Some opens, d_label = ''Opens'', d_extended = None\<rparr>
            else \<lparr>d_state = CLOSED, d_transition = next_session_open cal today, d_label = ''Opens'',
                  d_extended = None\<rparr>)
      in if \<not> us then closed
         else if opens - pre_market \<le> now \<and> now < opens then
           \<lparr>d_state = EXTENDED, d_transition = Some opens, d_label = ''Pre-market ends'',
            d_extended = Some PRE\<rparr>
         else if closes \<le> now \<and> now < closes + post_market then
           \<lparr>d_state = EXTENDED, d_transition = Some (closes + post_market),
            d_label = ''After-hours ends'', d_extended = Some POST\<rparr>
         else (case (if now < opens then previous_session_close cal today else None) of
                 None \<Rightarrow> closed
               | Some p \<Rightarrow>
                   if p \<le> now \<and> now < p + post_market then
                     \<lparr>d_state = EXTENDED, d_transition = Some (p + post_market),
                      d_label = ''After-hours ends'', d_extended = Some POST\<rparr>
                   else closed))"

text \<open>Inside it: the midday break, if the row has one.\<close>

definition decide_inside :: "instant \<Rightarrow> Session \<Rightarrow> Decision" where
  "decide_inside now s =
     (let open_until = (\<lambda>t label. \<lparr>d_state = OPEN, d_transition = Some t, d_label = label, d_extended = None\<rparr>)
      in case ses_break_start s of
           None \<Rightarrow> open_until (ses_close s) ''Closes''
         | Some b \<Rightarrow>
             (case ses_break_end s of
                Some r \<Rightarrow>
                  if b \<le> now \<and> now < r then
                    \<lparr>d_state = LUNCH, d_transition = Some r, d_label = ''Reopens'', d_extended = None\<rparr>
                  else if now < b then open_until b ''Lunch'' else open_until (ses_close s) ''Closes''
              | None \<Rightarrow> if now < b then open_until b ''Lunch'' else open_until (ses_close s) ''Closes''))"

definition decide :: "Calendar \<Rightarrow> bool \<Rightarrow> instant \<Rightarrow> Decision" where
  "decide cal us now =
     (let today = cal_local_date cal now;
          holiday = \<lparr>d_state = HOLIDAY, d_transition = next_session_open cal today,
            d_label = ''Opens'', d_extended = None\<rparr>
      in if (case cal_is_session cal today of Inl e \<Rightarrow> True | Inr b \<Rightarrow> \<not> b) then holiday
         else (case session_of cal today of
                 None \<Rightarrow> holiday
               | Some s \<Rightarrow>
                   if now < ses_open s \<or> ses_close s \<le> now then decide_outside cal us now today s
                   else decide_inside now s))"

definition make_status :: "Calendar \<Rightarrow> string \<Rightarrow> string \<Rightarrow> Decision \<Rightarrow> MarketStatus result" where
  "make_status cal mic display d =
     (case d_transition d of
        None \<Rightarrow> Inr \<lparr>ms_exchange = display, ms_state = d_state d, ms_extended_session = d_extended d,
          ms_next_transition_local = [], ms_next_transition_iso = [],
          ms_next_transition_label = d_label d\<rparr>
      | Some t \<Rightarrow> rbind (format_local cal mic t) (\<lambda>text.
          Inr \<lparr>ms_exchange = display, ms_state = d_state d, ms_extended_session = d_extended d,
            ms_next_transition_local = text, ms_next_transition_iso = isoformat t,
            ms_next_transition_label = d_label d\<rparr>))"

definition status :: "(string \<Rightarrow> Calendar) \<Rightarrow> instant \<Rightarrow> string \<Rightarrow> MarketStatus option result" where
  "status cal_of now e =
     (case mic_for_ib_exchange e of
        None \<Rightarrow> Inr None
      | Some mic \<Rightarrow>
          rbind (make_status (cal_of mic) mic (display_name_for_ib_exchange e)
                   (decide (cal_of mic) (e \<in> set US_EXTENDED_EXCHANGES) now)) (\<lambda>s. Inr (Some s)))"

section \<open>Calendars in order\<close>

text \<open>
  What the code relies on of a calendar: sessions in date order that do not overlap, breaks inside
  them, \<open>is_session\<close> agreeing with the schedule, a local date that never goes back, and sessions
  with their pre- and post-market hours inside one local date.
\<close>

definition session_ok :: "Session \<Rightarrow> bool" where
  "session_ok s =
     (ses_open s < ses_close s
      \<and> (case (ses_break_start s, ses_break_end s) of
           (None, None) \<Rightarrow> True
         | (Some b, Some r) \<Rightarrow> ses_open s \<le> b \<and> b < r \<and> r \<le> ses_close s
         | _ \<Rightarrow> False))"

definition calendar_ok :: "Calendar \<Rightarrow> bool" where
  "calendar_ok cal =
     (sorted_wrt (\<lambda>s t. ses_date s < ses_date t \<and> ses_close s \<le> ses_open t) (cal_schedule cal)
      \<and> list_all session_ok (cal_schedule cal)
      \<and> (\<forall>d. cal_is_session cal d = Inr (session_of cal d \<noteq> None))
      \<and> (\<forall>t u. t \<le> u \<longrightarrow> cal_local_date cal t \<le> cal_local_date cal u)
      \<and> (\<forall>s \<in> set (cal_schedule cal). \<forall>t. ses_open s - pre_market \<le> t \<and> t < ses_close s + post_market
           \<longrightarrow> cal_local_date cal t = ses_date s))"

lemma market_margins: "0 < pre_market" "0 < post_market"
  by (simp_all add: pre_market_def post_market_def)

lemma find_sorted:
  assumes "sorted_wrt (\<lambda>s t. f s < (f t :: int)) xs"
  shows "find (\<lambda>s. f s = d) xs = Some x \<longleftrightarrow> x \<in> set xs \<and> f x = d"
  using assms by (induction xs) auto

lemma session_of_iff:
  assumes "calendar_ok cal"
  shows "session_of cal d = Some s \<longleftrightarrow> s \<in> set (cal_schedule cal) \<and> ses_date s = d"
proof -
  have "sorted_wrt (\<lambda>s t. ses_date s < ses_date t \<and> ses_close s \<le> ses_open t) (cal_schedule cal)"
    using assms by (simp add: calendar_ok_def)
  then have "sorted_wrt (\<lambda>s t. ses_date s < ses_date t) (cal_schedule cal)"
    by (rule sorted_wrt_mono_rel [rotated]) simp
  then show ?thesis unfolding session_of_def by (rule find_sorted)
qed

lemma session_of_local:
  assumes "calendar_ok cal" "s \<in> set (cal_schedule cal)"
    and "ses_open s - pre_market \<le> t" "t < ses_close s + post_market"
  shows "cal_local_date cal t = ses_date s" "session_of cal (cal_local_date cal t) = Some s"
proof -
  show "cal_local_date cal t = ses_date s" using assms by (auto simp: calendar_ok_def)
  with assms(2) show "session_of cal (cal_local_date cal t) = Some s"
    by (simp add: session_of_iff [OF assms(1)])
qed

lemma session_okD: "calendar_ok cal \<Longrightarrow> s \<in> set (cal_schedule cal) \<Longrightarrow> session_ok s"
  by (auto simp: calendar_ok_def list_all_iff)

lemma local_date_open:
  assumes "calendar_ok cal" "s \<in> set (cal_schedule cal)"
  shows "cal_local_date cal (ses_open s) = ses_date s"
proof -
  have "ses_open s < ses_close s" using session_okD [OF assms] by (simp add: session_ok_def)
  with market_margins session_of_local(1) [OF assms, of "ses_open s"] show ?thesis by linarith
qed

lemma later_date_opens_later:
  assumes "calendar_ok cal" "s \<in> set (cal_schedule cal)" "cal_local_date cal now < ses_date s"
  shows "now < ses_open s"
proof (rule ccontr)
  assume "\<not> now < ses_open s"
  then have "cal_local_date cal (ses_open s) \<le> cal_local_date cal now"
    using assms(1) by (simp add: calendar_ok_def)
  with local_date_open [OF assms(1,2)] assms(3) show False by simp
qed

lemma next_session_open_future:
  assumes "calendar_ok cal" "next_session_open cal (cal_local_date cal now) = Some t"
  shows "now < t"
proof -
  let ?today = "cal_local_date cal now"
  let ?future = "filter (\<lambda>s. ?today \<le> ses_date s) (cal_schedule cal)"
  have "sorted_wrt (\<lambda>s t. ses_date s < ses_date t \<and> ses_close s \<le> ses_open t) ?future"
    using assms(1) by (intro sorted_wrt_filter) (simp add: calendar_ok_def)
  then have later: "\<forall>r \<in> set ss. ses_date s < ses_date r" if "?future = s # ss" for s ss
    using that by auto
  obtain s where "s \<in> set ?future" "?today < ses_date s" "t = ses_open s"
  proof (cases ?future)
    case (Cons s ss)
    then have s: "s \<in> set ?future" by simp
    show ?thesis
    proof (cases "ses_date s = ?today")
      case True
      with Cons assms(2) obtain r rs where "ss = r # rs" "t = ses_open r"
        by (auto simp: next_session_open_def Let_def split: list.splits)
      with Cons later [OF Cons] True show ?thesis by (intro that [of r]) auto
    next
      case False
      have "?today \<le> ses_date s" using s by simp
      with False Cons assms(2) s show ?thesis
        by (intro that [of s]) (simp_all add: next_session_open_def Let_def)
    qed
  qed (use assms(2) in \<open>simp add: next_session_open_def\<close>)
  then show ?thesis using later_date_opens_later [OF assms(1), of s now] by simp
qed

text \<open>The previous session's after-hours never reach a later date, so they decide nothing.\<close>

lemma previous_after_hours_over:
  assumes "calendar_ok cal" "previous_session_close cal (cal_local_date cal now) = Some p"
  shows "\<not> (p \<le> now \<and> now < p + post_market)"
proof
  assume now: "p \<le> now \<and> now < p + post_market"
  obtain s ss where s: "rev (filter (\<lambda>s. ses_date s < cal_local_date cal now) (cal_schedule cal)) = s # ss"
    "p = ses_close s"
    using assms(2) by (auto simp: previous_session_close_def split: list.splits)
  then have "s \<in> set (filter (\<lambda>s. ses_date s < cal_local_date cal now) (cal_schedule cal))"
    by (metis list.set_intros(1) set_rev)
  then have mem: "s \<in> set (cal_schedule cal)" "ses_date s < cal_local_date cal now" by auto
  have "ses_open s < ses_close s" using session_okD [OF assms(1) mem(1)] by (simp add: session_ok_def)
  with now s(2) market_margins session_of_local(1) [OF assms(1) mem(1), of now] mem(2)
  show False by linarith
qed

text \<open>The decision by intervals, over the session of the local date.\<close>

lemma decide_cases:
  assumes "calendar_ok cal"
  shows "decide cal us now =
    (case session_of cal (cal_local_date cal now) of
       None \<Rightarrow> \<lparr>d_state = HOLIDAY, d_transition = next_session_open cal (cal_local_date cal now),
         d_label = ''Opens'', d_extended = None\<rparr>
     | Some s \<Rightarrow>
         if now < ses_open s \<or> ses_close s \<le> now then
           (if us \<and> ses_open s - pre_market \<le> now \<and> now < ses_open s then
              \<lparr>d_state = EXTENDED, d_transition = Some (ses_open s), d_label = ''Pre-market ends'',
               d_extended = Some PRE\<rparr>
            else if us \<and> ses_close s \<le> now \<and> now < ses_close s + post_market then
              \<lparr>d_state = EXTENDED, d_transition = Some (ses_close s + post_market),
               d_label = ''After-hours ends'', d_extended = Some POST\<rparr>
            else \<lparr>d_state = CLOSED,
              d_transition = (if now < ses_open s then Some (ses_open s)
                else next_session_open cal (cal_local_date cal now)),
              d_label = ''Opens'', d_extended = None\<rparr>)
         else decide_inside now s)"
proof -
  have sess: "cal_is_session cal d = Inr (session_of cal d \<noteq> None)" for d
    using assms by (simp add: calendar_ok_def)
  have prev: "previous_session_close cal (cal_local_date cal now) = Some p \<Longrightarrow>
      (p \<le> now \<and> now < p + post_market) = False" for p
    using previous_after_hours_over [OF assms] by simp
  show ?thesis
    using prev
    by (cases "session_of cal (cal_local_date cal now)")
      (auto simp: decide_def sess decide_outside_def Let_def split: option.splits)
qed

lemma decide_inside_state:
  assumes "session_ok s" "ses_open s \<le> now" "now < ses_close s"
  shows "d_state (decide_inside now s) \<in> {OPEN, LUNCH}
    \<and> (d_state (decide_inside now s) = LUNCH \<longleftrightarrow>
        (\<exists>b r. ses_break_start s = Some b \<and> ses_break_end s = Some r \<and> b \<le> now \<and> now < r))
    \<and> (\<exists>t. d_transition (decide_inside now s) = Some t \<and> now < t \<and> t \<le> ses_close s
        \<and> (\<forall>u. now \<le> u \<and> u < t \<longrightarrow> decide_inside u s = decide_inside now s))"
  using assms
  by (cases "ses_break_start s"; cases "ses_break_end s")
    (auto simp: decide_inside_def Let_def session_ok_def)

lemma calendar_tables:
  "list_all (\<lambda>(e, m). map_of (map (\<lambda>(e, m). (m, flag_for_exchange e)) IB_EXCHANGE_TO_MIC) m
       = Some (flag_for_exchange e) \<and> map_of MIC_TO_TZ_LABEL m \<noteq> None \<and> map_of MIC_TO_TZ_LABEL m \<noteq> Some []
       \<and> map_of IB_EXCHANGE_TO_SUFFIX e \<noteq> None) IB_EXCHANGE_TO_MIC"
  by code_simp

lemma mic_row:
  assumes "mic_for_ib_exchange e = Some m"
  shows "map_of (map (\<lambda>(e, m). (m, flag_for_exchange e)) IB_EXCHANGE_TO_MIC) m = Some (flag_for_exchange e)"
    and "map_of MIC_TO_TZ_LABEL m \<noteq> None" "map_of MIC_TO_TZ_LABEL m \<noteq> Some []"
    and "map_of IB_EXCHANGE_TO_SUFFIX e \<noteq> None"
  using list_all_map_of [OF calendar_tables, of e m] assms by (simp_all add: mic_for_ib_exchange_def)

lemma next_close_find:
  assumes "sorted_wrt (\<lambda>s t. ses_close s \<le> ses_close t) xs" "find (\<lambda>s. now < ses_close s) xs = Some s"
  shows "now < ses_close s \<and> s \<in> set xs \<and> (\<forall>t \<in> set xs. now < ses_close t \<longrightarrow> ses_close s \<le> ses_close t)"
  using assms by (induction xs) (auto split: if_splits)

lemma closes_sorted:
  assumes "calendar_ok cal"
  shows "sorted_wrt (\<lambda>s t. ses_close s \<le> ses_close t) (filter P (cal_schedule cal))"
proof -
  have "sorted_wrt (\<lambda>s t. ses_date s < ses_date t \<and> ses_close s \<le> ses_open t) (cal_schedule cal)"
    using assms by (simp add: calendar_ok_def)
  then have "sorted_wrt (\<lambda>s t. ses_close s \<le> ses_close t) (cal_schedule cal)"
  proof (rule sorted_wrt_mono_rel [rotated])
    fix s t assume "t \<in> set (cal_schedule cal)" "ses_date s < ses_date t \<and> ses_close s \<le> ses_open t"
    with session_okD [OF assms, of t] show "ses_close s \<le> ses_close t" by (simp add: session_ok_def)
  qed
  then show ?thesis by (rule sorted_wrt_filter)
qed

text \<open>A small calendar: two London sessions, the second a half day with a break.\<close>

definition demo_calendar :: Calendar where
  "demo_calendar =
     (let s1 = \<lparr>ses_date = 738943, ses_open = days 738943 + 8 * 3600000000,
            ses_close = days 738943 + 16 * 3600000000, ses_break_start = None, ses_break_end = None\<rparr>;
          s2 = \<lparr>ses_date = 738944, ses_open = days 738944 + 8 * 3600000000,
            ses_close = days 738944 + 14 * 3600000000,
            ses_break_start = Some (days 738944 + 11 * 3600000000),
            ses_break_end = Some (days 738944 + 12 * 3600000000)\<rparr>
      in \<lparr>cal_schedule = [s1, s2], cal_local_date = (\<lambda>t. t div day_us),
          cal_format = (\<lambda>t. Inr (''00:00'', ''UTC'')),
          cal_is_session = (\<lambda>d. Inr (d = 738943 \<or> d = 738944)), cal_early_closes = Some [738944]\<rparr>)"

lemma demo_date:
  assumes "days d \<le> t" "t < days (d + 1)"
  shows "t div day_us = d"
proof (rule div_eqI)
  show "0 < day_us" by (simp add: day_us_def)
  show "day_us * d \<le> t" using assms(1) by (simp add: days_def mult.commute)
  show "t < day_us * d + day_us" using assms(2) by (simp add: days_def algebra_simps)
qed

lemma demo_calendar_ok: "calendar_ok demo_calendar"
proof -
  have "cal_local_date demo_calendar t = ses_date s"
    if "s \<in> set (cal_schedule demo_calendar)" "ses_open s - pre_market \<le> t" "t < ses_close s + post_market"
    for s t
    using that demo_date [of 738943 t] demo_date [of 738944 t]
    by (auto simp: demo_calendar_def Let_def pre_market_def post_market_def days_def day_us_def)
  moreover have "t div day_us \<le> u div day_us" if "t \<le> u" for t u
    using that by (intro zdiv_mono1) (simp_all add: day_us_def)
  ultimately show ?thesis
    by (auto simp: calendar_ok_def session_ok_def session_of_def demo_calendar_def Let_def days_def
        day_us_def)
qed

lemma closures_on_kinds:
  assumes "calendar_ok cal" "closures_on cal mic d = Inr cs"
  shows "map ec_date cs = (if cs = [] then [] else [d])"
    and "(\<exists>c \<in> set cs. ec_kind c = HolidayClosure) \<longleftrightarrow> d mod 7 < 5 \<and> session_of cal d = None"
    and "(\<exists>c \<in> set cs. ec_kind c = EarlyClose) \<longleftrightarrow> d mod 7 < 5 \<and> session_of cal d \<noteq> None
      \<and> (\<exists>ds. cal_early_closes cal = Some ds \<and> d \<in> set ds)"
proof -
  have sess: "cal_is_session cal d = Inr (session_of cal d \<noteq> None)"
    using assms(1) by (simp add: calendar_ok_def)
  show "map ec_date cs = (if cs = [] then [] else [d])"
    using assms(2) by (auto simp: closures_on_def sess rbind_Inr_iff split: if_splits option.splits)
  show "(\<exists>c \<in> set cs. ec_kind c = HolidayClosure) \<longleftrightarrow> d mod 7 < 5 \<and> session_of cal d = None"
    using assms(2) by (auto simp: closures_on_def sess rbind_Inr_iff split: if_splits option.splits)
  show "(\<exists>c \<in> set cs. ec_kind c = EarlyClose) \<longleftrightarrow> d mod 7 < 5 \<and> session_of cal d \<noteq> None
      \<and> (\<exists>ds. cal_early_closes cal = Some ds \<and> d \<in> set ds)"
    by (cases "cal_early_closes cal")
      (use assms(2) in \<open>auto simp: closures_on_def sess rbind_Inr_iff split: if_splits option.splits\<close>)
qed

lemma closures_list:
  assumes "calendar_ok cal" "rmap_list (closures_on cal mic) ds = Inr css"
  shows "(\<exists>c \<in> set (concat css). ec_date c = d \<and> ec_kind c = k) \<longleftrightarrow>
      d \<in> set ds \<and> (\<exists>cs. closures_on cal mic d = Inr cs \<and> (\<exists>c \<in> set cs. ec_kind c = k))"
    and "sorted_wrt (<) ds \<Longrightarrow> sorted_wrt (<) (map ec_date (concat css))"
    and "set (map ec_date (concat css)) \<subseteq> set ds"
  using assms(2)
proof (induction ds arbitrary: css)
  case (Cons x ds)
  {
    case 1
    obtain cs css' where r: "closures_on cal mic x = Inr cs" "rmap_list (closures_on cal mic) ds = Inr css'"
      "css = cs # css'" using 1 by (auto simp: rbind_Inr_iff)
    have dates: "ec_date c = x" if "c \<in> set cs" for c
      using closures_on_kinds(1) [OF assms(1) r(1)] that by (cases cs) (auto split: if_splits)
    show ?case using Cons.IH(1) [OF r(2)] r dates by (auto; blast)
  next
    case 2
    obtain cs css' where r: "closures_on cal mic x = Inr cs" "rmap_list (closures_on cal mic) ds = Inr css'"
      "css = cs # css'" using 2 by (auto simp: rbind_Inr_iff)
    have sub: "set (map ec_date (concat css')) \<subseteq> set ds" by (rule Cons.IH(3) [OF r(2)])
    have "sorted_wrt (<) (map ec_date (concat css'))" by (rule Cons.IH(2) [OF _ r(2)]) (use 2 in simp)
    moreover have "\<forall>y \<in> set (map ec_date (concat css')). x < y" using sub 2(1) by (auto simp del: set_map)
    ultimately show ?case
      using closures_on_kinds(1) [OF assms(1) r(1)] r(3) by (auto simp: sorted_wrt_append split: if_splits)
  next
    case 3
    obtain cs css' where r: "closures_on cal mic x = Inr cs" "rmap_list (closures_on cal mic) ds = Inr css'"
      "css = cs # css'" using 3 by (auto simp: rbind_Inr_iff)
    have "set (map ec_date cs) \<subseteq> {x}" using closures_on_kinds(1) [OF assms(1) r(1)] by (auto split: if_splits)
    moreover have "set (map ec_date (concat css')) \<subseteq> set ds" by (rule Cons.IH(3) [OF r(2)])
    ultimately show ?case unfolding r(3) concat.simps map_append set_append list.set by blast
  }
qed simp_all

lemma rmap_list_elem: "rmap_list f xs = Inr ys \<Longrightarrow> x \<in> set xs \<Longrightarrow> \<exists>y. f x = Inr y"
  by (induction xs arbitrary: ys) (auto simp: rbind_Inr_iff)

lemma session_breaks:
  assumes "calendar_ok cal" "s \<in> set (cal_schedule cal)"
  shows "ses_open s < ses_close s \<and> (\<forall>b r. ses_break_start s = Some b \<and> ses_break_end s = Some r \<longrightarrow>
      ses_open s \<le> b \<and> b < r \<and> r \<le> ses_close s)"
  using session_okD [OF assms] by (auto simp: session_ok_def)

text \<open>Only the session of the local date can be near.\<close>

lemma only_today:
  assumes "calendar_ok cal" "session_of cal (cal_local_date cal now) = Some s"
  shows "(\<exists>t \<in> set (cal_schedule cal). ses_open t \<le> now \<and> now < ses_close t)
      \<longleftrightarrow> ses_open s \<le> now \<and> now < ses_close s"
    and "(\<exists>t \<in> set (cal_schedule cal). \<exists>b r. ses_break_start t = Some b \<and> ses_break_end t = Some r
        \<and> b \<le> now \<and> now < r)
      \<longleftrightarrow> (\<exists>b r. ses_break_start s = Some b \<and> ses_break_end s = Some r \<and> b \<le> now \<and> now < r)"
    and "(\<exists>t \<in> set (cal_schedule cal). ses_open t - pre_market \<le> now \<and> now < ses_open t
        \<or> ses_close t \<le> now \<and> now < ses_close t + post_market)
      \<longleftrightarrow> ses_open s - pre_market \<le> now \<and> now < ses_open s
        \<or> ses_close s \<le> now \<and> now < ses_close s + post_market"
proof -
  note ok = session_breaks [OF assms(1)]
  have mem: "s \<in> set (cal_schedule cal)" using assms(2) session_of_iff [OF assms(1)] by simp
  have ex: "(\<exists>t \<in> set (cal_schedule cal). P t) \<longleftrightarrow> P s"
    if "\<And>t. t \<in> set (cal_schedule cal) \<Longrightarrow> P t \<Longrightarrow>
        ses_open t - pre_market \<le> now \<and> now < ses_close t + post_market" for P
    using that session_of_local(2) [OF assms(1)] assms(2) mem by (metis option.inject)
  show "(\<exists>t \<in> set (cal_schedule cal). ses_open t \<le> now \<and> now < ses_close t)
      \<longleftrightarrow> ses_open s \<le> now \<and> now < ses_close s"
    by (rule ex) (use market_margins in linarith)
  show "(\<exists>t \<in> set (cal_schedule cal). \<exists>b r. ses_break_start t = Some b \<and> ses_break_end t = Some r
        \<and> b \<le> now \<and> now < r)
      \<longleftrightarrow> (\<exists>b r. ses_break_start s = Some b \<and> ses_break_end s = Some r \<and> b \<le> now \<and> now < r)"
    by (rule ex) (use market_margins ok in fastforce)
  show "(\<exists>t \<in> set (cal_schedule cal). ses_open t - pre_market \<le> now \<and> now < ses_open t
        \<or> ses_close t \<le> now \<and> now < ses_close t + post_market)
      \<longleftrightarrow> ses_open s - pre_market \<le> now \<and> now < ses_open s
        \<or> ses_close s \<le> now \<and> now < ses_close s + post_market"
    by (rule ex) (use market_margins ok in fastforce)
qed

lemma decided_today:
  assumes "calendar_ok cal" "session_of cal (cal_local_date cal now) = Some s"
  shows "(d_state (decide cal us now) \<in> {OPEN, LUNCH} \<longleftrightarrow> ses_open s \<le> now \<and> now < ses_close s)
    \<and> (d_state (decide cal us now) = LUNCH \<longleftrightarrow>
        (\<exists>b r. ses_break_start s = Some b \<and> ses_break_end s = Some r \<and> b \<le> now \<and> now < r))
    \<and> (d_state (decide cal us now) = EXTENDED \<longleftrightarrow> us \<and> (ses_open s - pre_market \<le> now \<and> now < ses_open s
        \<or> ses_close s \<le> now \<and> now < ses_close s + post_market))
    \<and> d_state (decide cal us now) \<noteq> HOLIDAY"
proof -
  have mem: "s \<in> set (cal_schedule cal)" using assms(2) session_of_iff [OF assms(1)] by simp
  note inside = decide_inside_state [OF session_okD [OF assms(1) mem], of now]
  note d = decide_cases [OF assms(1), of us now, unfolded assms(2) option.case]
  show ?thesis
  proof (cases "now < ses_open s \<or> ses_close s \<le> now")
    case True
    define C where "C = (us \<and> (ses_open s - pre_market \<le> now \<and> now < ses_open s
        \<or> ses_close s \<le> now \<and> now < ses_close s + post_market))"
    have q1: "(\<exists>b r. ses_break_start s = Some b \<and> ses_break_end s = Some r \<and> b \<le> now \<and> now < r) = False"
      using True session_breaks [OF assms(1) mem] by fastforce
    have q2: "(ses_open s \<le> now \<and> now < ses_close s) = False" using True by auto
    have st: "d_state (decide cal us now) = (if C then EXTENDED else CLOSED)" unfolding d C_def using True by simp
    show ?thesis unfolding q1 q2 st C_def [symmetric] by (cases C) simp_all
  next
    case False
    then have eq: "decide cal us now = decide_inside now s" unfolding d by simp
    have q1: "ses_open s \<le> now \<and> now < ses_close s" using False by auto
    have q2: "(ses_open s - pre_market \<le> now \<and> now < ses_open s
        \<or> ses_close s \<le> now \<and> now < ses_close s + post_market) = False" using False by auto
    have open_lunch: "d_state (decide_inside now s) \<in> {OPEN, LUNCH}" using inside q1 by blast
    have is_lunch: "(\<exists>b r. ses_break_start s = Some b \<and> ses_break_end s = Some r \<and> b \<le> now \<and> now < r)
        = (d_state (decide_inside now s) = LUNCH)" using inside q1 by blast
    show ?thesis unfolding eq q2 is_lunch using open_lunch q1 by auto
  qed
qed

section \<open>Properties\<close>

text \<open>Calendars are never shared across markets: two exchanges are given the same calendar only
  when they carry the same country flag, so Hong Kong, Taiwan and mainland China keep theirs
  apart; and every exchange with a calendar has a country suffix and a time zone label.\<close>
theorem calendars_follow_flags:
  assumes "mic_for_ib_exchange e = Some m" "mic_for_ib_exchange e' = Some m"
  shows "flag_for_exchange e = flag_for_exchange e' \<and> (\<exists>s. suffix_for_exchange e = Inr s)
    \<and> (\<exists>l. map_of MIC_TO_TZ_LABEL m = Some l \<and> l \<noteq> [])"
  using mic_row [OF assms(1)] mic_row(1) [OF assms(2)]
  by (auto simp: suffix_for_exchange_def)

theorem calendars_follow_flags_witness:
  "flag_for_exchange ''SSE'' = flag_for_exchange ''SZSE''"
proof -
  have "mic_for_ib_exchange ''SSE'' = Some ''XSHG''" "mic_for_ib_exchange ''SZSE'' = Some ''XSHG''"
    by code_simp+
  then show ?thesis using calendars_follow_flags by blast
qed

text \<open>C17. The state shown is the state of the exchange: a regular state exactly inside a session,
  LUNCH exactly inside its break, EXTENDED exactly in the pre- and post-market hours of a US
  session, and HOLIDAY exactly when the local date has no session.\<close>
theorem market_state_exact:
  assumes "calendar_ok cal" "decide cal us now = d"
  shows "(d_state d \<in> {OPEN, LUNCH} \<longleftrightarrow>
        (\<exists>s \<in> set (cal_schedule cal). ses_open s \<le> now \<and> now < ses_close s))
    \<and> (d_state d = LUNCH \<longleftrightarrow> (\<exists>s \<in> set (cal_schedule cal). \<exists>b r. ses_break_start s = Some b
        \<and> ses_break_end s = Some r \<and> b \<le> now \<and> now < r))
    \<and> (d_state d = EXTENDED \<longleftrightarrow> us \<and> (\<exists>s \<in> set (cal_schedule cal).
        ses_open s - pre_market \<le> now \<and> now < ses_open s
        \<or> ses_close s \<le> now \<and> now < ses_close s + post_market))
    \<and> (d_state d = HOLIDAY \<longleftrightarrow> session_of cal (cal_local_date cal now) = None)"
proof (cases "session_of cal (cal_local_date cal now)")
  case None
  have out: "\<not> (ses_open s - pre_market \<le> now \<and> now < ses_close s + post_market)"
    if "s \<in> set (cal_schedule cal)" for s
    using session_of_local(2) [OF assms(1) that, of now] None by auto
  have "d_state d = HOLIDAY" using None decide_cases [OF assms(1), of us now] assms(2) by auto
  with None out session_breaks [OF assms(1)] market_margins show ?thesis by force
next
  case (Some s)
  from decided_today [OF assms(1) Some, of us, unfolded assms(2)] Some
  show ?thesis unfolding only_today [OF assms(1) Some] by auto
qed

theorem market_state_exact_witness:
  "d_state (decide demo_calendar False (days 738944 + 11 * 3600000000)) = LUNCH"
proof -
  have "\<exists>s \<in> set (cal_schedule demo_calendar). \<exists>b r. ses_break_start s = Some b
        \<and> ses_break_end s = Some r \<and> b \<le> days 738944 + 11 * 3600000000 \<and> days 738944 + 11 * 3600000000 < r"
    by (simp add: demo_calendar_def Let_def days_def)
  with market_state_exact [OF demo_calendar_ok refl, of False "days 738944 + 11 * 3600000000"]
  show ?thesis by blast
qed

text \<open>The next transition a card announces always lies ahead, and an open, lunch or extended state
  with everything announced about it holds at every moment until that transition.\<close>
theorem state_holds_until_transition:
  assumes "calendar_ok cal" "decide cal us now = d" "d_transition d = Some t"
  shows "now < t \<and> (d_state d \<in> {OPEN, LUNCH, EXTENDED} \<longrightarrow>
    (\<forall>u. now \<le> u \<and> u < t \<longrightarrow> decide cal us u = d))"
proof (cases "session_of cal (cal_local_date cal now)")
  case None
  with decide_cases [OF assms(1), of us now] assms(2,3) next_session_open_future [OF assms(1)]
  show ?thesis by auto
next
  case (Some s)
  have mem: "s \<in> set (cal_schedule cal)" using Some session_of_iff [OF assms(1)] by simp
  have ok: "session_ok s" "ses_open s < ses_close s"
    using session_okD [OF assms(1) mem] by (simp_all add: session_ok_def)
  have there: "session_of cal (cal_local_date cal u) = Some s"
    if "ses_open s - pre_market \<le> u" "u < ses_close s + post_market" for u
    using session_of_local(2) [OF assms(1) mem that] .
  note d = decide_cases [OF assms(1), of us]
  show ?thesis
  proof (cases "now < ses_open s \<or> ses_close s \<le> now")
    case False
    then have eq: "decide cal us now = decide_inside now s" using d [of now] Some by simp
    have in_session: "decide cal us u = decide_inside u s" if "ses_open s \<le> u" "u < ses_close s" for u
      using that d [of u] there [of u] market_margins by simp
    have "\<exists>t. d_transition (decide_inside now s) = Some t \<and> now < t \<and> t \<le> ses_close s
        \<and> (\<forall>u. now \<le> u \<and> u < t \<longrightarrow> decide_inside u s = decide_inside now s)"
      using decide_inside_state [OF ok(1), of now] False by auto
    then show ?thesis using assms(2,3) eq in_session False by auto
  next
    case True
    have extended: "decide cal us u = d" if "d_state d = EXTENDED" "now \<le> u" "u < t" for u
      using that True Some d [of now] d [of u] there [of u] assms(2,3) ok(2) market_margins
      by (auto split: if_splits)
    have "now < t" "d_state d \<noteq> OPEN" "d_state d \<noteq> LUNCH"
      using True Some d [of now] assms(2,3) next_session_open_future [OF assms(1), of now]
      by (auto split: if_splits)
    with extended show ?thesis by blast
  qed
qed

theorem state_holds_until_transition_witness:
  "d_transition (decide demo_calendar True (days 738943 + 3 * 3600000000)) = Some (days 738943 + 8 * 3600000000)
   \<and> decide demo_calendar True (days 738943 + 7 * 3600000000) = decide demo_calendar True (days 738943 + 3 * 3600000000)"
proof -
  have t: "d_transition (decide demo_calendar True (days 738943 + 3 * 3600000000)) = Some (days 738943 + 8 * 3600000000)"
    "d_state (decide demo_calendar True (days 738943 + 3 * 3600000000)) = EXTENDED"
    by (simp_all add: decide_def decide_outside_def demo_calendar_def Let_def session_of_def days_def day_us_def pre_market_def post_market_def)
  have "days 738943 + 3 * 3600000000 \<le> days 738943 + 7 * 3600000000
      \<and> days 738943 + 7 * 3600000000 < days 738943 + 8 * 3600000000" by simp
  with state_holds_until_transition [OF demo_calendar_ok refl t(1)] t(2)
  have "decide demo_calendar True (days 738943 + 7 * 3600000000)
      = decide demo_calendar True (days 738943 + 3 * 3600000000)" by blast
  with t(1) show ?thesis by blast
qed

text \<open>The next close given to the snapshot scheduler is in the future, and is the earliest close
  of a session dated from today's local date to three weeks on; there is none only if no such
  session closes later than now.\<close>
theorem next_close_earliest:
  assumes "mic_for_ib_exchange e = Some m" "calendar_ok (cal_of m)"
    and window: "window = filter (\<lambda>s. cal_local_date (cal_of m) now \<le> ses_date s
      \<and> ses_date s \<le> cal_local_date (cal_of m) now + 21) (cal_schedule (cal_of m))"
  shows "case next_close_at cal_of now e of
      None \<Rightarrow> list_all (\<lambda>s. ses_close s \<le> now) window
    | Some c \<Rightarrow> now < c \<and> (\<exists>s \<in> set window. ses_close s = c)
        \<and> list_all (\<lambda>s. now < ses_close s \<longrightarrow> c \<le> ses_close s) window"
proof (cases "find (\<lambda>s. now < ses_close s) window")
  case None
  then have "next_close_at cal_of now e = None"
    using assms(1) by (simp add: next_close_at_def Let_def window)
  then show ?thesis using None by (simp add: find_None_iff list_all_iff not_less)
next
  case (Some s)
  have "sorted_wrt (\<lambda>s t. ses_close s \<le> ses_close t) window"
    unfolding window by (rule closes_sorted [OF assms(2)])
  from next_close_find [OF this Some] Some show ?thesis
    using assms(1) by (simp add: next_close_at_def Let_def window [symmetric] list_all_iff) blast
qed

theorem next_close_earliest_witness:
  "next_close_at (\<lambda>m. demo_calendar) (days 738943 + 16 * 3600000000) ''LSE'' = Some (days 738944 + 14 * 3600000000)
   \<and> days 738943 + 16 * 3600000000 < days 738944 + 14 * 3600000000"
proof -
  have m: "mic_for_ib_exchange ''LSE'' = Some ''XLON''" by code_simp
  have "next_close_at (\<lambda>m. demo_calendar) (days 738943 + 16 * 3600000000) ''LSE'' = Some (days 738944 + 14 * 3600000000)"
    using m by (simp add: next_close_at_def demo_calendar_def Let_def days_def day_us_def)
  with next_close_earliest [where cal_of = "\<lambda>m. demo_calendar" and now = "days 738943 + 16 * 3600000000",
      OF m demo_calendar_ok refl]
  show ?thesis by simp
qed

text \<open>The closures listed for a range of dates are exactly its weekdays without a session, as
  holidays, and its weekdays with a shortened session, as early closes, in date order and each
  date once.\<close>
theorem closures_exact:
  assumes "mic_for_ib_exchange e = Some m" "calendar_ok (cal_of m)"
    and "closures_in_range cal_of e a b = Inr cs"
  shows "sorted_wrt (<) (map ec_date cs)
    \<and> ((\<exists>c \<in> set cs. ec_date c = d \<and> ec_kind c = HolidayClosure) \<longleftrightarrow>
        a \<le> d \<and> d \<le> b \<and> d mod 7 < 5 \<and> session_of (cal_of m) d = None)
    \<and> ((\<exists>c \<in> set cs. ec_date c = d \<and> ec_kind c = EarlyClose) \<longleftrightarrow>
        a \<le> d \<and> d \<le> b \<and> d mod 7 < 5 \<and> session_of (cal_of m) d \<noteq> None
        \<and> (\<exists>ds. cal_early_closes (cal_of m) = Some ds \<and> d \<in> set ds))"
proof -
  obtain css where css: "rmap_list (closures_on (cal_of m) m) [a..b] = Inr css" "cs = concat css"
    using assms(1,3) by (auto simp: closures_in_range_def rbind_Inr_iff)
  note l = closures_list [OF assms(2) css(1)]
  have on: "\<exists>xs. closures_on (cal_of m) m d = Inr xs" if "a \<le> d" "d \<le> b"
    using rmap_list_elem [OF css(1), of d] that by simp
  have sorted: "sorted_wrt (<) (map ec_date (concat css))" by (rule l(2)) simp
  show ?thesis
  proof (cases "a \<le> d \<and> d \<le> b")
    case True
    then obtain xs where xs: "closures_on (cal_of m) m d = Inr xs" using on by blast
    have in_range: "d \<in> set [a..b]" using True by simp
    have "(\<exists>c \<in> set (concat css). ec_date c = d \<and> ec_kind c = k) \<longleftrightarrow> (\<exists>c \<in> set xs. ec_kind c = k)" for k
      unfolding l(1) using in_range xs by simp
    then show ?thesis
      unfolding css(2) using sorted closures_on_kinds(2,3) [OF assms(2) xs] True by simp
  next
    case False
    then have "d \<notin> set [a..b]" by auto
    then have "\<not> (\<exists>c \<in> set (concat css). ec_date c = d \<and> ec_kind c = k)" for k
      unfolding l(1) by blast
    then show ?thesis unfolding css(2) using sorted False by auto
  qed
qed

theorem closures_exact_witness:
  "\<exists>cs. closures_in_range (\<lambda>m. demo_calendar) ''LSE'' 738943 738945 = Inr cs
    \<and> (\<exists>c \<in> set cs. ec_date c = 738945 \<and> ec_kind c = HolidayClosure)
    \<and> (\<exists>c \<in> set cs. ec_date c = 738944 \<and> ec_kind c = EarlyClose)"
proof -
  have m: "mic_for_ib_exchange ''LSE'' = Some ''XLON''" by code_simp
  obtain cs where cs: "closures_in_range (\<lambda>m. demo_calendar) ''LSE'' 738943 738945 = Inr cs"
    using m mic_row(2,3) [OF m]
    by (auto simp: closures_in_range_def closures_on_def demo_calendar_def Let_def upto.simps
        session_of_def format_local_def split: option.splits)
  have d: "session_of demo_calendar 738945 = None" "session_of demo_calendar 738944 \<noteq> None"
    "cal_early_closes demo_calendar = Some [738944]"
    by (simp_all add: session_of_def demo_calendar_def Let_def)
  show ?thesis
    using closures_exact [where cal_of = "\<lambda>m. demo_calendar", OF m demo_calendar_ok cs, of 738945]
      closures_exact [where cal_of = "\<lambda>m. demo_calendar", OF m demo_calendar_ok cs, of 738944] d cs
    by simp
qed

end
