(* ===== verification/Store.thy ===== *)
theory Store
  imports Broker Clock "HOL-Library.Multiset"
begin

text \<open>
  \<open>app/db/store.py\<close>, \<open>app/core/names.py\<close> and \<open>app/core/equity.py\<close>: the four tables of the SQLite
  database with the statements the code runs on them, the name resolver that caches through it,
  and the construction of an equity snapshot.

  A timestamp column holds \<open>isoformat\<close> text; a row of the model holds the instant, and every
  comparison of the SQL is made on the texts. SQLite binds a NaN as NULL: a NaN in a NOT NULL
  column makes \<open>INSERT OR IGNORE\<close> skip the row and a plain \<open>INSERT\<close> raise.
\<close>

definition NAME_CACHE_TTL_DAYS :: int where
  "NAME_CACHE_TTL_DAYS = 30"

record NameRow =
  nc_canonical_symbol :: string
  nc_name_en :: string
  nc_price_magnifier :: "int option"
  nc_updated_at :: instant

datatype FxSource = IB | API_FALLBACK

record FxCacheRow =
  fc_rate :: fl
  fc_source :: FxSource
  fc_quoted_at :: instant
  fc_updated_at :: instant

record FillRow =
  fr_broker :: string
  fr_account_id :: string
  fr_execution_id :: string
  fr_canonical_symbol :: string
  fr_native_key :: string
  fr_asset_class :: string
  fr_side :: string
  fr_quantity :: fl
  fr_price :: fl
  fr_currency :: string
  fr_fx_rate_at_fill :: "fl option"
  fr_fees_native :: "fl option"
  fr_fees_usd :: "fl option"
  fr_filled_at :: instant

record EquityRow =
  er_snapshot_at :: instant
  er_snapshot_session :: string
  er_broker :: string
  er_account_id :: string
  er_base_currency :: string
  er_net_liquidation_native :: fl
  er_net_liquidation_usd :: fl
  er_gross_position_value_usd :: fl
  er_cash_usd :: fl

text \<open>The rows of \<open>fills\<close> and \<open>equity_snapshots\<close> carry the capture time as a second component.\<close>

record Store =
  name_cache_cols :: "string list"
  name_cache :: "(string \<times> string, NameRow) dict"
  fx_cache :: "(string, FxCacheRow) dict"
  fills :: "(FillRow \<times> instant) list"
  equity_snapshots :: "(EquityRow \<times> instant) list"

section \<open>name_cache\<close>

text \<open>The migration of \<open>init_schema\<close>: a database that predates the column gets it with the
  default 1 in every row.\<close>

definition init_schema :: "Store \<Rightarrow> Store" where
  "init_schema s =
     (if ''price_magnifier'' \<in> set (name_cache_cols s) then s
      else s\<lparr>name_cache_cols := name_cache_cols s @ [''price_magnifier''],
             name_cache := map (\<lambda>(k, r). (k, r\<lparr>nc_price_magnifier := Some 1\<rparr>)) (name_cache s)\<rparr>)"

definition put_name_cache ::
    "Store \<Rightarrow> instant \<Rightarrow> string \<Rightarrow> string \<Rightarrow> string \<times> string \<times> int \<Rightarrow> Store" where
  "put_name_cache s now b nk entry =
     (case entry of (canonical, name, magnifier) \<Rightarrow>
        s\<lparr>name_cache := AList.update (b, nk)
            \<lparr>nc_canonical_symbol = canonical, nc_name_en = name,
             nc_price_magnifier = Some magnifier, nc_updated_at = now\<rparr> (name_cache s)\<rparr>)"

definition get_name_cache ::
    "Store \<Rightarrow> instant \<Rightarrow> string \<Rightarrow> string \<Rightarrow> (string \<times> string \<times> int) option" where
  "get_name_cache s now b nk =
     (case map_of (name_cache s) (b, nk) of
        None \<Rightarrow> None
      | Some r \<Rightarrow>
          if text_le (isoformat (now - days NAME_CACHE_TTL_DAYS)) (isoformat (nc_updated_at r))
          then Some (nc_canonical_symbol r, nc_name_en r,
                     (case nc_price_magnifier r of Some m \<Rightarrow> m | None \<Rightarrow> 1))
          else None)"

text \<open>
  \<open>NameResolver.resolve\<close> over the injected store, of which it uses \<open>get\<close> and \<open>put\<close>; \<open>fetched\<close> is
  what the injected fetcher returns, or raises, if called. The result is the new store and the
  answer.
\<close>

definition resolve ::
    "('s \<Rightarrow> instant \<Rightarrow> string \<Rightarrow> string \<Rightarrow> 'v option) \<Rightarrow> ('s \<Rightarrow> instant \<Rightarrow> string \<Rightarrow> string \<Rightarrow> 'v \<Rightarrow> 's) \<Rightarrow>
       's \<Rightarrow> instant \<Rightarrow> 'v option result \<Rightarrow> string \<Rightarrow> string \<Rightarrow> 's \<times> 'v option result" where
  "resolve get put s now fetched b nk =
     (case get s now b nk of
        Some cached \<Rightarrow> (s, Inr (Some cached))
      | None \<Rightarrow>
          (case fetched of
             Inl e \<Rightarrow> (s, Inl e)
           | Inr None \<Rightarrow> (s, Inr None)
           | Inr (Some entry) \<Rightarrow> (put s now b nk entry, Inr (Some entry))))"

section \<open>fx_cache\<close>

definition put_fx_rate ::
    "Store \<Rightarrow> instant \<Rightarrow> string \<Rightarrow> fl \<Rightarrow> FxSource \<Rightarrow> instant \<Rightarrow> Store result" where
  "put_fx_rate s now pair rate source quoted_at =
     (if rate = NaN then Inl (OtherError ''IntegrityError'')
      else Inr (s\<lparr>fx_cache := AList.update pair
             \<lparr>fc_rate = rate, fc_source = source, fc_quoted_at = quoted_at, fc_updated_at = now\<rparr>
             (fx_cache s)\<rparr>))"

definition get_fx_rate :: "Store \<Rightarrow> string \<Rightarrow> FxCacheRow option" where
  "get_fx_rate s pair = map_of (fx_cache s) pair"

section \<open>fills\<close>

definition null_nan :: "fl option \<Rightarrow> fl option" where
  "null_nan x = (if x = Some NaN then None else x)"

definition fill_key :: "FillRow \<Rightarrow> string \<times> string" where
  "fill_key r = (fr_broker r, fr_execution_id r)"

definition fill_storable :: "FillRow \<Rightarrow> bool" where
  "fill_storable r = (fr_quantity r \<noteq> NaN \<and> fr_price r \<noteq> NaN)"

definition fill_stored :: "FillRow \<Rightarrow> FillRow" where
  "fill_stored r = r\<lparr>fr_fx_rate_at_fill := null_nan (fr_fx_rate_at_fill r),
     fr_fees_native := null_nan (fr_fees_native r), fr_fees_usd := null_nan (fr_fees_usd r)\<rparr>"

definition insert_fill :: "Store \<Rightarrow> FillRow \<times> instant \<Rightarrow> Store \<times> bool" where
  "insert_fill s rc =
     (case rc of (r, captured_at) \<Rightarrow>
        if fill_storable r \<and> fill_key r \<notin> (fill_key \<circ> fst) ` set (fills s)
        then (s\<lparr>fills := fills s @ [(fill_stored r, captured_at)]\<rparr>, True)
        else (s, False))"

text \<open>\<open>ORDER BY\<close> on a timestamp column, by its text; rows that tie keep the table's order.\<close>

fun insert_by :: "('a \<Rightarrow> 'a \<Rightarrow> bool) \<Rightarrow> 'a \<Rightarrow> 'a list \<Rightarrow> 'a list" where
  "insert_by le x [] = [x]"
| "insert_by le x (y # ys) = (if le x y then x # y # ys else y # insert_by le x ys)"

definition order_by :: "('a \<Rightarrow> 'a \<Rightarrow> bool) \<Rightarrow> 'a list \<Rightarrow> 'a list" where
  "order_by le xs = foldr (insert_by le) xs []"

definition get_fills_since :: "Store \<Rightarrow> string \<Rightarrow> string \<Rightarrow> instant \<Rightarrow> (FillRow \<times> instant) list" where
  "get_fills_since s b a since =
     order_by (\<lambda>x y. text_le (isoformat (fr_filled_at (fst x))) (isoformat (fr_filled_at (fst y))))
       (filter (\<lambda>(r, c). fr_broker r = b \<and> fr_account_id r = a
           \<and> text_le (isoformat since) (isoformat (fr_filled_at r))) (fills s))"

section \<open>equity_snapshots\<close>

definition equity_key :: "EquityRow \<Rightarrow> instant \<times> string \<times> string \<times> string" where
  "equity_key r = (er_snapshot_at r, er_snapshot_session r, er_broker r, er_account_id r)"

definition equity_storable :: "EquityRow \<Rightarrow> bool" where
  "equity_storable r =
     (NaN \<notin> set [er_net_liquidation_native r, er_net_liquidation_usd r,
                 er_gross_position_value_usd r, er_cash_usd r])"

definition insert_equity_snapshot :: "Store \<Rightarrow> EquityRow \<times> instant \<Rightarrow> Store \<times> bool" where
  "insert_equity_snapshot s rc =
     (case rc of (r, captured_at) \<Rightarrow>
        if equity_storable r \<and> equity_key r \<notin> (equity_key \<circ> fst) ` set (equity_snapshots s)
        then (s\<lparr>equity_snapshots := equity_snapshots s @ [(r, captured_at)]\<rparr>, True)
        else (s, False))"

definition get_equity_snapshots_since ::
    "Store \<Rightarrow> string \<Rightarrow> string \<Rightarrow> instant \<Rightarrow> (EquityRow \<times> instant) list" where
  "get_equity_snapshots_since s b a since =
     order_by (\<lambda>x y. text_le (isoformat (er_snapshot_at (fst x))) (isoformat (er_snapshot_at (fst y))))
       (filter (\<lambda>(r, c). er_broker r = b \<and> er_account_id r = a
           \<and> text_le (isoformat since) (isoformat (er_snapshot_at r))) (equity_snapshots s))"

text \<open>The groups of \<open>GROUP BY snapshot_at, snapshot_session\<close> and their order.\<close>

definition group_of :: "EquityRow \<Rightarrow> instant \<times> string" where
  "group_of r = (er_snapshot_at r, er_snapshot_session r)"

definition group_le :: "instant \<times> string \<Rightarrow> instant \<times> string \<Rightarrow> bool" where
  "group_le g h =
     (if isoformat (fst g) = isoformat (fst h) then text_le (snd g) (snd h)
      else text_le (isoformat (fst g)) (isoformat (fst h)))"

definition history_rows :: "Store \<Rightarrow> instant \<Rightarrow> int \<Rightarrow> string option \<Rightarrow> EquityRow list" where
  "history_rows s now n account =
     filter (\<lambda>r. (case account of None \<Rightarrow> True | Some a \<Rightarrow> er_account_id r = a)
         \<and> text_le (isoformat (now - days n)) (isoformat (er_snapshot_at r)))
       (map fst (equity_snapshots s))"

definition get_equity_history :: "Store \<Rightarrow> instant \<Rightarrow> int \<Rightarrow> string option \<Rightarrow> (instant \<times> fl) list" where
  "get_equity_history s now n account =
     (let rows = history_rows s now n account
      in map (\<lambda>g. (fst g, sum_list (map er_net_liquidation_usd (filter (\<lambda>r. group_of r = g) rows))))
           (order_by group_le (remdups (map group_of rows))))"

text \<open>\<open>build_equity_snapshot_row\<close>; \<open>aware\<close> is whether the datetime carries a zone.\<close>

definition build_equity_snapshot_row ::
    "AccountSummary \<Rightarrow> instant \<Rightarrow> bool \<Rightarrow> string \<Rightarrow> EquityRow result" where
  "build_equity_snapshot_row a snapshot_at aware session =
     (if session = [] then Inl (ValueError ''snapshot_session must be non-empty'')
      else if \<not> aware then Inl (ValueError ''snapshot_at must be timezone-aware'')
      else Inr \<lparr>er_snapshot_at = snapshot_at, er_snapshot_session = session,
                er_broker = as_broker a, er_account_id = as_account_id a,
                er_base_currency = base_currency a,
                er_net_liquidation_native = net_liquidation_native a,
                er_net_liquidation_usd = net_liquidation_usd a,
                er_gross_position_value_usd = gross_position_value_usd a,
                er_cash_usd = cash_usd a\<rparr>)"

text \<open>A loop that inserts rows and counts the new ones.\<close>

fun insert_batch :: "('s \<Rightarrow> 'r \<Rightarrow> 's \<times> bool) \<Rightarrow> 's \<Rightarrow> 'r list \<Rightarrow> 's \<times> nat" where
  "insert_batch ins s [] = (s, 0)"
| "insert_batch ins s (r # rs) =
     (case ins s r of (s', new) \<Rightarrow>
      (case insert_batch ins s' rs of (s'', n) \<Rightarrow> (s'', (if new then 1 else 0) + n)))"

section \<open>The name cache as an expiring cache\<close>

text \<open>What the resolver relies on: an entry answers for its own key until it expires.\<close>

locale expiring_cache =
  fixes get :: "'s \<Rightarrow> instant \<Rightarrow> string \<Rightarrow> string \<Rightarrow> 'v option"
    and put :: "'s \<Rightarrow> instant \<Rightarrow> string \<Rightarrow> string \<Rightarrow> 'v \<Rightarrow> 's"
    and ttl :: int
    and clock_ok :: "instant \<Rightarrow> bool"
  assumes get_put: "clock_ok t0 \<Longrightarrow> clock_ok t \<Longrightarrow>
      get (put s t0 b k v) t b k = (if t \<le> t0 + ttl then Some v else None)"
    and get_put_other: "(b', k') \<noteq> (b, k) \<Longrightarrow> get (put s t0 b k v) t b' k' = get s t b' k'"
begin

lemma resolve_miss:
  assumes "get s t0 b k = None"
  shows "resolve get put s t0 (Inr (Some v)) b k = (put s t0 b k v, Inr (Some v))"
  using assms by (simp add: resolve_def)

text \<open>Until it expires, a resolved entry answers whatever the fetcher would do.\<close>

lemma resolve_again:
  assumes "clock_ok t0" "clock_ok t" "t \<le> t0 + ttl"
  shows "resolve get put (put s t0 b k v) t fetched b k = (put s t0 b k v, Inr (Some v))"
  using assms by (simp add: resolve_def get_put)

lemma resolve_expired:
  assumes "clock_ok t0" "clock_ok t" "t0 + ttl < t"
  shows "resolve get put (put s t0 b k v) t (Inr (Some w)) b k
    = (put (put s t0 b k v) t b k w, Inr (Some w))"
  using assms by (simp add: resolve_def get_put)

lemma resolve_no_negative:
  assumes "get s t b k = None" "fetched = Inl e \<or> fetched = Inr None"
  shows "fst (resolve get put s t fetched b k) = s"
  using assms by (auto simp: resolve_def)

lemma resolve_other:
  assumes "(b', k') \<noteq> (b, k)"
  shows "get (fst (resolve get put s t0 fetched b k)) t b' k' = get s t b' k'"
  using assms by (auto simp: resolve_def get_put_other split: option.splits sum.splits)

end

definition cache_clock_ok :: "instant \<Rightarrow> bool" where
  "cache_clock_ok t = (days NAME_CACHE_TTL_DAYS \<le> t \<and> t < max_instant)"

lemma days_nonneg: "0 \<le> n \<Longrightarrow> 0 \<le> days n"
  by (simp add: days_def day_us_def)

lemma ttl_nonneg: "0 \<le> days NAME_CACHE_TTL_DAYS"
  by (rule days_nonneg) (simp add: NAME_CACHE_TTL_DAYS_def)

interpretation names: expiring_cache get_name_cache put_name_cache
  "days NAME_CACHE_TTL_DAYS" cache_clock_ok
proof
  fix t0 t :: instant and s :: Store and b k :: string and v :: "string \<times> string \<times> int"
  assume ok: "cache_clock_ok t0" "cache_clock_ok t"
  have "text_le (isoformat (t - days NAME_CACHE_TTL_DAYS)) (isoformat t0) \<longleftrightarrow>
      t - days NAME_CACHE_TTL_DAYS \<le> t0"
    using ok ttl_nonneg unfolding cache_clock_ok_def by (intro isoformat_order_lemma) linarith+
  then show "get_name_cache (put_name_cache s t0 b k v) t b k
      = (if t \<le> t0 + days NAME_CACHE_TTL_DAYS then Some v else None)"
    by (auto simp: get_name_cache_def put_name_cache_def dict_simps split: prod.splits)
next
  fix b' k' b k :: string and t0 t :: instant and s :: Store and v :: "string \<times> string \<times> int"
  assume "(b', k') \<noteq> (b, k)"
  then have "(b, k) \<noteq> (b', k')" by blast
  then show "get_name_cache (put_name_cache s t0 b k v) t b' k' = get_name_cache s t b' k'"
    by (cases v) (auto simp: get_name_cache_def put_name_cache_def dict_simps)
qed

section \<open>Tables that insert a key once\<close>

text \<open>
  The interface \<open>INSERT OR IGNORE\<close> gives the jobs: a row is written if it can be stored and its
  key is new, and otherwise nothing happens.
\<close>

locale insert_once =
  fixes ins :: "'s \<Rightarrow> 'r \<Rightarrow> 's \<times> bool"
    and rows :: "'s \<Rightarrow> 'r list"
    and key :: "'r \<Rightarrow> 'k"
    and storable :: "'r \<Rightarrow> bool"
    and stored :: "'r \<Rightarrow> 'r"
  assumes ins_new: "snd (ins s r) \<longleftrightarrow> storable r \<and> key r \<notin> key ` set (rows s)"
    and ins_rows: "snd (ins s r) \<Longrightarrow> rows (fst (ins s r)) = rows s @ [stored r]"
    and ins_same: "\<not> snd (ins s r) \<Longrightarrow> fst (ins s r) = s"
    and key_stored: "key (stored r) = key r"
begin

lemma batch_Cons:
  "fst (insert_batch ins s (r # rs)) = fst (insert_batch ins (fst (ins s r)) rs)"
  "snd (insert_batch ins s (r # rs)) =
     (if snd (ins s r) then 1 else 0) + snd (insert_batch ins (fst (ins s r)) rs)"
  by (simp_all split: prod.splits)

lemma ins_keys:
  "key ` set (rows (fst (ins s r))) = key ` set (rows s) \<union> (if storable r then {key r} else {})"
  using ins_rows [of s r] ins_same [of s r] ins_new [of s r] key_stored [of r]
  by (cases "snd (ins s r)") auto

lemma batch_keys:
  "key ` set (rows (fst (insert_batch ins s rs))) =
     key ` set (rows s) \<union> key ` {r \<in> set rs. storable r}"
  by (induction rs arbitrary: s) (auto simp: batch_Cons ins_keys simp del: insert_batch.simps(2))

lemma batch_noop:
  "list_all (\<lambda>r. storable r \<longrightarrow> key r \<in> key ` set (rows s)) rs \<Longrightarrow> insert_batch ins s rs = (s, 0)"
proof (induction rs)
  case (Cons r rs)
  then have "\<not> snd (ins s r)" by (simp add: ins_new)
  with Cons ins_same [of s r] show ?case by (cases "ins s r") simp
qed simp

lemma batch_rerun:
  "set rs' \<subseteq> set rs \<Longrightarrow>
     insert_batch ins (fst (insert_batch ins s rs)) rs' = (fst (insert_batch ins s rs), 0)"
  by (rule batch_noop) (auto simp: list_all_iff batch_keys)

lemma batch_appends:
  "\<exists>new. rows (fst (insert_batch ins s rs)) = rows s @ new \<and> length new = snd (insert_batch ins s rs)
     \<and> set new \<subseteq> stored ` set rs"
proof (induction rs arbitrary: s)
  case (Cons r rs)
  obtain new where new: "rows (fst (insert_batch ins (fst (ins s r)) rs)) = rows (fst (ins s r)) @ new"
    "length new = snd (insert_batch ins (fst (ins s r)) rs)" "set new \<subseteq> stored ` set rs"
    using Cons.IH by blast
  show ?case
  proof (cases "snd (ins s r)")
    case True
    with new ins_rows [OF True] show ?thesis
      by (intro exI [of _ "stored r # new"])
        (auto simp: batch_Cons simp del: insert_batch.simps(2))
  next
    case False
    with new ins_same [OF False] show ?thesis
      by (intro exI [of _ new]) (auto simp: batch_Cons simp del: insert_batch.simps(2))
  qed
qed simp

lemma batch_distinct:
  "distinct (map key (rows s)) \<Longrightarrow> distinct (map key (rows (fst (insert_batch ins s rs))))"
proof (induction rs arbitrary: s)
  case (Cons r rs)
  have "distinct (map key (rows (fst (ins s r))))"
    using Cons.prems ins_rows [of s r] ins_same [of s r] ins_new [of s r] key_stored [of r]
    by (cases "snd (ins s r)") auto
  then show ?case using Cons.IH by (simp add: batch_Cons del: insert_batch.simps(2))
qed simp

end

interpretation fills_once: insert_once insert_fill fills "fill_key \<circ> fst" "fill_storable \<circ> fst"
  "\<lambda>(r, c). (fill_stored r, c)"
  by unfold_locales
    (force simp: insert_fill_def fill_key_def fill_stored_def split: if_splits prod.splits)+

interpretation equity_once: insert_once insert_equity_snapshot equity_snapshots "equity_key \<circ> fst"
  "equity_storable \<circ> fst" "\<lambda>r. r"
  by unfold_locales (force simp: insert_equity_snapshot_def split: if_splits prod.splits)+

section \<open>Ordered queries\<close>

lemma mset_insert_by [simp]: "mset (insert_by le x ys) = add_mset x (mset ys)"
  by (induction ys) auto

lemma mset_order_by [simp]: "mset (order_by le xs) = mset xs"
  by (induction xs) (auto simp: order_by_def)

lemma set_insert_by [simp]: "set (insert_by le x ys) = insert x (set ys)"
  by (induction ys) auto

lemma set_order_by [simp]: "set (order_by le xs) = set xs"
  by (induction xs) (auto simp: order_by_def)

lemma sorted_insert_by:
  assumes total: "\<And>x y. le x y \<or> le y x" and trans: "\<And>x y z. le x y \<Longrightarrow> le y z \<Longrightarrow> le x z"
  shows "sorted_wrt le ys \<Longrightarrow> sorted_wrt le (insert_by le x ys)"
proof (induction ys)
  case (Cons y ys)
  then show ?case using total [of x y] by (auto intro: trans)
qed simp

lemma sorted_order_by:
  assumes "\<And>x y. le x y \<or> le y x" "\<And>x y z. le x y \<Longrightarrow> le y z \<Longrightarrow> le x z"
  shows "sorted_wrt le (order_by le xs)"
  by (induction xs) (simp_all add: order_by_def sorted_insert_by [of le, OF assms])

lemma text_le_total: "text_le x y \<or> text_le y x"
proof (induction x y rule: text_le.induct)
  case (3 c cs d ds)
  then show ?case
    by (metis linorder_neqE_nat of_char_eq_iff text_le.simps(3))
qed auto

lemma text_le_trans: "text_le x y \<Longrightarrow> text_le y z \<Longrightarrow> text_le x z"
proof (induction x arbitrary: y z)
  case (Cons c cs)
  from Cons.prems obtain d ds where y: "y = d # ds" by (cases y) auto
  from Cons.prems y obtain e es where z: "z = e # es" by (cases z) auto
  from Cons.prems y z Cons.IH [of ds es] show ?case by auto
qed simp

lemma text_le_antisym: "text_le x y \<Longrightarrow> text_le y x \<Longrightarrow> x = y"
  by (induction x y rule: text_le.induct) (auto elim: text_le.elims)

lemma sorted_times:
  assumes "sorted_wrt (\<lambda>x y. text_le (isoformat (f x)) (isoformat (f y))) xs"
    and "\<And>x. x \<in> set xs \<Longrightarrow> 0 \<le> f x \<and> f x < max_instant"
  shows "sorted (map f xs)"
  using assms by (induction xs) (auto simp: isoformat_order_lemma)

section \<open>Sums over groups\<close>

lemma sum_list_groups:
  fixes v :: "'a \<Rightarrow> 'c :: comm_monoid_add"
  assumes "distinct gs" "f ` set rows \<subseteq> set gs"
  shows "sum_list (map (\<lambda>g. sum_list (map v (filter (\<lambda>r. f r = g) rows))) gs) = sum_list (map v rows)"
  using assms(2)
proof (induction rows)
  case Nil
  then show ?case by (simp add: sum_list_0)
next
  case (Cons r rows)
  let ?S = "\<lambda>rows g. sum_list (map v (filter (\<lambda>r. f r = g) rows))"
  have "sum_list (map (?S (r # rows)) gs) = (\<Sum>g\<in>set gs. ?S (r # rows) g)"
    using assms(1) by (rule sum_list_distinct_conv_sum_set)
  also have "\<dots> = (\<Sum>g\<in>set gs. (if f r = g then v r else 0) + ?S rows g)"
    by (rule sum.cong) auto
  also have "\<dots> = v r + (\<Sum>g\<in>set gs. ?S rows g)"
    using Cons.prems by (simp add: sum.distrib sum.delta)
  also have "(\<Sum>g\<in>set gs. ?S rows g) = sum_list (map (?S rows) gs)"
    using assms(1) by (rule sum_list_distinct_conv_sum_set [symmetric])
  finally show ?case using Cons by simp
qed

lemma order_by_sum: "sum_list (map v (order_by le xs)) = sum_list (map v xs)"
  for v :: "'a \<Rightarrow> 'c :: comm_monoid_add"
  by (metis mset_map mset_order_by sum_mset_sum_list)

lemma distinct_order_by [simp]: "distinct (order_by le xs) = distinct xs"
  by (metis mset_eq_imp_distinct_iff mset_order_by)

lemma history_rows_mem:
  "r \<in> set (history_rows s now n account) \<Longrightarrow> r \<in> set (map fst (equity_snapshots s))"
  by (simp add: history_rows_def)

lemma history_rows_in_time:
  assumes "list_all (\<lambda>(r, c). 0 \<le> er_snapshot_at r \<and> er_snapshot_at r < max_instant) (equity_snapshots s)"
    and "0 \<le> now - days n" "now - days n < max_instant"
  shows "history_rows s now n account =
    filter (\<lambda>r. (account = None \<or> account = Some (er_account_id r)) \<and> now - days n \<le> er_snapshot_at r)
      (map fst (equity_snapshots s))"
  unfolding history_rows_def
  by (rule filter_cong)
    (use assms in \<open>auto simp: list_all_iff isoformat_order_lemma split: option.splits\<close>)

lemma group_le_total: "group_le x y \<or> group_le y x"
  using text_le_total by (simp add: group_le_def)

lemma group_le_trans:
  assumes "group_le x y" "group_le y z"
  shows "group_le x z"
proof -
  let ?t = "\<lambda>g. isoformat (fst g)"
  consider "?t x = ?t y" "?t y = ?t z" | "?t x = ?t y" "?t y \<noteq> ?t z" | "?t x \<noteq> ?t y" "?t y = ?t z"
    | "?t x \<noteq> ?t y" "?t y \<noteq> ?t z" by blast
  then show ?thesis
  proof cases
    case 1
    with assms text_le_trans [of "snd x" "snd y" "snd z"] show ?thesis by (simp add: group_le_def)
  next
    case 4
    with assms have le: "text_le (?t x) (?t y)" "text_le (?t y) (?t z)" by (simp_all add: group_le_def)
    with 4 have "?t x \<noteq> ?t z" using text_le_antisym by metis
    with text_le_trans [OF le] show ?thesis by (simp add: group_le_def)
  qed (use assms in \<open>simp_all add: group_le_def\<close>)
qed

lemma get_fills_since_lemma:
  assumes "\<And>r c. (r, c) \<in> set (fills s) \<Longrightarrow> 0 \<le> fr_filled_at r \<and> fr_filled_at r < max_instant"
    and "0 \<le> since" "since < max_instant"
  shows "mset (get_fills_since s b a since) =
      mset (filter (\<lambda>(r, c). fr_broker r = b \<and> fr_account_id r = a \<and> since \<le> fr_filled_at r) (fills s))"
    and "sorted (map (fr_filled_at \<circ> fst) (get_fills_since s b a since))"
proof -
  have "filter (\<lambda>(r, c). fr_broker r = b \<and> fr_account_id r = a
        \<and> text_le (isoformat since) (isoformat (fr_filled_at r))) (fills s) =
      filter (\<lambda>(r, c). fr_broker r = b \<and> fr_account_id r = a \<and> since \<le> fr_filled_at r) (fills s)"
    by (rule filter_cong) (use assms in \<open>auto simp: isoformat_order_lemma\<close>)
  then show "mset (get_fills_since s b a since) =
      mset (filter (\<lambda>(r, c). fr_broker r = b \<and> fr_account_id r = a \<and> since \<le> fr_filled_at r) (fills s))"
    by (simp add: get_fills_since_def)
  show "sorted (map (fr_filled_at \<circ> fst) (get_fills_since s b a since))"
    unfolding get_fills_since_def
  proof (rule sorted_times)
    show "sorted_wrt (\<lambda>x y. text_le (isoformat ((fr_filled_at \<circ> fst) x)) (isoformat ((fr_filled_at \<circ> fst) y)))
      (order_by (\<lambda>x y. text_le (isoformat (fr_filled_at (fst x))) (isoformat (fr_filled_at (fst y))))
       (filter (\<lambda>(r, c). fr_broker r = b \<and> fr_account_id r = a
           \<and> text_le (isoformat since) (isoformat (fr_filled_at r))) (fills s)))"
      unfolding o_def by (rule sorted_order_by) (use text_le_total text_le_trans in blast)+
  qed (use assms(1) in force)
qed

lemma get_equity_history_sum:
  "sum_list (map snd (get_equity_history s now n account)) =
     sum_list (map er_net_liquidation_usd (history_rows s now n account))"
  unfolding get_equity_history_def Let_def
  by (simp add: o_def sum_list_groups)

lemma get_equity_history_sorted:
  assumes "\<And>r c. (r, c) \<in> set (equity_snapshots s) \<Longrightarrow>
      0 \<le> er_snapshot_at r \<and> er_snapshot_at r < max_instant"
  shows "sorted (map fst (get_equity_history s now n account))"
proof -
  let ?gs = "order_by group_le (remdups (map group_of (history_rows s now n account)))"
  have "sorted_wrt group_le ?gs" by (rule sorted_order_by [OF group_le_total group_le_trans])
  then have "sorted_wrt (\<lambda>x y. text_le (isoformat (fst x)) (isoformat (fst y))) ?gs"
    by (rule sorted_wrt_mono_rel [rotated]) (auto simp: group_le_def split: if_splits)
  then have "sorted (map fst ?gs)"
    by (rule sorted_times)
      (use assms in \<open>fastforce simp: group_of_def dest: history_rows_mem\<close>)
  then show ?thesis by (simp add: get_equity_history_def Let_def o_def)
qed

section \<open>Properties\<close>

text \<open>Once a name has been fetched, the resolver answers it from the cache for thirty days
  whatever the fetcher would do, and asks again after that; a fetch that fails or finds nothing
  leaves the cache as it was.\<close>
theorem resolve_caches_thirty_days:
  assumes "get_name_cache s t0 b k = None" "cache_clock_ok t0" "cache_clock_ok t" "t0 \<le> t"
    and s': "s' = fst (resolve get_name_cache put_name_cache s t0 (Inr (Some e)) b k)"
  shows "resolve get_name_cache put_name_cache s' t fetched b k =
      (if t \<le> t0 + days 30 then (s', Inr (Some e))
       else (case fetched of Inr (Some e') \<Rightarrow> (put_name_cache s' t b k e', Inr (Some e')) | r \<Rightarrow> (s', r)))"
proof -
  have s: "s' = put_name_cache s t0 b k e" using names.resolve_miss [OF assms(1)] s' by simp
  have ttl: "days 30 = days NAME_CACHE_TTL_DAYS" by (simp add: NAME_CACHE_TTL_DAYS_def)
  show ?thesis
    using names.get_put [OF assms(2,3), of s b k e]
    unfolding s ttl by (auto simp: resolve_def split: sum.splits option.splits)
qed

definition empty_store :: Store where
  "empty_store = \<lparr>name_cache_cols = [''price_magnifier''], name_cache = [], fx_cache = [],
     fills = [], equity_snapshots = []\<rparr>"

theorem resolve_caches_thirty_days_witness:
  "resolve get_name_cache put_name_cache
     (fst (resolve get_name_cache put_name_cache empty_store (days 700000)
        (Inr (Some (''IQE.UK'', ''IQE PLC'', 100))) ''ibkr'' ''123'')) (days 700030) (Inl TimeoutError)
     ''ibkr'' ''123''
   = (fst (resolve get_name_cache put_name_cache empty_store (days 700000)
        (Inr (Some (''IQE.UK'', ''IQE PLC'', 100))) ''ibkr'' ''123''), Inr (Some (''IQE.UK'', ''IQE PLC'', 100)))"
proof -
  have none: "get_name_cache empty_store (days 700000) ''ibkr'' ''123'' = None"
    by (simp add: get_name_cache_def empty_store_def)
  have ok: "cache_clock_ok (days 700000)" "cache_clock_ok (days 700030)" "days 700000 \<le> days 700030"
    by (simp_all add: cache_clock_ok_def max_instant_def days_def day_us_def NAME_CACHE_TTL_DAYS_def)
  have "days 700030 \<le> days 700000 + days 30" by (simp add: days_def day_us_def)
  with resolve_caches_thirty_days [OF none ok refl, of "(''IQE.UK'', ''IQE PLC'', 100)" "Inl TimeoutError"]
  show ?thesis by simp
qed

text \<open>Recording fills is idempotent: a batch leaves one row per broker and execution id, keeps the
  rows that were there as they were, counts exactly the rows it added, and running it or any part
  of it again writes nothing and reports none.\<close>
theorem insert_fill_idempotent:
  assumes "set again \<subseteq> set batch" "distinct (map (fill_key \<circ> fst) (fills s))"
    and "insert_batch insert_fill s batch = (s', n)"
  shows "insert_batch insert_fill s' again = (s', 0)
    \<and> (\<exists>new. fills s' = fills s @ new \<and> length new = n)
    \<and> distinct (map (fill_key \<circ> fst) (fills s'))
    \<and> (fill_key \<circ> fst) ` set (fills s') = (fill_key \<circ> fst) ` set (fills s)
        \<union> (fill_key \<circ> fst) ` {r \<in> set batch. (fill_storable \<circ> fst) r}"
proof -
  have s': "s' = fst (insert_batch insert_fill s batch)" "n = snd (insert_batch insert_fill s batch)"
    using assms(3) by simp_all
  show ?thesis
    unfolding s'
    using fills_once.batch_rerun [OF assms(1), of s] fills_once.batch_appends [of s batch]
      fills_once.batch_distinct [OF assms(2), of batch] fills_once.batch_keys [of s batch]
    by (intro conjI) (assumption | blast)+
qed

definition demo_fill :: "string \<Rightarrow> fl \<Rightarrow> instant \<Rightarrow> FillRow" where
  "demo_fill eid price t =
     \<lparr>fr_broker = ''ibkr'', fr_account_id = ''U1'', fr_execution_id = eid,
      fr_canonical_symbol = ''NVDA.US'', fr_native_key = ''4815747'', fr_asset_class = ''STK'',
      fr_side = ''BUY'', fr_quantity = 10, fr_price = price, fr_currency = ''USD'',
      fr_fx_rate_at_fill = None, fr_fees_native = Some 1, fr_fees_usd = Some 1, fr_filled_at = t\<rparr>"

theorem insert_fill_idempotent_witness:
  "snd (insert_batch insert_fill empty_store [(demo_fill ''e1'' 100 5, 7), (demo_fill ''e1'' 101 5, 8)]) = 1
   \<and> insert_batch insert_fill
      (fst (insert_batch insert_fill empty_store [(demo_fill ''e1'' 100 5, 7), (demo_fill ''e1'' 101 5, 8)]))
      [(demo_fill ''e1'' 101 5, 8)]
     = (fst (insert_batch insert_fill empty_store [(demo_fill ''e1'' 100 5, 7), (demo_fill ''e1'' 101 5, 8)]), 0)"
proof -
  have "distinct (map (fill_key \<circ> fst) (fills empty_store))" by (simp add: empty_store_def)
  moreover have "snd (insert_batch insert_fill empty_store
      [(demo_fill ''e1'' 100 5, 7), (demo_fill ''e1'' 101 5, 8)]) = 1"
    by (simp add: insert_fill_def fill_storable_def fill_key_def demo_fill_def empty_store_def
        fill_stored_def fl_simps)
  ultimately show ?thesis
    using insert_fill_idempotent [of "[(demo_fill ''e1'' 101 5, 8)]"
        "[(demo_fill ''e1'' 100 5, 7), (demo_fill ''e1'' 101 5, 8)]" empty_store
        "fst (insert_batch insert_fill empty_store [(demo_fill ''e1'' 100 5, 7), (demo_fill ''e1'' 101 5, 8)])" 1]
    by (simp add: prod_eq_iff)
qed

text \<open>A query for fills since an instant returns exactly the account's fills at or after it,
  oldest first, although the database compares and orders the texts of the timestamps.\<close>
theorem get_fills_since_exact:
  assumes "list_all (\<lambda>(r, c). 0 \<le> fr_filled_at r \<and> fr_filled_at r < max_instant) (fills s)"
    and "0 \<le> since" "since < max_instant"
  shows "mset (get_fills_since s b a since) =
      mset (filter (\<lambda>(r, c). fr_broker r = b \<and> fr_account_id r = a \<and> since \<le> fr_filled_at r) (fills s))
    \<and> sorted (map (fr_filled_at \<circ> fst) (get_fills_since s b a since))"
  by (intro conjI get_fills_since_lemma) (use assms in \<open>auto simp: list_all_iff\<close>)

theorem get_fills_since_exact_witness:
  "mset (get_fills_since (empty_store\<lparr>fills := [(demo_fill ''e2'' 1 9, 9), (demo_fill ''e1'' 1 5, 9)]\<rparr>) ''ibkr'' ''U1'' 5) =
   mset [(demo_fill ''e2'' 1 9, 9), (demo_fill ''e1'' 1 5, 9)]"
  using get_fills_since_exact [of "empty_store\<lparr>fills := [(demo_fill ''e2'' 1 9, 9), (demo_fill ''e1'' 1 5, 9)]\<rparr>" 5 "''ibkr''" "''U1''"]
  by (simp add: demo_fill_def max_instant_def days_def day_us_def)

text \<open>C37. The equity history groups the snapshots in range without losing or repeating one: its
  points are in time order, and over all points their values add up to the net liquidation values
  of exactly the selected snapshots.\<close>
theorem equity_history_total:
  assumes "list_all (\<lambda>(r, c). 0 \<le> er_snapshot_at r \<and> er_snapshot_at r < max_instant) (equity_snapshots s)"
    and "0 \<le> now - days n" "now - days n < max_instant"
  shows "sorted (map fst (get_equity_history s now n account))
    \<and> sum_list (map snd (get_equity_history s now n account)) =
      sum_list (map er_net_liquidation_usd
        (filter (\<lambda>r. (account = None \<or> account = Some (er_account_id r)) \<and> now - days n \<le> er_snapshot_at r)
          (map fst (equity_snapshots s))))"
proof (rule conjI)
  show "sorted (map fst (get_equity_history s now n account))"
    by (rule get_equity_history_sorted) (use assms in \<open>auto simp: list_all_iff\<close>)
  show "sum_list (map snd (get_equity_history s now n account)) =
      sum_list (map er_net_liquidation_usd
        (filter (\<lambda>r. (account = None \<or> account = Some (er_account_id r)) \<and> now - days n \<le> er_snapshot_at r)
          (map fst (equity_snapshots s))))"
    unfolding get_equity_history_sum history_rows_in_time [OF assms] ..
qed

definition demo_equity :: "string \<Rightarrow> string \<Rightarrow> instant \<Rightarrow> EquityRow" where
  "demo_equity b session t =
     \<lparr>er_snapshot_at = t, er_snapshot_session = session, er_broker = b, er_account_id = ''A'',
      er_base_currency = ''USD'', er_net_liquidation_native = 100, er_net_liquidation_usd = 100,
      er_gross_position_value_usd = 90, er_cash_usd = 10\<rparr>"

theorem equity_history_total_witness:
  "sum_list (map snd (get_equity_history
     (empty_store\<lparr>equity_snapshots := [(demo_equity ''ibkr'' ''NYSE_CLOSE'' (days 700000), 1),
        (demo_equity ''tiger'' ''NYSE_CLOSE'' (days 700000), 1),
        (demo_equity ''tiger'' ''NYSE_CLOSE'' (days 699993), 1)]\<rparr>) (days 700001) 7 None)) = 200"
proof -
  let ?s = "empty_store\<lparr>equity_snapshots := [(demo_equity ''ibkr'' ''NYSE_CLOSE'' (days 700000), 1),
        (demo_equity ''tiger'' ''NYSE_CLOSE'' (days 700000), 1),
        (demo_equity ''tiger'' ''NYSE_CLOSE'' (days 699993), 1)]\<rparr>"
  have "list_all (\<lambda>(r, c). 0 \<le> er_snapshot_at r \<and> er_snapshot_at r < max_instant) (equity_snapshots ?s)"
    "0 \<le> days 700001 - days 7" "days 700001 - days 7 < max_instant"
    by (simp_all add: demo_equity_def max_instant_def days_def day_us_def)
  from conjunct2 [OF equity_history_total [OF this, of None]]
  show ?thesis by (simp add: demo_equity_def days_def day_us_def)
qed

end
