(* ===== verification/Fx.thy ===== *)
theory Fx
  imports Store Symbols
begin

text \<open>
  \<open>app/core/fx.py\<close>: rates to USD from two sources, IB ticks and a public API, with the choice
  between them at every read, their persistence in \<open>fx_cache\<close>, the IB subscriptions, and the rule
  that onshore renminbi (CNY) is never taken for offshore renminbi (CNH).
\<close>

definition SUPPORTED_FX :: "string list" where
  "SUPPORTED_FX = [''HKD'', ''JPY'', ''KRW'', ''TWD'', ''CNH'', ''AUD'', ''GBP'', ''EUR'', ''SGD'',
     ''CHF'', ''CAD'', ''SEK'']"

definition IB_DIRECT_USD_TERMS :: "string list" where
  "IB_DIRECT_USD_TERMS = [''AUD'', ''EUR'', ''GBP'']"

definition IB_FX_UNSUPPORTED_CURRENCIES :: "string list" where
  "IB_FX_UNSUPPORTED_CURRENCIES = [''TWD'']"

definition IB_STALENESS_SECONDS :: int where
  "IB_STALENESS_SECONDS = 60"

definition pair_for :: "string \<Rightarrow> string" where
  "pair_for c = c @ ''USD''"

definition ib_pair_for :: "string \<Rightarrow> string \<times> bool" where
  "ib_pair_for c =
     (if c \<in> set IB_DIRECT_USD_TERMS then (pair_for c, False) else (''USD'' @ c, True))"

text \<open>\<open>_default_forex_factory\<close>: the third-party \<open>Forex\<close> constructor is a parameter.\<close>

definition default_forex_factory :: "(string \<Rightarrow> 'c) \<Rightarrow> string \<Rightarrow> 'c" where
  "default_forex_factory forex c = forex (fst (ib_pair_for c))"

record FxRate =
  r_pair :: string
  r_rate :: fl
  r_quoted_at :: instant
  r_is_stale :: bool
  r_source :: FxSource

record FxConversion =
  conv_mv_usd :: fl
  conv_pnl_usd :: fl
  conv_is_stale :: bool
  conv_is_fallback :: bool
  conv_unavailable :: bool

definition is_fx_market_open :: "instant \<Rightarrow> bool" where
  "is_fx_market_open t =
     (if weekday t = 5 then False
      else if weekday t = 6 then 22 \<le> hour t
      else if weekday t = 4 then hour t < 22
      else True)"

definition validate_currency :: "string \<Rightarrow> unit result" where
  "validate_currency code =
     (if code = ''USD'' then Inr ()
      else if code = ''CNY'' then Inl (ValueError ''CNY not supported'')
      else if code \<notin> set SUPPORTED_FX then Inl (ValueError ''Currency not in SUPPORTED_FX'')
      else Inr ())"

section \<open>The service\<close>

text \<open>
  The state of \<open>FxService\<close>: the store it was built with, whether an IB instance is attached, the
  two buckets of rates, the live subscriptions, and the currencies it has logged as unsupported.
  A subscription is its currency and the \<open>invert\<close> its handler closes over. \<open>fx_handlers\<close> holds the
  handlers of earlier IB instances too: their tickers are abandoned, not detached. \<open>fx_tasks\<close> are
  the persistence tasks the handlers scheduled and that have not run yet.
\<close>

record FxService =
  fx_store :: "Store option"
  fx_ib :: bool
  ib_rates :: "(string, FxRate) dict"
  api_rates :: "(string, FxRate) dict"
  tickers :: "(string, bool) dict"
  unsupported_seen :: "string list"
  fx_handlers :: "(string \<times> bool) list"
  fx_tasks :: "FxRate list"

definition fx_new :: "Store option \<Rightarrow> bool \<Rightarrow> FxService" where
  "fx_new st ib = \<lparr>fx_store = st, fx_ib = ib, ib_rates = [], api_rates = [], tickers = [],
     unsupported_seen = [], fx_handlers = [], fx_tasks = []\<rparr>"

text \<open>The bucket a rate belongs to.\<close>

definition put_bucket :: "FxService \<Rightarrow> string \<Rightarrow> FxRate \<Rightarrow> FxService" where
  "put_bucket s c r =
     (if r_source r = IB then s\<lparr>ib_rates := AList.update c r (ib_rates s)\<rparr>
      else s\<lparr>api_rates := AList.update c r (api_rates s)\<rparr>)"

definition load_cached :: "FxService \<Rightarrow> Store \<Rightarrow> string \<Rightarrow> FxService" where
  "load_cached s st c =
     (case get_fx_rate st (pair_for c) of
        None \<Rightarrow> s
      | Some row \<Rightarrow> put_bucket s c \<lparr>r_pair = pair_for c, r_rate = fc_rate row,
          r_quoted_at = fc_quoted_at row, r_is_stale = False, r_source = fc_source row\<rparr>)"

text \<open>A failing write to the database is logged and dropped; \<open>db\<close> says whether it works.\<close>

definition persist_rate :: "FxService \<Rightarrow> instant \<Rightarrow> bool \<Rightarrow> FxRate \<Rightarrow> FxService" where
  "persist_rate s now db r =
     (case fx_store s of
        None \<Rightarrow> s
      | Some st \<Rightarrow>
          (case (if db then put_fx_rate st now (r_pair r) (r_rate r) (r_source r) (r_quoted_at r)
                 else Inl (OtherError ''OperationalError'')) of
             Inl e \<Rightarrow> s
           | Inr st' \<Rightarrow> s\<lparr>fx_store := Some st'\<rparr>))"

definition set_rate :: "FxService \<Rightarrow> instant \<Rightarrow> bool \<Rightarrow> FxRate \<Rightarrow> FxService result" where
  "set_rate s now db r =
     (let c = take 3 (r_pair r)
      in rbind (validate_currency c) (\<lambda>_. Inr (persist_rate (put_bucket s c r) now db r)))"

text \<open>The guard of \<open>refresh_from_api\<close> skips what is no number or \<open>inverse <= 0\<close>, with the float of what it lets
  through: a NaN compares with nothing and passes. The loop runs over the supported currencies other
  than CNH.\<close>

fun quoted_number :: "json \<Rightarrow> fl option" where
  "quoted_number (JBool b) = (if b then Some 1 else None)"
| "quoted_number (JInt i) = (if i \<le> 0 then None else Some (fl_of_int i))"
| "quoted_number (JNum f) = (if f \<le> 0 then None else Some f)"
| "quoted_number _ = None"

definition refresh_one ::
    "json \<Rightarrow> instant \<Rightarrow> bool \<Rightarrow> FxService \<Rightarrow> string \<Rightarrow> FxService result" where
  "refresh_one rates now db s c =
     (if c = ''CNH'' then Inr s
      else (case Option.bind (j_field c rates) quoted_number of
              None \<Rightarrow> Inr s
            | Some per_usd \<Rightarrow>
                rbind (py_div 1 per_usd) (\<lambda>usd_per_native.
                  set_rate s now db \<lparr>r_pair = pair_for c, r_rate = usd_per_native, r_quoted_at = now,
                    r_is_stale = False, r_source = API_FALLBACK\<rparr>)))"

fun refresh_all :: "json \<Rightarrow> instant \<Rightarrow> bool \<Rightarrow> FxService \<Rightarrow> string list \<Rightarrow> FxService result" where
  "refresh_all rates now db s [] = Inr s"
| "refresh_all rates now db s (c # cs) =
     rbind (refresh_one rates now db s c) (\<lambda>s'. refresh_all rates now db s' cs)"

text \<open>\<open>fetched\<close> is what the injected fetcher returns or raises; \<open>None\<close> when there is no fetcher.\<close>

definition refresh_from_api ::
    "FxService \<Rightarrow> instant \<Rightarrow> bool \<Rightarrow> json result option \<Rightarrow> FxService result" where
  "refresh_from_api s now db fetched =
     (case fetched of
        None \<Rightarrow> Inr s
      | Some (Inl e) \<Rightarrow> Inr s
      | Some (Inr payload) \<Rightarrow>
          (case j_field ''rates'' payload of
             Some (JObj rs) \<Rightarrow> refresh_all (JObj rs) now db s SUPPORTED_FX
           | _ \<Rightarrow> Inr s))"

text \<open>\<open>start\<close>: the cached rates first, then one fetch; whatever the fetch raises, or a timeout that
  cancels it, is swallowed.\<close>

definition fx_start :: "FxService \<Rightarrow> instant \<Rightarrow> bool \<Rightarrow> json result option \<Rightarrow> FxService" where
  "fx_start s now db fetched =
     (let s1 = (case fx_store s of
                  None \<Rightarrow> s
                | Some st \<Rightarrow> foldl (\<lambda>s c. load_cached s st c) s SUPPORTED_FX)
      in (case refresh_from_api s1 now db fetched of Inl e \<Rightarrow> s1 | Inr s2 \<Rightarrow> s2))"

definition attach_ib :: "FxService \<Rightarrow> FxService" where
  "attach_ib s = s\<lparr>fx_ib := True, tickers := []\<rparr>"

definition compute_staleness :: "instant \<Rightarrow> FxRate \<Rightarrow> bool" where
  "compute_staleness now r =
     (if r_source r \<noteq> IB then False
      else if \<not> is_fx_market_open now then False
      else seconds IB_STALENESS_SECONDS < now - r_quoted_at r)"

definition pick_rate :: "instant \<Rightarrow> FxRate option \<Rightarrow> FxRate option \<Rightarrow> FxRate option" where
  "pick_rate now ib api =
     (case ib of
        None \<Rightarrow> api
      | Some i \<Rightarrow>
          (case api of
             None \<Rightarrow> ib
           | Some a \<Rightarrow> if compute_staleness now i \<and> r_quoted_at i < r_quoted_at a then api else ib))"

definition get_rate_sync :: "FxService \<Rightarrow> instant \<Rightarrow> string \<Rightarrow> FxRate option result" where
  "get_rate_sync s now c =
     (if c = ''USD'' then
        Inr (Some \<lparr>r_pair = ''USDUSD'', r_rate = 1, r_quoted_at = now, r_is_stale = False, r_source = IB\<rparr>)
      else rbind (validate_currency c) (\<lambda>_.
        (case pick_rate now (map_of (ib_rates s) c) (map_of (api_rates s) c) of
           None \<Rightarrow> Inr None
         | Some chosen \<Rightarrow>
             (let stale = compute_staleness now chosen
              in if stale = r_is_stale chosen then Inr (Some chosen)
                 else Inr (Some (chosen\<lparr>r_is_stale := stale\<rparr>))))))"

definition convert :: "FxService \<Rightarrow> instant \<Rightarrow> fl \<Rightarrow> string \<Rightarrow> fl option result" where
  "convert s now amount c =
     (if c = ''USD'' then Inr (Some amount)
      else rbind (get_rate_sync s now c) (\<lambda>r. Inr (map_option (\<lambda>r. amount * r_rate r) r)))"

section \<open>IB subscriptions\<close>

text \<open>An attribute of a third-party object: absent, a value, or a method with what calling it
  gives.\<close>

datatype attr = Missing | Attr pyval | Method "pyval result"

record ForexContract =
  c_pair :: attr
  c_symbol :: pyval
  c_currency :: pyval

definition contract_quotes_usd_base :: "(pyval \<Rightarrow> string) \<Rightarrow> string \<Rightarrow> ForexContract \<Rightarrow> bool" where
  "contract_quotes_usd_base rt c contract =
     (let v = (case c_pair contract of
                 Missing \<Rightarrow> VStr []
               | Attr v \<Rightarrow> v
               | Method (Inr v) \<Rightarrow> v
               | Method (Inl e) \<Rightarrow> VStr []);
          p = (case v of VStr t \<Rightarrow> t | _ \<Rightarrow> []);
          p' = (if p = [] \<and> py_truthy (c_symbol contract) \<and> py_truthy (c_currency contract)
                then py_str rt (c_symbol contract) @ py_str rt (c_currency contract) else p)
      in p' = ''USD'' @ c)"

text \<open>
  The calls on the attached IB instance: \<open>qualify\<close> is \<open>None\<close> when the instance has no callable
  \<open>qualifyContractsAsync\<close>, and \<open>subscribes\<close> whether \<open>reqMktData\<close> returns a ticker.
\<close>

record ForexApi =
  factory :: "string \<Rightarrow> ForexContract"
  qualify :: "(ForexContract \<Rightarrow> ForexContract option list result) option"
  subscribes :: "ForexContract \<Rightarrow> bool"

definition qualify_forex_contract :: "bool \<Rightarrow> ForexApi \<Rightarrow> ForexContract \<Rightarrow> ForexContract option" where
  "qualify_forex_contract ib api contract =
     (if \<not> ib then Some contract
      else (case qualify api of
              None \<Rightarrow> Some contract
            | Some q \<Rightarrow>
                (case q contract of
                   Inl e \<Rightarrow> None
                 | Inr [] \<Rightarrow> None
                 | Inr (x # xs) \<Rightarrow> x)))"

text \<open>
  One currency of \<open>ensure_subscribed\<close>. The loop runs over a set, so the order of the list is
  arbitrary; an unsupported currency raises out of the loop, with the earlier ones subscribed.
\<close>

definition subscribe_one ::
    "(pyval \<Rightarrow> string) \<Rightarrow> ForexApi \<Rightarrow> FxService \<Rightarrow> string \<Rightarrow> py_exc option \<times> FxService" where
  "subscribe_one rt api s c =
     (if c = ''USD'' \<or> c \<in> fst ` set (tickers s) then (None, s)
      else (case validate_currency c of
        Inl e \<Rightarrow> (Some e, s)
      | Inr u \<Rightarrow>
          if c \<in> set IB_FX_UNSUPPORTED_CURRENCIES then
            (None, if c \<in> set (unsupported_seen s) then s
                   else s\<lparr>unsupported_seen := unsupported_seen s @ [c]\<rparr>)
          else (case qualify_forex_contract (fx_ib s) api (factory api c) of
             None \<Rightarrow> (None, s)
           | Some contract \<Rightarrow>
               if \<not> subscribes api contract then (None, s)
               else (let invert = contract_quotes_usd_base rt c contract
                     in (None, s\<lparr>tickers := AList.update c invert (tickers s),
                                 fx_handlers := fx_handlers s @ [(c, invert)]\<rparr>)))))"

fun subscribe_all ::
    "(pyval \<Rightarrow> string) \<Rightarrow> ForexApi \<Rightarrow> FxService \<Rightarrow> string list \<Rightarrow> py_exc option \<times> FxService" where
  "subscribe_all rt api s [] = (None, s)"
| "subscribe_all rt api s (c # cs) =
     (case subscribe_one rt api s c of
        (Some e, s') \<Rightarrow> (Some e, s')
      | (None, s') \<Rightarrow> subscribe_all rt api s' cs)"

definition ensure_subscribed ::
    "(pyval \<Rightarrow> string) \<Rightarrow> ForexApi \<Rightarrow> FxService \<Rightarrow> string list \<Rightarrow> py_exc option \<times> FxService" where
  "ensure_subscribed rt api s cs = (if \<not> fx_ib s then (None, s) else subscribe_all rt api s cs)"

record FxTicker =
  t_bid :: "fl option"
  t_ask :: "fl option"
  t_last :: "fl option"
  t_market_price :: "fl option option"

text \<open>\<open>t_market_price\<close> is \<open>None\<close> when the ticker has no such method.\<close>

definition market_price_of :: "FxTicker \<Rightarrow> fl option" where
  "market_price_of t =
     (case t_market_price t of Some (Some m) \<Rightarrow> if 0 < m then Some m else None | _ \<Rightarrow> None)"

definition extract_forex_price :: "FxTicker \<Rightarrow> fl option" where
  "extract_forex_price t =
     (let mid = (case (t_bid t, t_ask t) of
                   (Some b, Some a) \<Rightarrow> if 0 < b \<and> 0 < a then Some ((b + a) / 2) else None
                 | _ \<Rightarrow> None)
      in case mid of
           Some p \<Rightarrow> Some p
         | None \<Rightarrow>
             (case t_last t of
                Some l \<Rightarrow> if 0 < l then Some l else market_price_of t
              | None \<Rightarrow> market_price_of t))"

text \<open>
  The handler of one subscription. Its price is positive, so the inversion never divides by zero.
  The write to the database is a task for later; without a running loop there is none.
\<close>

definition on_tick ::
    "FxService \<Rightarrow> instant \<Rightarrow> bool \<Rightarrow> string \<times> bool \<Rightarrow> FxTicker \<Rightarrow> FxService result" where
  "on_tick s now has_loop h t =
     (case h of (c, invert) \<Rightarrow>
      (case extract_forex_price t of
         None \<Rightarrow> Inr s
       | Some p0 \<Rightarrow>
           rbind (if invert then py_div 1 p0 else Inr p0) (\<lambda>p.
             if (case map_of (ib_rates s) c of None \<Rightarrow> False | Some e \<Rightarrow> feq (r_rate e) p) then Inr s
             else (let r = \<lparr>r_pair = pair_for c, r_rate = p, r_quoted_at = now, r_is_stale = False,
                            r_source = IB\<rparr>;
                       s' = s\<lparr>ib_rates := AList.update c r (ib_rates s)\<rparr>
                   in if fx_store s = None \<or> \<not> has_loop then Inr s'
                      else Inr (s'\<lparr>fx_tasks := fx_tasks s @ [r]\<rparr>)))))"

text \<open>The oldest scheduled task runs: the database thread serves them in order.\<close>

definition run_task :: "FxService \<Rightarrow> instant \<Rightarrow> bool \<Rightarrow> FxService" where
  "run_task s now db =
     (case fx_tasks s of
        [] \<Rightarrow> s
      | r # rs \<Rightarrow> persist_rate (s\<lparr>fx_tasks := rs\<rparr>) now db r)"

section \<open>Conversion to USD\<close>

text \<open>
  The method \<open>_convert_to_usd\<close> of the adapters, over the rate lookup of the injected service;
  \<open>None\<close> is an adapter without one.
\<close>

definition convert_to_usd ::
    "(string \<Rightarrow> FxRate option result) option \<Rightarrow> string \<Rightarrow> fl \<Rightarrow> fl \<Rightarrow> FxConversion result" where
  "convert_to_usd fx c mv_native pnl_native =
     (let unavailable = \<lparr>conv_mv_usd = 0, conv_pnl_usd = 0, conv_is_stale = False,
            conv_is_fallback = False, conv_unavailable = True\<rparr>
      in if c = ''USD'' then
           Inr \<lparr>conv_mv_usd = mv_native, conv_pnl_usd = pnl_native, conv_is_stale = False,
                conv_is_fallback = False, conv_unavailable = False\<rparr>
         else (case fx of
           None \<Rightarrow> Inr unavailable
         | Some get_rate \<Rightarrow>
             (case get_rate c of
                Inl (ValueError m) \<Rightarrow> Inr unavailable
              | Inl e \<Rightarrow> Inl e
              | Inr None \<Rightarrow> Inr unavailable
              | Inr (Some r) \<Rightarrow>
                  Inr \<lparr>conv_mv_usd = mv_native * r_rate r, conv_pnl_usd = pnl_native * r_rate r,
                       conv_is_stale = r_is_stale r, conv_is_fallback = (r_source r = API_FALLBACK),
                       conv_unavailable = False\<rparr>)))"

text \<open>What the adapters rely on: a lookup raises nothing but a ValueError, a rate is never negative,
  though it may be NaN, and only a rate of the IB source is ever stale.\<close>

definition rate_sound :: "fl \<Rightarrow> bool" where
  "rate_sound q = (0 \<le> q \<or> q = NaN)"

locale rate_source =
  fixes get_rate :: "'s \<Rightarrow> instant \<Rightarrow> string \<Rightarrow> FxRate option result"
    and ok :: "'s \<Rightarrow> bool"
  assumes only_value_error: "get_rate s t c = Inl e \<Longrightarrow> \<exists>m. e = ValueError m"
    and sound_rate: "ok s \<Longrightarrow> get_rate s t c = Inr (Some r) \<Longrightarrow> rate_sound (r_rate r)"
    and stale_is_ib: "ok s \<Longrightarrow> get_rate s t c = Inr (Some r) \<Longrightarrow> r_is_stale r \<Longrightarrow> r_source r = IB"
begin

lemma conversion_cases:
  obtains (usd) "c = ''USD''"
      "convert_to_usd (Some (get_rate s t)) c mv pnl = Inr \<lparr>conv_mv_usd = mv, conv_pnl_usd = pnl,
         conv_is_stale = False, conv_is_fallback = False, conv_unavailable = False\<rparr>"
  | (unavailable) "c \<noteq> ''USD''" "\<And>r. get_rate s t c \<noteq> Inr (Some r)"
      "convert_to_usd (Some (get_rate s t)) c mv pnl = Inr \<lparr>conv_mv_usd = 0, conv_pnl_usd = 0,
         conv_is_stale = False, conv_is_fallback = False, conv_unavailable = True\<rparr>"
  | (rate) r where "c \<noteq> ''USD''" "get_rate s t c = Inr (Some r)"
      "convert_to_usd (Some (get_rate s t)) c mv pnl = Inr \<lparr>conv_mv_usd = mv * r_rate r,
         conv_pnl_usd = pnl * r_rate r, conv_is_stale = r_is_stale r,
         conv_is_fallback = (r_source r = API_FALLBACK), conv_unavailable = False\<rparr>"
proof (cases "c = ''USD''")
  case True
  then show ?thesis by (intro usd) (simp_all add: convert_to_usd_def)
next
  case False
  show ?thesis
  proof (cases "get_rate s t c")
    case (Inl e)
    then obtain m where "e = ValueError m" using only_value_error by blast
    with Inl False show ?thesis by (intro unavailable) (simp_all add: convert_to_usd_def)
  next
    case (Inr x)
    with False show ?thesis
      by (cases x) (auto intro: unavailable rate simp: convert_to_usd_def)
  qed
qed

lemma conversion_total: "\<exists>conv. convert_to_usd (Some (get_rate s t)) c mv pnl = Inr conv"
  by (rule conversion_cases [of c s t mv pnl]) blast+

lemma conversion_flags:
  assumes "ok s" "convert_to_usd (Some (get_rate s t)) c mv pnl = Inr conv"
  shows "\<not> (conv_is_stale conv \<and> conv_is_fallback conv)"
    and "conv_unavailable conv \<Longrightarrow> conv_mv_usd conv = 0 \<and> conv_pnl_usd conv = 0"
    and "conv_unavailable conv \<Longrightarrow> \<not> conv_is_stale conv \<and> \<not> conv_is_fallback conv"
  using assms
  by (cases rule: conversion_cases [of c s t mv pnl], auto dest: stale_is_ib [OF assms(1)])+

lemma conversion_values:
  assumes "convert_to_usd (Some (get_rate s t)) c mv pnl = Inr conv"
  shows "c = ''USD'' \<Longrightarrow> conv = \<lparr>conv_mv_usd = mv, conv_pnl_usd = pnl, conv_is_stale = False, conv_is_fallback = False,
      conv_unavailable = False\<rparr>"
    and "c \<noteq> ''USD'' \<Longrightarrow> get_rate s t c = Inr (Some r) \<Longrightarrow> conv = \<lparr>conv_mv_usd = mv * r_rate r,
      conv_pnl_usd = pnl * r_rate r, conv_is_stale = r_is_stale r, conv_is_fallback = (r_source r = API_FALLBACK),
      conv_unavailable = False\<rparr>"
    and "conv_unavailable conv \<longleftrightarrow> c \<noteq> ''USD'' \<and> (\<forall>r. get_rate s t c \<noteq> Inr (Some r))"
  using assms by (cases rule: conversion_cases [of c s t mv pnl], auto)+

end

section \<open>The invariant of the service\<close>

text \<open>
  Rates sit in the bucket of their source under a supported currency and are never negative; a rate
  of the API may be NaN, but then the database refuses it; the API bucket and the API rows of the cache never hold CNH; handlers and scheduled writes belong
  to supported currencies.
\<close>

fun ib_rate_ok :: "string \<times> FxRate \<Rightarrow> bool" where
  "ib_rate_ok (c, r) = (c \<in> set SUPPORTED_FX \<and> r_pair r = pair_for c \<and> r_source r = IB
     \<and> 0 \<le> r_rate r \<and> \<not> r_is_stale r)"

fun api_rate_ok :: "string \<times> FxRate \<Rightarrow> bool" where
  "api_rate_ok (c, r) = (c \<in> set SUPPORTED_FX \<and> c \<noteq> ''CNH'' \<and> r_pair r = pair_for c
     \<and> r_source r = API_FALLBACK \<and> rate_sound (r_rate r) \<and> \<not> r_is_stale r)"

fun cache_row_ok :: "string \<times> FxCacheRow \<Rightarrow> bool" where
  "cache_row_ok (p, row) = (0 \<le> fc_rate row \<and> (p = ''CNHUSD'' \<longrightarrow> fc_source row = IB))"

definition fx_ok :: "FxService \<Rightarrow> bool" where
  "fx_ok s =
     (list_all ib_rate_ok (ib_rates s) \<and> list_all api_rate_ok (api_rates s)
      \<and> (case fx_store s of None \<Rightarrow> True | Some st \<Rightarrow> list_all cache_row_ok (fx_cache st))
      \<and> list_all (\<lambda>(c, i). c \<in> set SUPPORTED_FX) (fx_handlers s)
      \<and> list_all (\<lambda>r. \<exists>c \<in> set SUPPORTED_FX. ib_rate_ok (c, r)) (fx_tasks s))"

lemma supported_length: "list_all (\<lambda>c. length c = 3 \<and> validate_currency c = Inr () \<and> c \<noteq> ''USD'') SUPPORTED_FX"
  by code_simp

lemma supportedD:
  "c \<in> set SUPPORTED_FX \<Longrightarrow> length c = 3 \<and> validate_currency c = Inr () \<and> c \<noteq> ''USD''"
  using supported_length by (simp add: list_all_iff)

lemma take_pair [simp]: "c \<in> set SUPPORTED_FX \<Longrightarrow> take 3 (pair_for c) = c"
  by (simp add: pair_for_def supportedD)

lemma pair_for_inj [simp]: "pair_for c = pair_for d \<longleftrightarrow> c = d"
  by (simp add: pair_for_def)

lemma pair_for_cnh: "pair_for c = ''CNHUSD'' \<longleftrightarrow> c = ''CNH''" "''CNHUSD'' = pair_for c \<longleftrightarrow> c = ''CNH''"
  using pair_for_inj [of c "''CNH''"] by (auto simp: pair_for_def)

lemma validate_only_value_error: "validate_currency c = Inl e \<Longrightarrow> \<exists>m. e = ValueError m"
  by (auto simp: validate_currency_def split: if_splits)

lemma cnh_supported: "''CNH'' \<in> set SUPPORTED_FX"
  by code_simp

lemma fx_ok_persist:
  assumes "fx_ok s" "\<exists>c. ib_rate_ok (c, r) \<or> api_rate_ok (c, r)"
  shows "fx_ok (persist_rate s now db r)"
proof (cases "fx_store s")
  case (Some st)
  show ?thesis
  proof (cases "r_rate r = NaN")
    case True
    with assms(1) Some show ?thesis by (simp add: persist_rate_def put_fx_rate_def)
  next
    case False
    have row: "cache_row_ok (r_pair r, \<lparr>fc_rate = r_rate r, fc_source = r_source r,
        fc_quoted_at = r_quoted_at r, fc_updated_at = now\<rparr>)"
      using assms(2) False by (auto simp: pair_for_cnh rate_sound_def)
    show ?thesis
      using assms(1) Some list_all_AList_update [where P = cache_row_ok, OF _ row]
      by (auto simp: fx_ok_def persist_rate_def put_fx_rate_def split: option.splits sum.splits)
  qed
qed (use assms in \<open>simp add: persist_rate_def\<close>)

lemma fx_ok_bucket:
  assumes "fx_ok s" "ib_rate_ok (c, r) \<or> api_rate_ok (c, r)"
  shows "fx_ok (put_bucket s c r)"
  using assms by (auto simp: fx_ok_def put_bucket_def intro!: list_all_AList_update)

lemma set_rate_eq:
  assumes "ib_rate_ok (c, r) \<or> api_rate_ok (c, r)"
  shows "set_rate s now db r = Inr (persist_rate (put_bucket s c r) now db r)"
  using assms by (auto simp: set_rate_def supportedD)

lemma fx_ok_set_rate:
  assumes "fx_ok s" "ib_rate_ok (c, r) \<or> api_rate_ok (c, r)"
  shows "\<exists>s'. set_rate s now db r = Inr s' \<and> fx_ok s'"
  unfolding set_rate_eq [OF assms(2)]
  using fx_ok_persist [OF fx_ok_bucket [OF assms]] assms(2) by blast

lemma fx_ok_load_cached:
  assumes "fx_ok s" "list_all cache_row_ok (fx_cache st)" "c \<in> set SUPPORTED_FX"
  shows "fx_ok (load_cached s st c)"
proof (cases "get_fx_rate st (pair_for c)")
  case (Some row)
  have row: "cache_row_ok (pair_for c, row)"
    by (rule list_all_map_of [OF assms(2)]) (use Some in \<open>simp add: get_fx_rate_def\<close>)
  let ?r = "\<lparr>r_pair = pair_for c, r_rate = fc_rate row, r_quoted_at = fc_quoted_at row,
    r_is_stale = False, r_source = fc_source row\<rparr>"
  have "ib_rate_ok (c, ?r) \<or> api_rate_ok (c, ?r)"
    using row assms(3) by (cases "fc_source row") (auto simp: pair_for_cnh rate_sound_def)
  with assms(1) Some show ?thesis by (simp add: load_cached_def fx_ok_bucket)
qed (use assms in \<open>simp add: load_cached_def\<close>)

lemma fx_ok_load_all:
  assumes "fx_ok s" "list_all cache_row_ok (fx_cache st)" "set cs \<subseteq> set SUPPORTED_FX"
  shows "fx_ok (foldl (\<lambda>s c. load_cached s st c) s cs)"
  using assms by (induction cs arbitrary: s) (simp_all add: fx_ok_load_cached)

lemma quoted_number_sound:
  assumes "quoted_number v = Some q"
  shows "q \<noteq> 0" and "rate_sound (1 / q)"
proof -
  have q: "0 < q \<or> q = NaN"
    using assms by (cases v; cases q) (auto simp: fl_of_int_def less_eq_fl_def less_fl_def zero_fl_def one_fl_def split: if_splits)
  then show "q \<noteq> 0" by (auto simp: fl_simps)
  have "1 / NaN = NaN" by (simp add: divide_fl_def one_fl_def times_fl_def)
  with q show "rate_sound (1 / q)" by (auto simp: rate_sound_def fl_divide_one_nonneg)
qed

lemma fx_ok_refresh_one:
  assumes "fx_ok s" "c \<in> set SUPPORTED_FX"
  shows "\<exists>s'. refresh_one rates now db s c = Inr s' \<and> fx_ok s'"
proof (cases "c = ''CNH'' \<or> Option.bind (j_field c rates) quoted_number = None")
  case True
  with assms(1) show ?thesis by (auto simp: refresh_one_def)
next
  case False
  then obtain v where v: "Option.bind (j_field c rates) quoted_number = Some v" and c: "c \<noteq> ''CNH''"
    by auto
  obtain x where "quoted_number x = Some v" using v by (auto simp: bind_eq_Some_conv)
  note nz = quoted_number_sound(1) [OF this] and sound = quoted_number_sound(2) [OF this]
  let ?r = "\<lparr>r_pair = pair_for c, r_rate = 1 / v, r_quoted_at = now, r_is_stale = False,
      r_source = API_FALLBACK\<rparr>"
  have "api_rate_ok (c, ?r)" using assms(2) c sound by simp
  with fx_ok_set_rate [OF assms(1), of c ?r now db] v c nz show ?thesis
    by (simp add: refresh_one_def py_div_def)
qed

lemma fx_ok_refresh_all:
  assumes "fx_ok s" "set cs \<subseteq> set SUPPORTED_FX"
  shows "\<exists>s'. refresh_all rates now db s cs = Inr s' \<and> fx_ok s'"
  using assms
proof (induction cs arbitrary: s)
  case (Cons c cs)
  obtain s1 where s1: "refresh_one rates now db s c = Inr s1" "fx_ok s1"
    using fx_ok_refresh_one Cons.prems by (metis list.set_intros(1) subset_code(1))
  with Cons.IH [OF s1(2)] Cons.prems(2) show ?case by simp
qed simp

lemma fx_ok_refresh:
  assumes "fx_ok s"
  shows "\<exists>s'. refresh_from_api s now db fetched = Inr s' \<and> fx_ok s'"
  using assms fx_ok_refresh_all [OF assms subset_refl]
  by (auto simp: refresh_from_api_def split: option.splits sum.splits json.splits)

lemma fx_ok_start:
  assumes "fx_ok s"
  shows "fx_ok (fx_start s now db fetched)"
proof -
  let ?s1 = "case fx_store s of None \<Rightarrow> s
    | Some st \<Rightarrow> foldl (\<lambda>s c. load_cached s st c) s SUPPORTED_FX"
  have "fx_ok ?s1"
    using assms by (auto simp: fx_ok_def [of s] intro!: fx_ok_load_all split: option.splits)
  with fx_ok_refresh [of ?s1 now db fetched] show ?thesis
    by (auto simp: fx_start_def Let_def)
qed

lemma fx_ok_subscribe_one:
  assumes "fx_ok s" "subscribe_one rt api s c = (e, s')"
  shows "fx_ok s'"
proof -
  have "c \<in> set SUPPORTED_FX" if "c \<noteq> ''USD''" "validate_currency c = Inr u" for u
    using that by (auto simp: validate_currency_def split: if_splits)
  with assms show ?thesis
    by (auto simp: subscribe_one_def fx_ok_def Let_def split: if_splits sum.splits option.splits)
qed

lemma fx_ok_subscribe_all:
  "fx_ok s \<Longrightarrow> subscribe_all rt api s cs = (e, s') \<Longrightarrow> fx_ok s'"
proof (induction cs arbitrary: s)
  case (Cons c cs)
  obtain e1 s1 where s1: "subscribe_one rt api s c = (e1, s1)" by fastforce
  then have "fx_ok s1" by (rule fx_ok_subscribe_one [OF Cons.prems(1)])
  with Cons s1 show ?case by (cases e1) auto
qed simp

lemma extract_forex_price_pos: "extract_forex_price t = Some p \<Longrightarrow> 0 < p"
  by (auto simp: extract_forex_price_def market_price_of_def Let_def fl_mid_nonneg
      split: option.splits if_splits)

lemma fx_ok_tick:
  assumes "fx_ok s" "(c, invert) \<in> set (fx_handlers s)"
  shows "\<exists>s'. on_tick s now has_loop (c, invert) t = Inr s' \<and> fx_ok s'"
proof (cases "extract_forex_price t")
  case (Some p0)
  have c: "c \<in> set SUPPORTED_FX" using assms by (auto simp: fx_ok_def list_all_iff)
  have pos: "0 < p0" using Some by (rule extract_forex_price_pos)
  then have nz: "p0 \<noteq> 0" by auto
  define p where "p = (if invert then 1 / p0 else p0)"
  have price: "(if invert then py_div 1 p0 else Inr p0) = Inr p"
    using nz by (simp add: p_def py_div_def)
  have "0 \<le> p" using pos fl_divide_one_nonneg [OF pos] by (cases p0) (auto simp: p_def)
  then have "ib_rate_ok (c, \<lparr>r_pair = pair_for c, r_rate = p, r_quoted_at = now, r_is_stale = False,
      r_source = IB\<rparr>)" using c by simp
  with assms(1) c Some price show ?thesis
    by (auto simp: on_tick_def Let_def fx_ok_def intro!: list_all_AList_update)
qed (use assms in \<open>simp add: on_tick_def\<close>)

lemma fx_ok_run_task: "fx_ok s \<Longrightarrow> fx_ok (run_task s now db)"
proof (cases "fx_tasks s")
  case (Cons r rs)
  assume ok: "fx_ok s"
  then have "fx_ok (s\<lparr>fx_tasks := rs\<rparr>)" "\<exists>c. ib_rate_ok (c, r)"
    using Cons by (auto simp: fx_ok_def)
  with Cons show ?thesis by (auto simp: run_task_def intro!: fx_ok_persist)
qed (simp add: run_task_def)

section \<open>Runs of the service\<close>

text \<open>A refresh awaits the database after each currency: a tick can come in between, and the timeout of
  \<open>start\<close> or a \<open>stop\<close> can end it there, so that one currency of it is a step as well.\<close>

inductive fx_step :: "FxService \<Rightarrow> FxService \<Rightarrow> bool" where
  start: "fx_step s (fx_start s now db fetched)"
| refresh: "refresh_from_api s now db fetched = Inr s' \<Longrightarrow> fx_step s s'"
| refresh_part: "c \<in> set SUPPORTED_FX \<Longrightarrow> refresh_one rates now db s c = Inr s' \<Longrightarrow> fx_step s s'"
| attach: "fx_step s (attach_ib s)"
| subscribe: "ensure_subscribed rt api s cs = (e, s') \<Longrightarrow> fx_step s s'"
| tick: "h \<in> set (fx_handlers s) \<Longrightarrow> on_tick s now has_loop h t = Inr s' \<Longrightarrow> fx_step s s'"
| task: "fx_step s (run_task s now db)"

text \<open>Runs from a new service on a database whose cached rates are in order.\<close>

inductive fx_reachable :: "FxService \<Rightarrow> bool" where
  new: "(case st of None \<Rightarrow> True | Some d \<Rightarrow> list_all cache_row_ok (fx_cache d)) \<Longrightarrow>
    fx_reachable (fx_new st ib)"
| step: "fx_reachable s \<Longrightarrow> fx_step s s' \<Longrightarrow> fx_reachable s'"

lemma fx_ok_step: "fx_step s s' \<Longrightarrow> fx_ok s \<Longrightarrow> fx_ok s'"
proof (induction rule: fx_step.induct)
  case (refresh s now db fetched s')
  with fx_ok_refresh [of s now db fetched] show ?case by auto
next
  case (refresh_part c rates now db s s')
  with fx_ok_refresh_one [of s c rates now db] show ?case by auto
next
  case (subscribe rt api s cs e s')
  then show ?case by (auto simp: ensure_subscribed_def fx_ok_subscribe_all split: if_splits)
next
  case (tick h s now has_loop t s')
  with fx_ok_tick [of s "fst h" "snd h" now has_loop t] show ?case by auto
qed (simp_all add: fx_ok_start fx_ok_run_task, simp add: fx_ok_def attach_ib_def)

lemma fx_reachable_ok: "fx_reachable s \<Longrightarrow> fx_ok s"
proof (induction rule: fx_reachable.induct)
  case (new st ib)
  then show ?case by (simp add: fx_ok_def fx_new_def)
qed (rule fx_ok_step)

lemma fx_ok_ib_row: "fx_ok s \<Longrightarrow> map_of (ib_rates s) c = Some r \<Longrightarrow> ib_rate_ok (c, r)"
  using list_all_map_of [of ib_rate_ok "ib_rates s"] by (simp add: fx_ok_def)

lemma fx_ok_api_row: "fx_ok s \<Longrightarrow> map_of (api_rates s) c = Some r \<Longrightarrow> api_rate_ok (c, r)"
  using list_all_map_of [of api_rate_ok "api_rates s"] by (simp add: fx_ok_def)

lemma get_rate_only_value_error: "get_rate_sync s now c = Inl e \<Longrightarrow> \<exists>m. e = ValueError m"
  by (auto simp: get_rate_sync_def Let_def rbind_Inl_iff validate_only_value_error
      split: if_splits option.splits)

text \<open>The rule of choice, as a table over what the two buckets hold.\<close>

definition stale_at :: "instant \<Rightarrow> FxRate \<Rightarrow> bool" where
  "stale_at now r = (is_fx_market_open now \<and> seconds 60 < now - r_quoted_at r)"

lemma get_rate_table:
  assumes "fx_ok s" "c \<in> set SUPPORTED_FX"
  shows "get_rate_sync s now c = Inr
    (case (map_of (ib_rates s) c, map_of (api_rates s) c) of
       (None, api) \<Rightarrow> api
     | (Some i, None) \<Rightarrow> Some (i\<lparr>r_is_stale := stale_at now i\<rparr>)
     | (Some i, Some a) \<Rightarrow>
         if stale_at now i \<and> r_quoted_at i < r_quoted_at a then Some a
         else Some (i\<lparr>r_is_stale := stale_at now i\<rparr>))"
proof -
  have c: "c \<noteq> ''USD''" "validate_currency c = Inr ()" using assms(2) supportedD by auto
  have ib: "compute_staleness now i = stale_at now i \<and> \<not> r_is_stale i"
    if "map_of (ib_rates s) c = Some i" for i
    using fx_ok_ib_row [OF assms(1) that]
    by (simp add: compute_staleness_def stale_at_def IB_STALENESS_SECONDS_def)
  have api: "\<not> compute_staleness now a \<and> \<not> r_is_stale a" if "map_of (api_rates s) c = Some a" for a
    using fx_ok_api_row [OF assms(1) that] by (simp add: compute_staleness_def)
  have same: "\<not> r_is_stale i \<Longrightarrow> i\<lparr>r_is_stale := False\<rparr> = i" for i :: FxRate by simp
  show ?thesis
    using c ib api
    by (cases "map_of (ib_rates s) c"; cases "map_of (api_rates s) c")
      (auto simp: get_rate_sync_def pick_rate_def Let_def)
qed

lemma get_rate_row:
  assumes "fx_ok s" "get_rate_sync s now c = Inr (Some r)"
  shows "rate_sound (r_rate r) \<and> (r_is_stale r \<longrightarrow> r_source r = IB)"
proof (cases "c = ''USD''")
  case True
  with assms(2) show ?thesis by (auto simp: get_rate_sync_def rate_sound_def fl_simps)
next
  case False
  with assms(2) have "validate_currency c = Inr ()"
    by (auto simp: get_rate_sync_def rbind_Inr_iff)
  with False have "c \<in> set SUPPORTED_FX" by (auto simp: validate_currency_def split: if_splits)
  from get_rate_table [OF assms(1) this, of now] assms(2) fx_ok_ib_row [OF assms(1), of c]
    fx_ok_api_row [OF assms(1), of c]
  show ?thesis
    by (cases "map_of (ib_rates s) c"; cases "map_of (api_rates s) c") (auto simp: rate_sound_def split: if_splits)
qed

text \<open>A rate is found exactly for a supported currency one of the buckets has.\<close>

lemma get_rate_found:
  assumes "fx_ok s" "c \<noteq> ''USD''"
  shows "(\<exists>r. get_rate_sync s now c = Inr (Some r)) \<longleftrightarrow>
    c \<in> set SUPPORTED_FX \<and> (map_of (ib_rates s) c \<noteq> None \<or> map_of (api_rates s) c \<noteq> None)"
proof (cases "c \<in> set SUPPORTED_FX")
  case True
  with get_rate_table [OF assms(1) True, of now] show ?thesis
    by (cases "map_of (ib_rates s) c"; cases "map_of (api_rates s) c") auto
next
  case False
  with assms(2) show ?thesis by (auto simp: get_rate_sync_def rbind_Inr_iff validate_currency_def split: if_splits)
qed

interpretation fx_rates: rate_source get_rate_sync fx_ok
  by unfold_locales (auto dest: get_rate_only_value_error get_rate_row)

section \<open>Refresh, subscription and restart\<close>

lemma ib_rates_persist [simp]: "ib_rates (persist_rate s now db r) = ib_rates s"
  "api_rates (persist_rate s now db r) = api_rates s"
  by (auto simp: persist_rate_def split: option.splits sum.splits)

definition api_quote :: "json \<Rightarrow> string \<Rightarrow> fl option" where
  "api_quote rates c = (if c = ''CNH'' then None else Option.bind (j_field c rates) quoted_number)"

lemma refresh_one_effect:
  assumes "c \<in> set SUPPORTED_FX" "refresh_one rates now db s c = Inr s'"
  shows "ib_rates s' = ib_rates s \<and> map_of (api_rates s') =
    (case api_quote rates c of None \<Rightarrow> map_of (api_rates s)
     | Some v \<Rightarrow> (map_of (api_rates s))(c \<mapsto> \<lparr>r_pair = pair_for c, r_rate = 1 / v, r_quoted_at = now,
         r_is_stale = False, r_source = API_FALLBACK\<rparr>))"
proof (cases "api_quote rates c")
  case None
  with assms(2) show ?thesis by (auto simp: refresh_one_def api_quote_def split: if_splits)
next
  case (Some v)
  then have v: "c \<noteq> ''CNH''" "Option.bind (j_field c rates) quoted_number = Some v"
    by (auto simp: api_quote_def split: if_splits)
  then obtain x where "quoted_number x = Some v" by (auto simp: bind_eq_Some_conv)
  note nz = quoted_number_sound(1) [OF this]
  have take: "take 3 (pair_for c) = c" "validate_currency c = Inr ()"
    using assms(1) supportedD [OF assms(1)] by simp_all
  show ?thesis
    using assms(2) v nz Some take
    by (auto simp: refresh_one_def py_div_def set_rate_def put_bucket_def dict_simps)
qed

lemma refresh_all_effect:
  assumes "set cs \<subseteq> set SUPPORTED_FX" "distinct cs" "refresh_all rates now db s cs = Inr s'"
  shows "ib_rates s' = ib_rates s \<and> map_of (api_rates s') = (\<lambda>c.
    case (if c \<in> set cs then api_quote rates c else None) of None \<Rightarrow> map_of (api_rates s) c
     | Some v \<Rightarrow> Some \<lparr>r_pair = pair_for c, r_rate = 1 / v, r_quoted_at = now, r_is_stale = False,
         r_source = API_FALLBACK\<rparr>)"
  using assms
proof (induction cs arbitrary: s)
  case (Cons d cs)
  obtain s1 where s1: "refresh_one rates now db s d = Inr s1" "refresh_all rates now db s1 cs = Inr s'"
    using Cons.prems(3) by (auto simp: rbind_Inr_iff)
  have "d \<in> set SUPPORTED_FX" using Cons.prems(1) by simp
  from refresh_one_effect [OF this s1(1)] Cons.IH [OF _ _ s1(2)] Cons.prems(1,2)
  show ?case by (auto split: option.splits intro!: ext)
qed simp

lemma supported_distinct: "distinct SUPPORTED_FX"
  by code_simp

lemma load_cached_other:
  "c \<noteq> d \<Longrightarrow> map_of (ib_rates (load_cached s st d)) c = map_of (ib_rates s) c
     \<and> map_of (api_rates (load_cached s st d)) c = map_of (api_rates s) c"
  by (auto simp: load_cached_def put_bucket_def dict_simps split: option.splits)

lemma load_cached_others:
  "c \<notin> set cs \<Longrightarrow> map_of (ib_rates (foldl (\<lambda>s c. load_cached s st c) s cs)) c = map_of (ib_rates s) c
     \<and> map_of (api_rates (foldl (\<lambda>s c. load_cached s st c) s cs)) c = map_of (api_rates s) c"
  by (induction cs arbitrary: s) (auto simp: load_cached_other)

lemma load_cached_all:
  assumes "c \<in> set cs" "distinct cs"
  shows "map_of (ib_rates (foldl (\<lambda>s c. load_cached s st c) s cs)) c
      = map_of (ib_rates (load_cached s st c)) c
    \<and> map_of (api_rates (foldl (\<lambda>s c. load_cached s st c) s cs)) c
      = map_of (api_rates (load_cached s st c)) c"
  using assms
proof (induction cs arbitrary: s)
  case (Cons d cs)
  show ?case
  proof (cases "c = d")
    case True
    with Cons.prems show ?thesis by (simp add: load_cached_others)
  next
    case False
    have "map_of (ib_rates (load_cached (load_cached s st d) st c)) c = map_of (ib_rates (load_cached s st c)) c
      \<and> map_of (api_rates (load_cached (load_cached s st d) st c)) c = map_of (api_rates (load_cached s st c)) c"
      using load_cached_other [OF False, of s st]
      by (auto simp: load_cached_def [of _ st c] put_bucket_def dict_simps split: option.splits)
    with Cons False show ?thesis by auto
  qed
qed simp

lemma subscribe_one_direction:
  assumes "subscribe_one rt api s c = (e, s')" "(d, i) \<in> set (fx_handlers s')"
    and "(d, i) \<notin> set (fx_handlers s)"
  shows "d = c \<and> (\<exists>k. qualify_forex_contract (fx_ib s) api (factory api c) = Some k
    \<and> i = contract_quotes_usd_base rt c k)"
  using assms
  by (auto simp: subscribe_one_def Let_def split: if_splits sum.splits option.splits)

lemma direct_pairs:
  "list_all (\<lambda>c. pair_for c \<noteq> ''USD'' @ c) IB_DIRECT_USD_TERMS"
  by code_simp

lemma quotes_usd_base_pair:
  assumes "c_pair k = Method (Inr (VStr (fst (ib_pair_for c))))"
  shows "contract_quotes_usd_base rt c k = snd (ib_pair_for c)"
  using assms direct_pairs
  by (auto simp: contract_quotes_usd_base_def ib_pair_for_def Let_def list_all_iff pair_for_def)

lemma subscribe_all_direction:
  assumes "\<And>c k. qualify_forex_contract (fx_ib s) api (factory api c) = Some k \<Longrightarrow>
      c_pair k = Method (Inr (VStr (fst (ib_pair_for c))))"
    and "subscribe_all rt api s cs = (e, s')" "(d, i) \<in> set (fx_handlers s')"
    and "(d, i) \<notin> set (fx_handlers s)"
  shows "i = snd (ib_pair_for d)"
  using assms
proof (induction cs arbitrary: s)
  case (Cons c cs)
  obtain e1 s1 where s1: "subscribe_one rt api s c = (e1, s1)" by fastforce
  have ib: "fx_ib s1 = fx_ib s"
    using s1 by (auto simp: subscribe_one_def Let_def split: if_splits sum.splits option.splits)
  show ?case
  proof (cases "(d, i) \<in> set (fx_handlers s1)")
    case True
    with subscribe_one_direction [OF s1 True Cons.prems(4)] Cons.prems(1) show ?thesis
      using quotes_usd_base_pair by blast
  next
    case False
    have "e1 = None" using False s1 Cons.prems(2,3) by (cases e1) auto
    then have "subscribe_all rt api s1 cs = (e, s')" using s1 Cons.prems(2) by simp
    from Cons.IH [OF _ this Cons.prems(3) False] Cons.prems(1) ib show ?thesis by simp
  qed
qed simp

lemma subscribe_all_stops:
  assumes "subscribe_all rt api s pre = (None, s1)" "subscribe_one rt api s1 bad = (Some e, s2)"
  shows "subscribe_all rt api s (pre @ bad # post) = (Some e, s2)"
  using assms
proof (induction pre arbitrary: s)
  case (Cons c cs)
  then show ?case by (auto split: prod.splits option.splits)
qed simp

section \<open>The trading week\<close>

text \<open>The microsecond of the week, from Monday 00:00 UTC.\<close>

definition week_us :: "instant \<Rightarrow> int" where
  "week_us t = t mod (7 * day_us)"

definition hours :: "int \<Rightarrow> int" where
  "hours n = n * 3600000000"

lemma week_parts:
  "week_us t = day_us * weekday t + t mod day_us \<and> 0 \<le> t mod day_us \<and> t mod day_us < day_us
     \<and> 0 \<le> weekday t \<and> weekday t < 7"
proof -
  have "t mod (day_us * 7) = day_us * (t div day_us mod 7) + t mod day_us"
    by (rule zmod_zmult2_eq) simp
  then show ?thesis
    by (simp add: week_us_def weekday_def mult.commute day_us_def)
qed

lemma hour_22: "22 \<le> hour t \<longleftrightarrow> hours 22 \<le> t mod day_us"
proof -
  have "3600000000 * hour t \<le> t mod day_us \<and> t mod day_us < 3600000000 * hour t + 3600000000"
    unfolding hour_def by (rule div_bounds) simp
  then show ?thesis unfolding hours_def by linarith
qed

section \<open>Properties\<close>

text \<open>C15. Onshore renminbi is never taken for offshore renminbi: in every run of the service on a
  database in order, no rate of the API is ever held for CNH, every CNH rate a caller reads comes
  from IB, and asking for CNY raises.\<close>
theorem cny_never_substituted:
  assumes "fx_reachable s"
  shows "map_of (api_rates s) ''CNH'' = None
    \<and> (get_rate_sync s now ''CNH'' = Inr (Some r) \<longrightarrow> r_source r = IB)
    \<and> get_rate_sync s now ''CNY'' = Inl (ValueError ''CNY not supported'')"
proof -
  note ok = fx_reachable_ok [OF assms]
  have api: "map_of (api_rates s) ''CNH'' = None"
    using fx_ok_api_row [OF ok, of "''CNH''"] by (cases "map_of (api_rates s) ''CNH''") auto
  moreover have "r_source r = IB" if "get_rate_sync s now ''CNH'' = Inr (Some r)"
    using that api fx_ok_ib_row [OF ok, of "''CNH''"] get_rate_table [OF ok cnh_supported, of now]
    by (auto split: option.splits)
  moreover have "get_rate_sync s now ''CNY'' = Inl (ValueError ''CNY not supported'')"
    by (simp add: get_rate_sync_def validate_currency_def)
  ultimately show ?thesis by blast
qed

definition demo_fx :: FxService where
  "demo_fx = fx_start (fx_new (Some empty_store) False) (days 738943) True
     (Some (Inr (JObj [(''rates'', JObj [(''CNY'', JNum (Fin 7)), (''CNH'', JNum (Fin 7)),
        (''HKD'', JNum (Fin (39/5)))])])))"

lemma demo_fx_reachable: "fx_reachable demo_fx"
  unfolding demo_fx_def
  by (rule fx_reachable.step [OF fx_reachable.new fx_step.start]) (simp add: empty_store_def)

theorem cny_never_substituted_witness:
  "map_of (api_rates demo_fx) ''CNH'' = None \<and> map_of (api_rates demo_fx) ''HKD'' \<noteq> None"
proof -
  have "map_of (api_rates demo_fx) ''HKD'' \<noteq> None" by code_simp
  with cny_never_substituted [OF demo_fx_reachable] show ?thesis by blast
qed

text \<open>C14. Which rate a caller reads, in every run: the IB rate unless it is missing, or is more than
  60 seconds old while the market is open and the API quote is later; only an IB rate is marked
  stale, exactly under those 60 seconds and an open market; and the choice is made anew at every
  read from the two latest quotes.\<close>
theorem rate_choice:
  assumes "fx_reachable s" "c \<in> set SUPPORTED_FX"
  shows "get_rate_sync s now c = Inr
    (case (map_of (ib_rates s) c, map_of (api_rates s) c) of
       (None, api) \<Rightarrow> api
     | (Some i, None) \<Rightarrow> Some (i\<lparr>r_is_stale := stale_at now i\<rparr>)
     | (Some i, Some a) \<Rightarrow>
         if stale_at now i \<and> r_quoted_at i < r_quoted_at a then Some a
         else Some (i\<lparr>r_is_stale := stale_at now i\<rparr>))"
  by (rule get_rate_table [OF fx_reachable_ok [OF assms(1)] assms(2)])

theorem rate_choice_witness:
  "get_rate_sync demo_fx (days 738950) ''HKD'' = Inr (map_of (api_rates demo_fx) ''HKD'')"
proof -
  have "''HKD'' \<in> set SUPPORTED_FX" "map_of (ib_rates demo_fx) ''HKD'' = None" by code_simp+
  with rate_choice [OF demo_fx_reachable, of "''HKD''" "days 738950"] show ?thesis by simp
qed

text \<open>The market counts as closed exactly from Friday 22:00 to Sunday 22:00 UTC of each week.\<close>
theorem fx_market_week:
  "is_fx_market_open t \<longleftrightarrow> week_us t < days 4 + hours 22 \<or> days 6 + hours 22 \<le> week_us t"
proof -
  note w = week_parts [of t] and h = hour_22 [of t]
  have d: "day_us = 86400000000" "hours 22 = 79200000000" by (simp_all add: day_us_def hours_def)
  consider "weekday t = 5" | "weekday t = 6" | "weekday t = 4" | "weekday t < 4"
    using w by linarith
  then show ?thesis
  proof cases
    case 1
    then have "week_us t = day_us * 5 + t mod day_us" using w by simp
    moreover have "0 \<le> t mod day_us" "t mod day_us < day_us" using w by blast+
    ultimately have "\<not> week_us t < days 4 + hours 22" "\<not> days 6 + hours 22 \<le> week_us t"
      using d unfolding days_def by linarith+
    with 1 show ?thesis by (simp add: is_fx_market_open_def)
  next
    case 2
    then have "week_us t = day_us * 6 + t mod day_us" using w by simp
    moreover have "0 \<le> t mod day_us" using w by blast
    ultimately have "\<not> week_us t < days 4 + hours 22"
      "days 6 + hours 22 \<le> week_us t \<longleftrightarrow> hours 22 \<le> t mod day_us"
      using d unfolding days_def by linarith+
    with 2 h show ?thesis by (simp add: is_fx_market_open_def)
  next
    case 3
    then have "week_us t = day_us * 4 + t mod day_us" using w by simp
    moreover have "t mod day_us < day_us" using w by blast
    ultimately have "week_us t < days 4 + hours 22 \<longleftrightarrow> \<not> hours 22 \<le> t mod day_us"
      "\<not> days 6 + hours 22 \<le> week_us t"
      using d unfolding days_def by linarith+
    with 3 h show ?thesis by (auto simp: is_fx_market_open_def)
  next
    case 4
    then have "day_us * weekday t \<le> day_us * 3" by (intro mult_left_mono) (simp_all add: day_us_def)
    then have "week_us t < days 4 + hours 22" using w d unfolding days_def by linarith
    with 4 show ?thesis by (simp add: is_fx_market_open_def)
  qed
qed

text \<open>A refresh from the API never raises, changes no IB rate, and replaces the API rate of exactly
  the supported currencies the payload quotes with a number that is not zero or less, CNH excepted,
  by the reciprocal of the quote.\<close>
theorem refresh_applies_quotes:
  assumes "fx_reachable s"
  shows "\<exists>s'. refresh_from_api s now db (Some (Inr (JObj [(''rates'', JObj rs)]))) = Inr s'
    \<and> ib_rates s' = ib_rates s
    \<and> map_of (api_rates s') = (\<lambda>c.
        case (if c \<in> set SUPPORTED_FX then api_quote (JObj rs) c else None) of
          None \<Rightarrow> map_of (api_rates s) c
        | Some v \<Rightarrow> Some \<lparr>r_pair = pair_for c, r_rate = 1 / v, r_quoted_at = now,
            r_is_stale = False, r_source = API_FALLBACK\<rparr>)"
proof -
  obtain s' where s': "refresh_from_api s now db (Some (Inr (JObj [(''rates'', JObj rs)]))) = Inr s'"
    using fx_ok_refresh [OF fx_reachable_ok [OF assms]] by blast
  then have "refresh_all (JObj rs) now db s SUPPORTED_FX = Inr s'"
    by (simp add: refresh_from_api_def)
  from s' refresh_all_effect [OF subset_refl supported_distinct this] show ?thesis by blast
qed

theorem refresh_applies_quotes_witness:
  "\<exists>s'. refresh_from_api demo_fx 0 True (Some (Inr (JObj [(''rates'', JObj [(''JPY'', JInt 150)])]))) = Inr s'
     \<and> map_of (api_rates s') ''JPY'' = Some \<lparr>r_pair = ''JPYUSD'', r_rate = Fin (1 / 150),
         r_quoted_at = 0, r_is_stale = False, r_source = API_FALLBACK\<rparr>"
proof -
  obtain s' where s': "refresh_from_api demo_fx 0 True
      (Some (Inr (JObj [(''rates'', JObj [(''JPY'', JInt 150)])]))) = Inr s'"
    "map_of (api_rates s') = (\<lambda>c. case (if c \<in> set SUPPORTED_FX
        then api_quote (JObj [(''JPY'', JInt 150)]) c else None) of
          None \<Rightarrow> map_of (api_rates demo_fx) c
        | Some v \<Rightarrow> Some \<lparr>r_pair = pair_for c, r_rate = 1 / v, r_quoted_at = 0,
            r_is_stale = False, r_source = API_FALLBACK\<rparr>)"
    using refresh_applies_quotes [OF demo_fx_reachable] by blast
  have "''JPY'' \<in> set SUPPORTED_FX" by code_simp
  then show ?thesis
    using s' by (intro exI [of _ s']) (simp add: api_quote_def fl_simps pair_for_def)
qed

text \<open>Whatever an IB subscription quotes, the rate stored is USD per unit of the currency: with the
  default contracts, and qualification keeping a contract's pair, every handler inverts exactly
  when IB's market convention has USD as the base, and a tick at price q stores q for EURUSD and
  the like and 1/q for USDJPY and the like.\<close>
theorem subscriptions_store_usd_per_unit:
  assumes forex: "\<And>p. c_pair (forex p) = Method (Inr (VStr p))"
    and factory: "factory api = default_forex_factory forex"
    and qualify: "\<And>c k. qualify_forex_contract (fx_ib s) api c = Some k \<Longrightarrow> c_pair k = c_pair c"
    and run: "fx_handlers s = []" "ensure_subscribed rt api s cs = (e, s')"
    and tick: "(c, i) \<in> set (fx_handlers s')" "extract_forex_price t = Some (Fin q)"
  shows "\<exists>s'' r. on_tick s' now has_loop (c, i) t = Inr s'' \<and> map_of (ib_rates s'') c = Some r
    \<and> r_rate r = Fin (if c \<in> set IB_DIRECT_USD_TERMS then q else 1 / q)"
proof -
  have "qualify_forex_contract (fx_ib s) api (factory api d) = Some k \<Longrightarrow>
      c_pair k = Method (Inr (VStr (fst (ib_pair_for d))))" for d k
    using qualify [of "factory api d" k] by (simp add: factory default_forex_factory_def forex)
  moreover have "subscribe_all rt api s cs = (e, s')"
    using run tick(1) by (auto simp: ensure_subscribed_def split: if_splits)
  ultimately have i: "i = snd (ib_pair_for c)"
    using subscribe_all_direction [of s api rt cs e s' c i] run(1) tick(1) by simp
  have q: "q \<noteq> 0" using extract_forex_price_pos [OF tick(2)] by auto
  define p where "p = Fin (if c \<in> set IB_DIRECT_USD_TERMS then q else 1 / q)"
  have price: "(if i then py_div 1 (Fin q) else Inr (Fin q)) = Inr p"
    using q by (simp add: i ib_pair_for_def p_def py_div_def one_fl_def)
  show ?thesis
    using price tick(2)
    by (cases "map_of (ib_rates s') c")
      (auto simp: on_tick_def Let_def p_def [symmetric] dict_simps dest: feq_imp_eq)
qed

definition demo_forex :: "string \<Rightarrow> ForexContract" where
  "demo_forex p = \<lparr>c_pair = Method (Inr (VStr p)), c_symbol = VStr (take 3 p), c_currency = VStr (drop 3 p)\<rparr>"

definition demo_api :: ForexApi where
  "demo_api = \<lparr>factory = default_forex_factory demo_forex, qualify = None, subscribes = (\<lambda>c. True)\<rparr>"

theorem subscriptions_store_usd_per_unit_witness:
  "\<exists>s'' r. on_tick (snd (ensure_subscribed (\<lambda>v. []) demo_api (fx_new None True) [''JPY'', ''EUR'']))
      0 False (''JPY'', True) \<lparr>t_bid = Some 150, t_ask = Some 150, t_last = None, t_market_price = None\<rparr> = Inr s''
    \<and> map_of (ib_rates s'') ''JPY'' = Some r \<and> r_rate r = Fin (1 / 150)"
proof -
  let ?s' = "snd (ensure_subscribed (\<lambda>v. []) demo_api (fx_new None True) [''JPY'', ''EUR''])"
  let ?t = "\<lparr>t_bid = Some 150, t_ask = Some 150, t_last = None, t_market_price = None\<rparr> :: FxTicker"
  have run: "ensure_subscribed (\<lambda>v. []) demo_api (fx_new None True) [''JPY'', ''EUR''] = (None, ?s')"
    by code_simp
  have h: "(''JPY'', True) \<in> set (fx_handlers ?s')" by code_simp
  have t: "extract_forex_price ?t = Some (Fin 150)"
    by (simp add: extract_forex_price_def fl_simps)
  have nd: "''JPY'' \<notin> set IB_DIRECT_USD_TERMS" by code_simp
  have "\<exists>s'' r. on_tick ?s' 0 False (''JPY'', True) ?t = Inr s'' \<and> map_of (ib_rates s'') ''JPY'' = Some r
    \<and> r_rate r = Fin (if ''JPY'' \<in> set IB_DIRECT_USD_TERMS then 150 else 1 / 150)"
    by (rule subscriptions_store_usd_per_unit [OF _ _ _ _ run h t, where forex = demo_forex])
      (simp_all add: demo_forex_def demo_api_def qualify_forex_contract_def fx_new_def split: if_splits)
  with nd show ?thesis by simp
qed

text \<open>A currency outside the supported set stops a subscription round: the error leaves the loop,
  the currencies before it keep their subscriptions and those after it get none.\<close>
theorem unsupported_currency_stops_subscriptions:
  assumes "fx_ib s" "subscribe_all rt api s pre = (None, s1)"
    and "validate_currency bad = Inl e" "bad \<notin> fst ` set (tickers s1)"
  shows "ensure_subscribed rt api s (pre @ bad # post) = (Some e, s1)"
proof -
  have "bad \<noteq> ''USD''" using assms(3) by (auto simp: validate_currency_def)
  then have "subscribe_one rt api s1 bad = (Some e, s1)"
    using assms(3,4) by (simp add: subscribe_one_def)
  from subscribe_all_stops [OF assms(2) this, of post] assms(1) show ?thesis
    by (simp add: ensure_subscribed_def)
qed

theorem unsupported_currency_stops_subscriptions_witness:
  "ensure_subscribed (\<lambda>v. []) demo_api (fx_new None True) ([''JPY''] @ ''NOK'' # [''EUR''])
   = (Some (ValueError ''Currency not in SUPPORTED_FX''),
      snd (subscribe_all (\<lambda>v. []) demo_api (fx_new None True) [''JPY'']))"
proof (rule unsupported_currency_stops_subscriptions)
  show "fx_ib (fx_new None True)" by (simp add: fx_new_def)
  show "subscribe_all (\<lambda>v. []) demo_api (fx_new None True) [''JPY'']
    = (None, snd (subscribe_all (\<lambda>v. []) demo_api (fx_new None True) [''JPY'']))" by code_simp
  show "validate_currency ''NOK'' = Inl (ValueError ''Currency not in SUPPORTED_FX'')" by code_simp
  show "''NOK'' \<notin> fst ` set (tickers (snd (subscribe_all (\<lambda>v. []) demo_api (fx_new None True) [''JPY''])))"
    by code_simp
qed

text \<open>A rate written to the database survives a restart in the bucket of its source: a new service
  on that database starts with exactly that rate for the currency and nothing in the other
  bucket.\<close>
theorem rate_survives_restart:
  assumes "fx_store s = Some st" "c \<in> set SUPPORTED_FX" "r_pair r = pair_for c" "r_rate r \<noteq> NaN"
    and "set_rate s now True r = Inr s'"
    and "s'' = fx_start (fx_new (fx_store s') False) now' db None"
  shows "map_of (ib_rates s'') c = (if r_source r = IB then Some (r\<lparr>r_is_stale := False\<rparr>) else None)
    \<and> map_of (api_rates s'') c = (if r_source r = IB then None else Some (r\<lparr>r_is_stale := False\<rparr>))"
proof -
  define st' where "st' = st\<lparr>fx_cache := AList.update (r_pair r)
    \<lparr>fc_rate = r_rate r, fc_source = r_source r, fc_quoted_at = r_quoted_at r, fc_updated_at = now\<rparr>
    (fx_cache st)\<rparr>"
  have "fx_store s' = Some st'"
    using assms(1-5) supportedD [OF assms(2)]
    by (auto simp: set_rate_def persist_rate_def put_fx_rate_def put_bucket_def st'_def)
  then have start: "s'' = foldl (\<lambda>s c. load_cached s st' c) (fx_new (Some st') False) SUPPORTED_FX"
    using assms(6) by (simp add: fx_start_def fx_new_def refresh_from_api_def)
  have row: "get_fx_rate st' (pair_for c) = Some \<lparr>fc_rate = r_rate r, fc_source = r_source r,
      fc_quoted_at = r_quoted_at r, fc_updated_at = now\<rparr>"
    using assms(3) by (simp add: get_fx_rate_def st'_def dict_simps)
  have r: "\<lparr>r_pair = pair_for c, r_rate = r_rate r, r_quoted_at = r_quoted_at r, r_is_stale = False,
      r_source = r_source r\<rparr> = r\<lparr>r_is_stale := False\<rparr>"
    using assms(3) by (cases r) simp
  have loaded: "load_cached (fx_new (Some st') False) st' c
      = put_bucket (fx_new (Some st') False) c (r\<lparr>r_is_stale := False\<rparr>)"
    using row r by (simp add: load_cached_def)
  show ?thesis
    unfolding start
    using load_cached_all [OF assms(2) supported_distinct, of st' "fx_new (Some st') False"]
    unfolding loaded
    by (simp add: put_bucket_def fx_new_def)
qed

theorem rate_survives_restart_witness:
  "\<exists>s'. set_rate (fx_new (Some empty_store) True) 5 True
       \<lparr>r_pair = ''HKDUSD'', r_rate = 1, r_quoted_at = 4, r_is_stale = False, r_source = IB\<rparr> = Inr s'
    \<and> map_of (ib_rates (fx_start (fx_new (fx_store s') False) 9 True None)) ''HKD''
      = Some \<lparr>r_pair = ''HKDUSD'', r_rate = 1, r_quoted_at = 4, r_is_stale = False, r_source = IB\<rparr>"
proof -
  let ?r = "\<lparr>r_pair = ''HKDUSD'', r_rate = 1, r_quoted_at = 4, r_is_stale = False, r_source = IB\<rparr>"
  have sup: "''HKD'' \<in> set SUPPORTED_FX" by code_simp
  have pair: "r_pair ?r = pair_for ''HKD''" by (simp add: pair_for_def)
  have st: "fx_store (fx_new (Some empty_store) True) = Some empty_store" by (simp add: fx_new_def)
  have nn: "r_rate ?r \<noteq> NaN" by (simp add: fl_simps)
  obtain s' where s': "set_rate (fx_new (Some empty_store) True) 5 True ?r = Inr s'"
    using supportedD [OF sup] by (simp add: set_rate_def)
  from rate_survives_restart [OF st sup pair nn s' refl, of 9 True] s' show ?thesis by auto
qed

text \<open>A quote that is NaN passes the guard: the rate read from then on is NaN, as if there were one.\<close>
theorem nan_quote_is_stored:
  assumes "fx_reachable s" "c \<in> set SUPPORTED_FX" "c \<noteq> ''CNH''" "map_of (ib_rates s) c = None"
  shows "\<exists>s' r. refresh_from_api s now db (Some (Inr (JObj [(''rates'', JObj [(c, JNum NaN)])]))) = Inr s'
    \<and> get_rate_sync s' now' c = Inr (Some r) \<and> r_rate r = NaN"
proof -
  let ?rs = "[(c, JNum NaN)]"
  obtain s' where s': "refresh_from_api s now db (Some (Inr (JObj [(''rates'', JObj ?rs)]))) = Inr s'" "fx_ok s'"
    using fx_ok_refresh [OF fx_reachable_ok [OF assms(1)]] by blast
  then have all: "refresh_all (JObj ?rs) now db s SUPPORTED_FX = Inr s'" by (simp add: refresh_from_api_def)
  have "1 / NaN = NaN" by (simp add: divide_fl_def one_fl_def times_fl_def)
  moreover have "api_quote (JObj ?rs) c = Some NaN" using assms(3) by (simp add: api_quote_def fl_simps)
  ultimately obtain r where r: "map_of (api_rates s') c = Some r" "r_rate r = NaN" "map_of (ib_rates s') c = None"
    using refresh_all_effect [OF subset_refl supported_distinct all] assms(2,4) by auto
  with get_rate_table [OF s'(2) assms(2), of now'] s'(1) show ?thesis by auto
qed

text \<open>C16. An adapter's conversion to USD always answers, in every run of the service, and its values are exact: a
  dollar amount is kept as it is; in another currency the value and the profit, whatever their signs,
  are each multiplied by the one rate the service has at that moment, which is never negative, though
  NaN if the API quoted NaN; and without a rate, exactly when the currency is not supported or neither
  IB nor the API has quoted it, both are zero and only the unavailable flag is set. The stale and the
  fallback flag are those of the rate and never both set.\<close>
theorem conversion_sound:
  assumes "fx_reachable s"
  shows "\<exists>conv. convert_to_usd (Some (get_rate_sync s now)) c mv pnl = Inr conv
    \<and> (c = ''USD'' \<longrightarrow> conv_mv_usd conv = mv \<and> conv_pnl_usd conv = pnl \<and> \<not> conv_is_stale conv \<and> \<not> conv_is_fallback conv)
    \<and> (c \<noteq> ''USD'' \<and> \<not> conv_unavailable conv \<longrightarrow> (\<exists>r. get_rate_sync s now c = Inr (Some r) \<and> (0 \<le> r_rate r \<or> r_rate r = NaN)
        \<and> conv_mv_usd conv = mv * r_rate r \<and> conv_pnl_usd conv = pnl * r_rate r
        \<and> conv_is_stale conv = r_is_stale r \<and> conv_is_fallback conv = (r_source r = API_FALLBACK)))
    \<and> (conv_unavailable conv \<longleftrightarrow> c \<noteq> ''USD'' \<and>
        (c \<notin> set SUPPORTED_FX \<or> map_of (ib_rates s) c = None \<and> map_of (api_rates s) c = None))
    \<and> (conv_unavailable conv \<longrightarrow> conv_mv_usd conv = 0 \<and> conv_pnl_usd conv = 0 \<and> \<not> conv_is_stale conv \<and> \<not> conv_is_fallback conv)
    \<and> \<not> (conv_is_stale conv \<and> conv_is_fallback conv)"
proof -
  note ok = fx_reachable_ok [OF assms]
  obtain conv where conv: "convert_to_usd (Some (get_rate_sync s now)) c mv pnl = Inr conv"
    using fx_rates.conversion_total by blast
  note vals = fx_rates.conversion_values [OF conv]
  have found: "conv_unavailable conv \<longleftrightarrow> c \<noteq> ''USD'' \<and>
      (c \<notin> set SUPPORTED_FX \<or> map_of (ib_rates s) c = None \<and> map_of (api_rates s) c = None)"
    using vals(3) get_rate_found [OF ok, of c now] by blast
  have rate: "\<exists>r. get_rate_sync s now c = Inr (Some r) \<and> (0 \<le> r_rate r \<or> r_rate r = NaN)
      \<and> conv_mv_usd conv = mv * r_rate r \<and> conv_pnl_usd conv = pnl * r_rate r
      \<and> conv_is_stale conv = r_is_stale r \<and> conv_is_fallback conv = (r_source r = API_FALLBACK)"
    if not_usd: "c \<noteq> ''USD''" and there: "\<not> conv_unavailable conv"
  proof -
    obtain r where r: "get_rate_sync s now c = Inr (Some r)" using vals(3) not_usd there by blast
    from get_rate_row [OF ok r] vals(2) [OF not_usd r] r show ?thesis
      by (intro exI [of _ r]) (simp add: rate_sound_def)
  qed
  from conv found rate vals(1) fx_rates.conversion_flags [OF ok conv] show ?thesis
    by (intro exI [of _ conv]) auto
qed

text \<open>Four Hong Kong dollars short, at a profit of two.\<close>
theorem conversion_sound_witness:
  "\<exists>conv. convert_to_usd (Some (get_rate_sync demo_fx 0)) ''HKD'' (Fin (- 4)) 2 = Inr conv
     \<and> \<not> conv_unavailable conv \<and> conv_is_fallback conv
     \<and> conv_mv_usd conv = Fin (- 4) * Fin (5/39) \<and> conv_pnl_usd conv = 2 * Fin (5/39)"
proof -
  have hkd: "''HKD'' \<in> set SUPPORTED_FX" "map_of (api_rates demo_fx) ''HKD'' \<noteq> None" by code_simp+
  have r: "get_rate_sync demo_fx 0 ''HKD'' = Inr (Some \<lparr>r_pair = ''HKDUSD'', r_rate = Fin (5/39), r_quoted_at = days 738943,
      r_is_stale = False, r_source = API_FALLBACK\<rparr>)" by code_simp
  obtain conv where "convert_to_usd (Some (get_rate_sync demo_fx 0)) ''HKD'' (Fin (- 4)) 2 = Inr conv"
    "\<not> conv_unavailable conv" "\<exists>r. get_rate_sync demo_fx 0 ''HKD'' = Inr (Some r)
        \<and> conv_mv_usd conv = Fin (- 4) * r_rate r \<and> conv_pnl_usd conv = 2 * r_rate r
        \<and> conv_is_fallback conv = (r_source r = API_FALLBACK)"
    using conversion_sound [OF demo_fx_reachable, of 0 "''HKD''" "Fin (- 4)" 2] hkd by auto
  with r show ?thesis by auto
qed

end
