(* ===== verification/Composite.thy ===== *)
theory Composite
  imports Broker
begin

text \<open>
  \<open>app/core/composite_broker.py\<close>: several brokers behind the surface of one. An adapter is the
  record \<open>Broker\<close> with the results its calls would give; an operation that only causes calls gives
  the list of calls it makes, in order, and \<open>outcome\<close> says what each of them returns or raises.
  \<open>CancelledError\<close> is not an \<open>Exception\<close>: no handler of the code catches it.
\<close>

datatype broker_call = CallStart | CallConnect | CallRetryNow | CallDisconnect

type_synonym outcomes = "nat \<Rightarrow> broker_call \<Rightarrow> unit result"

text \<open>\<open>asyncio.gather\<close> without \<open>return_exceptions\<close>: the first failure in the order of completion is
  raised; \<open>finish\<close> lists the positions in that order.\<close>

definition gather_first :: "nat list \<Rightarrow> 'a result list \<Rightarrow> 'a list result" where
  "gather_first finish rs =
     (case filter (\<lambda>i. i < length rs \<and> (case rs ! i of Inl e \<Rightarrow> True | Inr x \<Rightarrow> False)) finish of
        [] \<Rightarrow> rmap_list (\<lambda>r. r) rs
      | i # is \<Rightarrow> rmap_list (\<lambda>r. r) [rs ! i])"

definition composite_new :: "Broker list \<Rightarrow> Broker list result" where
  "composite_new adapters =
     (if adapters = [] then Inl (ValueError ''CompositeBroker requires at least one adapter'')
      else Inr adapters)"

definition start_one :: "Broker \<Rightarrow> broker_call" where
  "start_one a = (if b_has_start a then CallStart else CallConnect)"

definition composite_start :: "nat list \<Rightarrow> outcomes \<Rightarrow> Broker list \<Rightarrow> (nat \<times> broker_call) list \<times> unit result" where
  "composite_start finish outcome adapters =
     (let calls = map (\<lambda>(i, a). (i, start_one a)) (enumerate 0 adapters)
      in (calls, rbind (gather_first finish (map (\<lambda>(i, c). outcome i c) calls)) (\<lambda>us. Inr ())))"

text \<open>\<open>disconnect\<close> calls every adapter and swallows what each raises.\<close>

definition composite_disconnect :: "Broker list \<Rightarrow> (nat \<times> broker_call) list" where
  "composite_disconnect adapters = map (\<lambda>(i, a). (i, CallDisconnect)) (enumerate 0 adapters)"

definition state_pair :: "Broker \<Rightarrow> (string \<times> ConnectionState) result" where
  "state_pair a =
     (case b_get_connection_state a of
        Inr st \<Rightarrow> Inr (b_name a, st)
      | Inl CancelledError \<Rightarrow> Inl CancelledError
      | Inl e \<Rightarrow> Inr (b_name a, DISCONNECTED))"

definition get_connection_states :: "Broker list \<Rightarrow> (string, ConnectionState) dict result" where
  "get_connection_states adapters =
     rbind (rmap_list state_pair adapters) (\<lambda>pairs. Inr (dict_of pairs))"

definition combine_states :: "ConnectionState list \<Rightarrow> ConnectionState" where
  "combine_states states =
     (if states = [] then DISCONNECTED
      else if list_all (\<lambda>st. st = CONNECTED) states then CONNECTED
      else if list_ex (\<lambda>st. st = CONNECTED \<or> st = RECONNECTING) states then RECONNECTING
      else DISCONNECTED)"

definition composite_state :: "Broker list \<Rightarrow> ConnectionState result" where
  "composite_state adapters =
     rbind (get_connection_states adapters) (\<lambda>states. Inr (combine_states (dict_values states)))"

definition composite_is_connected :: "Broker list \<Rightarrow> bool result" where
  "composite_is_connected adapters = rbind (composite_state adapters) (\<lambda>st. Inr (st = CONNECTED))"

fun composite_backoff_delay :: "Broker list \<Rightarrow> fl option" where
  "composite_backoff_delay [] = None"
| "composite_backoff_delay (a # as) =
     (case b_current_backoff_delay a of
        Some (Some d) \<Rightarrow> Some d
      | _ \<Rightarrow> composite_backoff_delay as)"

text \<open>
  The loop over gathered results: a failure is logged and skipped. A cancelled child is handed back
  as a value that is not an \<open>Exception\<close>, and extending the list with it raises a TypeError.
\<close>

fun extend_results :: "'a list result list \<Rightarrow> 'a list result" where
  "extend_results [] = Inr []"
| "extend_results (Inl CancelledError # rs) = Inl TypeError"
| "extend_results (Inl e # rs) = extend_results rs"
| "extend_results (Inr xs # rs) = rbind (extend_results rs) (\<lambda>ys. Inr (xs @ ys))"

definition composite_positions :: "Broker list \<Rightarrow> Position list result" where
  "composite_positions adapters = extend_results (map b_get_positions adapters)"

definition composite_account_summary :: "Broker list \<Rightarrow> AccountSummary list result" where
  "composite_account_summary adapters = extend_results (map b_get_account_summary adapters)"

text \<open>Only disconnected children are started.\<close>

definition retry_disconnected ::
    "nat list \<Rightarrow> outcomes \<Rightarrow> Broker list \<Rightarrow> ((nat \<times> broker_call) list \<times> unit result) result" where
  "retry_disconnected finish outcome adapters =
     rbind (get_connection_states adapters) (\<lambda>states.
       let calls = map (\<lambda>(i, a). (i, start_one a))
             (filter (\<lambda>(i, a). map_of states (b_name a) = Some DISCONNECTED) (enumerate 0 adapters))
       in Inr (calls, rbind (gather_first finish (map (\<lambda>(i, c). outcome i c) calls)) (\<lambda>us. Inr ())))"

definition retry_operation :: "(string, ConnectionState) dict \<Rightarrow> nat \<times> Broker \<Rightarrow> (nat \<times> broker_call) list" where
  "retry_operation states ia =
     (case ia of (i, a) \<Rightarrow>
        (case map_of states (b_name a) of
           Some RECONNECTING \<Rightarrow> if b_has_retry_now a then [(i, CallRetryNow)] else []
         | Some DISCONNECTED \<Rightarrow> [(i, start_one a)]
         | _ \<Rightarrow> []))"

text \<open>The results are read in order; a cancelled operation is re-raised, any other failure logged.\<close>

fun first_cancelled :: "unit result list \<Rightarrow> unit result" where
  "first_cancelled [] = Inr ()"
| "first_cancelled (Inl CancelledError # rs) = Inl CancelledError"
| "first_cancelled (r # rs) = first_cancelled rs"

definition composite_retry_now ::
    "outcomes \<Rightarrow> Broker list \<Rightarrow> ((nat \<times> broker_call) list \<times> unit result) result" where
  "composite_retry_now outcome adapters =
     rbind (get_connection_states adapters) (\<lambda>states.
       let calls = concat (map (retry_operation states) (enumerate 0 adapters))
       in Inr (calls, first_cancelled (map (\<lambda>(i, c). outcome i c) calls)))"

text \<open>The composite as a broker of its own.\<close>

definition composite_broker :: "Broker list \<Rightarrow> Broker" where
  "composite_broker adapters =
     \<lparr>b_name = ''Composite'', b_get_connection_state = composite_state adapters,
      b_get_positions = composite_positions adapters,
      b_get_account_summary = composite_account_summary adapters,
      b_current_backoff_delay = Some (composite_backoff_delay adapters),
      b_has_start = True, b_has_retry_now = True\<rparr>"

section \<open>Lemmas\<close>

text \<open>The state the composite works with for one adapter: a failing lookup counts as disconnected.\<close>

definition seen_state :: "Broker \<Rightarrow> ConnectionState" where
  "seen_state a = (case b_get_connection_state a of Inr st \<Rightarrow> st | Inl e \<Rightarrow> DISCONNECTED)"

lemma state_pair_seen:
  "b_get_connection_state a \<noteq> Inl CancelledError \<Longrightarrow> state_pair a = Inr (b_name a, seen_state a)"
  by (auto simp: state_pair_def seen_state_def split: sum.splits py_exc.splits)

lemma states_seen:
  assumes "list_all (\<lambda>a. b_get_connection_state a \<noteq> Inl CancelledError) adapters"
    and "distinct (map b_name adapters)"
  shows "get_connection_states adapters = Inr (map (\<lambda>a. (b_name a, seen_state a)) adapters)"
proof -
  have "rmap_list state_pair adapters = Inr (map (\<lambda>a. (b_name a, seen_state a)) adapters)"
    using assms(1) by (intro rmap_list_Inr_map state_pair_seen) (simp add: list_all_iff)
  moreover have "dict_of (map (\<lambda>a. (b_name a, seen_state a)) adapters)
      = map (\<lambda>a. (b_name a, seen_state a)) adapters"
    using assms(2) by (intro dict_of_distinct) (simp add: o_def)
  ultimately show ?thesis by (simp add: get_connection_states_def)
qed

lemma seen_lookup:
  "distinct (map b_name adapters) \<Longrightarrow> a \<in> set adapters \<Longrightarrow>
     map_of (map (\<lambda>a. (b_name a, seen_state a)) adapters) (b_name a) = Some (seen_state a)"
  by (rule map_of_is_SomeI) (auto simp: o_def)

lemma combine_states_cases:
  "states \<noteq> [] \<Longrightarrow>
     (combine_states states = CONNECTED \<longleftrightarrow> set states \<subseteq> {CONNECTED})
   \<and> (combine_states states = DISCONNECTED \<longleftrightarrow> set states \<subseteq> {DISCONNECTED})"
  by (cases states) (auto simp: combine_states_def list_all_iff list_ex_iff; metis ConnectionState.exhaust)+

lemma extend_results_concat:
  "Inl CancelledError \<notin> set rs \<Longrightarrow> extend_results rs = Inr (concat (rights rs))"
proof (induction rs)
  case (Cons r rs)
  show ?case
  proof (cases r)
    case (Inl e)
    with Cons show ?thesis by (cases e) auto
  next
    case (Inr xs)
    with Cons show ?thesis by simp
  qed
qed simp

lemma retry_operation_call:
  "(i, c) \<in> set (retry_operation states (j, a)) \<Longrightarrow> i = j"
  by (cases "map_of states (b_name a)"; cases "the (map_of states (b_name a))")
    (auto simp: retry_operation_def split: if_splits)

lemma concat_map_single:
  "distinct (map fst xs) \<Longrightarrow> (i, a) \<in> set xs \<Longrightarrow> (\<And>p q. p \<in> set (f q) \<Longrightarrow> fst p = fst q) \<Longrightarrow>
     (i, c) \<in> set (concat (map f xs)) \<longleftrightarrow> (i, c) \<in> set (f (i, a))"
  by (force simp: dest: eq_key_imp_eq_value)

lemma retry_calls:
  assumes "list_all (\<lambda>a. b_get_connection_state a \<noteq> Inl CancelledError) adapters"
    and "distinct (map b_name adapters)" "i < length adapters"
    and "composite_retry_now outcome adapters = Inr (calls, res)"
  shows "(i, c) \<in> set calls \<longleftrightarrow>
     (case seen_state (adapters ! i) of
        CONNECTED \<Rightarrow> False
      | RECONNECTING \<Rightarrow> b_has_retry_now (adapters ! i) \<and> c = CallRetryNow
      | DISCONNECTED \<Rightarrow> c = start_one (adapters ! i))"
proof -
  let ?states = "map (\<lambda>a. (b_name a, seen_state a)) adapters"
  have calls: "calls = concat (map (retry_operation ?states) (enumerate 0 adapters))"
    using assms(4) by (auto simp: composite_retry_now_def states_seen [OF assms(1,2)] Let_def)
  have look: "map_of ?states (b_name (adapters ! i)) = Some (seen_state (adapters ! i))"
    using seen_lookup [OF assms(2)] assms(3) by simp
  have mem: "(i, adapters ! i) \<in> set (enumerate 0 adapters)"
    using assms(3) by (simp add: in_set_enumerate_eq)
  have same: "p \<in> set (retry_operation ?states q) \<Longrightarrow> fst p = fst q" for p q
    by (cases p; cases q) (auto dest: retry_operation_call)
  have "(i, c) \<in> set calls \<longleftrightarrow> (i, c) \<in> set (retry_operation ?states (i, adapters ! i))"
    unfolding calls by (rule concat_map_single [OF _ mem same]) simp_all
  then show ?thesis
    by (cases "seen_state (adapters ! i)") (auto simp: retry_operation_def look)
qed

section \<open>Properties\<close>

text \<open>C21. The composite is a faithful summary of its adapters: it is connected exactly when all of
  them are and disconnected exactly when all of them are (a state that cannot be read counts as
  disconnected), and it is reconnecting in every other case.\<close>
theorem composite_state_summary:
  assumes "adapters \<noteq> []" "distinct (map b_name adapters)"
    and "list_all (\<lambda>a. b_get_connection_state a \<noteq> Inl CancelledError) adapters"
  shows "\<exists>st. composite_state adapters = Inr st
    \<and> (st = CONNECTED \<longleftrightarrow> list_all (\<lambda>a. seen_state a = CONNECTED) adapters)
    \<and> (st = DISCONNECTED \<longleftrightarrow> list_all (\<lambda>a. seen_state a = DISCONNECTED) adapters)"
proof -
  have "composite_state adapters = Inr (combine_states (map seen_state adapters))"
    by (simp add: composite_state_def states_seen [OF assms(3,2)] dict_values_def o_def)
  moreover have "map seen_state adapters \<noteq> []" using assms(1) by simp
  ultimately show ?thesis
    using combine_states_cases [of "map seen_state adapters"]
    by (auto simp: list_all_iff image_subset_iff)
qed

definition demo_broker :: "string \<Rightarrow> ConnectionState result \<Rightarrow> Position list result \<Rightarrow> Broker" where
  "demo_broker name st ps = \<lparr>b_name = name, b_get_connection_state = st, b_get_positions = ps,
     b_get_account_summary = Inr [], b_current_backoff_delay = None, b_has_start = True,
     b_has_retry_now = True\<rparr>"

theorem composite_state_summary_witness:
  "\<exists>st. composite_state [demo_broker ''IBKR'' (Inr CONNECTED) (Inr []), demo_broker ''Tiger'' (Inl TimeoutError) (Inr [])] = Inr st
     \<and> st \<noteq> CONNECTED \<and> st \<noteq> DISCONNECTED"
  using composite_state_summary [of "[demo_broker ''IBKR'' (Inr CONNECTED) (Inr []), demo_broker ''Tiger'' (Inl TimeoutError) (Inr [])]"]
  by (auto simp: demo_broker_def seen_state_def)

text \<open>One failing adapter hides no other: the composite's positions are those of every adapter
  that answered, in the adapters' order, and the call itself does not fail, unless an adapter's
  call was cancelled, which surfaces as a TypeError.\<close>
theorem composite_positions_isolated:
  "composite_positions adapters =
     (if Inl CancelledError \<in> set (map b_get_positions adapters) then Inl TypeError
      else Inr (concat (rights (map b_get_positions adapters))))"
proof -
  have "Inl CancelledError \<in> set rs \<Longrightarrow> extend_results rs = Inl TypeError"
    for rs :: "Position list result list"
  proof (induction rs)
    case (Cons r rs)
    show ?case
    proof (cases r)
      case (Inl e)
      with Cons show ?thesis by (cases e) auto
    qed (use Cons in auto)
  qed simp
  then show ?thesis by (simp add: composite_positions_def extend_results_concat)
qed

text \<open>C22. A retry wakes exactly the adapters that are down: a disconnected one is started, a
  reconnecting one that can be woken is woken, a connected one is left alone, and a failing child
  does not keep the others from being retried.\<close>
theorem composite_retry_exact:
  assumes "distinct (map b_name adapters)"
    and "list_all (\<lambda>a. b_get_connection_state a \<noteq> Inl CancelledError) adapters"
    and "\<And>i c. outcome i c \<noteq> Inl CancelledError"
  shows "\<exists>calls. composite_retry_now outcome adapters = Inr (calls, Inr ())
    \<and> (\<forall>i < length adapters. \<forall>c. (i, c) \<in> set calls \<longleftrightarrow>
       (case seen_state (adapters ! i) of
          CONNECTED \<Rightarrow> False
        | RECONNECTING \<Rightarrow> b_has_retry_now (adapters ! i) \<and> c = CallRetryNow
        | DISCONNECTED \<Rightarrow> c = start_one (adapters ! i)))"
proof -
  have none: "first_cancelled (map (\<lambda>(i, c). outcome i c) calls) = Inr ()" for calls
  proof (induction calls)
    case (Cons p calls)
    obtain i c where p: "p = (i, c)" by fastforce
    show ?case
    proof (cases "outcome i c")
      case (Inl e)
      with Cons p assms(3) [of i c] show ?thesis by (cases e) auto
    qed (use Cons p in simp)
  qed simp
  obtain calls where calls: "composite_retry_now outcome adapters = Inr (calls, Inr ())"
    by (simp add: composite_retry_now_def states_seen [OF assms(2,1)] Let_def none)
  with retry_calls [OF assms(2,1) _ calls] show ?thesis by blast
qed

theorem composite_retry_exact_witness:
  "\<exists>calls. composite_retry_now (\<lambda>i c. Inl TimeoutError)
      [demo_broker ''IBKR'' (Inr CONNECTED) (Inr []), demo_broker ''Tiger'' (Inr DISCONNECTED) (Inr [])] = Inr (calls, Inr ())
     \<and> (1, CallStart) \<in> set calls \<and> (0, CallStart) \<notin> set calls"
proof -
  let ?as = "[demo_broker ''IBKR'' (Inr CONNECTED) (Inr []), demo_broker ''Tiger'' (Inr DISCONNECTED) (Inr [])]"
  obtain calls where calls: "composite_retry_now (\<lambda>i c. Inl TimeoutError) ?as = Inr (calls, Inr ())"
    and spec: "\<forall>i < length ?as. \<forall>c. (i, c) \<in> set calls \<longleftrightarrow>
       (case seen_state (?as ! i) of
          CONNECTED \<Rightarrow> False
        | RECONNECTING \<Rightarrow> b_has_retry_now (?as ! i) \<and> c = CallRetryNow
        | DISCONNECTED \<Rightarrow> c = start_one (?as ! i))"
    using composite_retry_exact [of ?as "\<lambda>i c. Inl TimeoutError"] by (auto simp: demo_broker_def)
  have "(1, CallStart) \<in> set calls" "(0, CallStart) \<notin> set calls"
    using spec [rule_format, of 1 CallStart] spec [rule_format, of 0 CallStart]
    by (simp_all add: seen_state_def demo_broker_def start_one_def)
  with calls show ?thesis by blast
qed

end
