(* ===== verification/Recovery.thy ===== *)
theory Recovery
  imports Composite
begin

text \<open>
  \<open>app/core/ibkr_recovery.py\<close>, \<open>app/core/gateway_control.py\<close> and the notifier choice of
  \<open>app/core/notifications.py\<close>: the status map, the retry entry points, environment settings, and
  the gateway restart with the splitting of its command line, its timeout and its clean-up.
  The environment is a dictionary; the process the command starts is a parameter.
\<close>

type_synonym environ = "(string, string) dict"

definition env_get :: "environ \<Rightarrow> string \<Rightarrow> string \<Rightarrow> string" where
  "env_get env name dflt = (case map_of env name of Some v \<Rightarrow> v | None \<Rightarrow> dflt)"

fun state_to_string :: "ConnectionState \<Rightarrow> string" where
  "state_to_string CONNECTED = ''connected''"
| "state_to_string RECONNECTING = ''reconnecting''"
| "state_to_string DISCONNECTED = ''disconnected''"

text \<open>The broker the app runs with: one adapter or a composite, as \<open>getattr\<close> tells them apart.\<close>

datatype BrokerRef = Single Broker | Several "Broker list"

definition broker_status_map :: "BrokerRef \<Rightarrow> (string, string) dict result" where
  "broker_status_map ref =
     (case ref of
        Several as \<Rightarrow>
          rbind (get_connection_states as) (\<lambda>states.
            Inr (dict_of (map (\<lambda>(n, st). (py_lower n, state_to_string st)) states)))
      | Single a \<Rightarrow>
          rbind (b_get_connection_state a) (\<lambda>st.
            Inr [(py_lower (b_name a), state_to_string st)]))"

definition retry_broker_now ::
    "outcomes \<Rightarrow> BrokerRef \<Rightarrow> ((nat \<times> broker_call) list \<times> unit result) result" where
  "retry_broker_now outcome ref =
     (case ref of
        Several as \<Rightarrow> composite_retry_now outcome as
      | Single a \<Rightarrow>
          if b_has_retry_now a then Inr ([(0, CallRetryNow)], outcome 0 CallRetryNow)
          else rbind (b_get_connection_state a) (\<lambda>st.
            if st = DISCONNECTED
            then Inr ([(0, start_one a)], outcome 0 (start_one a))
            else Inr ([], Inr ())))"

definition select_ibkr_broker :: "BrokerRef \<Rightarrow> Broker option" where
  "select_ibkr_broker ref =
     (case ref of
        Single a \<Rightarrow> if py_lower (b_name a) = ''ibkr'' then Some a else None
      | Several as \<Rightarrow> find (\<lambda>a. py_lower (b_name a) = ''ibkr'') as)"

definition positive_env_float :: "environ \<Rightarrow> string \<Rightarrow> fl \<Rightarrow> fl" where
  "positive_env_float env name dflt =
     (let raw = py_strip (env_get env name [])
      in if raw = [] then dflt
         else (case py_float_of_str raw of
                 None \<Rightarrow> dflt
               | Some v \<Rightarrow> if \<not> is_finite v \<or> v \<le> 0 then dflt else v))"

definition env_bool :: "environ \<Rightarrow> string \<Rightarrow> bool \<Rightarrow> bool" where
  "env_bool env name dflt =
     (case map_of env name of
        None \<Rightarrow> dflt
      | Some raw \<Rightarrow> py_lower (py_strip raw) \<in> {''1'', ''true'', ''yes'', ''on''})"

definition gateway_restart_visible_for_statuses :: "environ \<Rightarrow> (string, string) dict \<Rightarrow> bool" where
  "gateway_restart_visible_for_statuses env statuses =
     (py_strip (env_get env ''IBKR_GATEWAY_RESTART_COMMAND'' []) \<noteq> []
      \<and> env_bool env ''ADMIN_ALLOW_NO_AUTH'' False
      \<and> env_get env ''ADMIN_TOKEN'' [] = []
      \<and> map_of statuses ''ibkr'' \<in> {Some ''reconnecting'', Some ''disconnected''})"

text \<open>\<open>build_notifier\<close>: the sink is Telegram only when both settings are there.\<close>

datatype NotifierKind = NullNotifier | TelegramNotifier string string

definition build_notifier :: "environ \<Rightarrow> NotifierKind" where
  "build_notifier env =
     (let bot_token = py_strip (env_get env ''TELEGRAM_BOT_TOKEN'' []);
          chat_id = py_strip (env_get env ''TELEGRAM_CHAT_ID'' [])
      in if bot_token = [] \<or> chat_id = [] then NullNotifier else TelegramNotifier bot_token chat_id)"

section \<open>Command lines\<close>

text \<open>
  \<open>shlex.split\<close> in its POSIX mode without comments, as a machine over the characters. \<open>Blank\<close> is
  between words, the other states carry the word so far; an escape inside double quotes only
  escapes a double quote or a backslash.
\<close>

definition shell_spaces :: "char list" where
  "shell_spaces = [CHR '' '', CHR 0x09, CHR 0x0D, CHR 0x0A]"

definition single_quote :: char where
  "single_quote = CHR 0x27"

definition double_quote :: char where
  "double_quote = CHR 0x22"

definition backslash :: char where
  "backslash = CHR 0x5C"

datatype shlex_state =
    Blank
  | Word string
  | Quoted char string
  | Escaped string
  | QuotedEscape string

fun shlex_run :: "shlex_state \<Rightarrow> string \<Rightarrow> string list result" where
  "shlex_run Blank [] = Inr []"
| "shlex_run (Word w) [] = Inr [w]"
| "shlex_run (Quoted q w) [] = Inl (ValueError ''No closing quotation'')"
| "shlex_run (Escaped w) [] = Inl (ValueError ''No escaped character'')"
| "shlex_run (QuotedEscape w) [] = Inl (ValueError ''No escaped character'')"
| "shlex_run Blank (c # cs) =
     (if c \<in> set shell_spaces then shlex_run Blank cs
      else if c = backslash then shlex_run (Escaped []) cs
      else if c = single_quote \<or> c = double_quote then shlex_run (Quoted c []) cs
      else shlex_run (Word [c]) cs)"
| "shlex_run (Word w) (c # cs) =
     (if c \<in> set shell_spaces then rbind (shlex_run Blank cs) (\<lambda>ws. Inr (w # ws))
      else if c = backslash then shlex_run (Escaped w) cs
      else if c = single_quote \<or> c = double_quote then shlex_run (Quoted c w) cs
      else shlex_run (Word (w @ [c])) cs)"
| "shlex_run (Quoted q w) (c # cs) =
     (if c = q then shlex_run (Word w) cs
      else if q = double_quote \<and> c = backslash then shlex_run (QuotedEscape w) cs
      else shlex_run (Quoted q (w @ [c])) cs)"
| "shlex_run (Escaped w) (c # cs) = shlex_run (Word (w @ [c])) cs"
| "shlex_run (QuotedEscape w) (c # cs) =
     shlex_run (Quoted double_quote
       (if c = backslash \<or> c = double_quote then w @ [c] else w @ [backslash, c])) cs"

definition shlex_split :: "string \<Rightarrow> string list result" where
  "shlex_split s = shlex_run Blank s"

section \<open>Gateway restart\<close>

datatype GatewayError =
    GatewayRestartDisabled
  | GatewayRestartFailed string "int option" string string
  | GatewayCancelled

record GatewayRestartResult =
  exit_code :: int
  out_text :: string
  err_text :: string

text \<open>
  How the started process ends within the timeout: it does not start, it does not finish in time,
  the request is cancelled, or it exits (\<open>None\<close>: no return code is known) with its output.
  \<open>signals\<close> is the outcome of \<open>killpg\<close> on clean-up.
\<close>

datatype proc_end =
    NotStarted
  | TimedOut
  | Cancelled
  | Exited "int option" string string

datatype killpg_result = KillpgDone | KillpgNoProcess | KillpgError

datatype kill_call = KillGroup | KillChild

text \<open>\<open>_kill_process_group_or_child\<close>: nothing on a process that has a return code.\<close>

definition kill_process_group_or_child ::
    "bool \<Rightarrow> killpg_result \<Rightarrow> int option \<Rightarrow> kill_call list" where
  "kill_process_group_or_child posix killpg returncode =
     (if returncode \<noteq> None then []
      else if \<not> posix then [KillChild]
      else (case killpg of
              KillpgDone \<Rightarrow> [KillGroup]
            | KillpgNoProcess \<Rightarrow> [KillGroup]
            | KillpgError \<Rightarrow> [KillGroup, KillChild]))"

text \<open>
  The steps a restart takes in the world: it executes an argument vector in a session of its own
  or not, with a timeout, and sends kill signals.
\<close>

datatype gateway_step = Exec "string list" bool fl | Kill kill_call

definition restart_gateway ::
    "environ \<Rightarrow> bool \<Rightarrow> (string list \<Rightarrow> proc_end) \<Rightarrow> killpg_result \<Rightarrow> int option \<Rightarrow>
       gateway_step list \<times> (GatewayError + GatewayRestartResult)" where
  "restart_gateway env posix run killpg returncode =
     (let command = py_strip (env_get env ''IBKR_GATEWAY_RESTART_COMMAND'' []);
          failed = (\<lambda>m. Inl (GatewayRestartFailed m None [] []));
          cleanup = map Kill (kill_process_group_or_child posix killpg returncode)
      in if command = [] then ([], Inl GatewayRestartDisabled)
         else (case py_float_of_str (env_get env ''IBKR_GATEWAY_RESTART_TIMEOUT_S'' ''30'') of
           None \<Rightarrow> ([], failed ''invalid gateway restart timeout'')
         | Some timeout \<Rightarrow>
             if timeout \<le> 0 then ([], failed ''gateway restart timeout must be positive'')
             else (case shlex_split command of
               Inl e \<Rightarrow> ([], failed ''invalid gateway restart command'')
             | Inr [] \<Rightarrow> ([], failed ''invalid gateway restart command'')
             | Inr (a # as) \<Rightarrow>
                 (case run (a # as) of
                    NotStarted \<Rightarrow>
                      ([Exec (a # as) posix timeout], failed ''gateway restart command failed to start'')
                  | TimedOut \<Rightarrow>
                      (Exec (a # as) posix timeout # cleanup, failed ''gateway restart command timed out'')
                  | Cancelled \<Rightarrow> (Exec (a # as) posix timeout # cleanup, Inl GatewayCancelled)
                  | Exited code out err \<Rightarrow>
                      ([Exec (a # as) posix timeout],
                       (let n = (case code of Some n \<Rightarrow> n | None \<Rightarrow> -1)
                        in if n \<noteq> 0
                           then Inl (GatewayRestartFailed ''gateway restart command exited with code'' (Some n) out err)
                           else Inr \<lparr>exit_code = n, out_text = out, err_text = err\<rparr>))))))"

text \<open>\<open>restart_gateway_then_retry_ibkr\<close>: only a restart that succeeded wakes the IBKR adapter, and
  the wake's failure is logged, except a cancellation.\<close>

definition restart_gateway_then_retry_ibkr ::
    "outcomes \<Rightarrow> BrokerRef \<Rightarrow> gateway_step list \<times> (GatewayError + GatewayRestartResult) \<Rightarrow>
       (nat \<times> broker_call) list \<times> (GatewayError + GatewayRestartResult)" where
  "restart_gateway_then_retry_ibkr outcome ref restarted =
     (case snd restarted of
        Inl e \<Rightarrow> ([], Inl e)
      | Inr r \<Rightarrow>
          (case select_ibkr_broker ref of
             None \<Rightarrow> ([], Inr r)
           | Some a \<Rightarrow>
               (case retry_broker_now outcome (Single a) of
                  Inl CancelledError \<Rightarrow> ([], Inl GatewayCancelled)
                | Inl e \<Rightarrow> ([], Inr r)
                | Inr (calls, Inl CancelledError) \<Rightarrow> (calls, Inl GatewayCancelled)
                | Inr (calls, res) \<Rightarrow> (calls, Inr r))))"

section \<open>Lemmas\<close>

text \<open>A word the shell would not touch.\<close>

definition plain_char :: "char \<Rightarrow> bool" where
  "plain_char c = (c \<notin> set shell_spaces \<and> c \<noteq> backslash \<and> c \<noteq> single_quote \<and> c \<noteq> double_quote)"

lemma shlex_word:
  "list_all plain_char v \<Longrightarrow> shlex_run (Word w) (v @ s) = shlex_run (Word (w @ v)) s"
  by (induction v arbitrary: w) (auto simp: plain_char_def)

lemma shlex_quoted:
  "list_all (\<lambda>c. c \<noteq> single_quote) v \<Longrightarrow>
     shlex_run (Quoted single_quote w) (v @ single_quote # s) = shlex_run (Word (w @ v)) s"
  by (induction v arbitrary: w) (auto simp: single_quote_def double_quote_def)

text \<open>Quoting a word as \<open>'word'\<close>, and joining quoted words by blanks.\<close>

definition quote_word :: "string \<Rightarrow> string" where
  "quote_word v = single_quote # v @ [single_quote]"

fun join_words :: "string list \<Rightarrow> string" where
  "join_words [] = []"
| "join_words [v] = quote_word v"
| "join_words (v # w # ws) = quote_word v @ CHR '' '' # join_words (w # ws)"

lemma shlex_join:
  "list_all (list_all (\<lambda>c. c \<noteq> single_quote)) ws \<Longrightarrow> shlex_split (join_words ws) = Inr ws"
  unfolding shlex_split_def
proof (induction ws rule: join_words.induct)
  case (2 v)
  then show ?case
    using shlex_quoted [of v "[]" "[]"]
    by (simp add: quote_word_def shell_spaces_def single_quote_def backslash_def double_quote_def)
next
  case (3 v w ws)
  then show ?case
    using shlex_quoted [of v "[]" "CHR '' '' # join_words (w # ws)"]
    by (simp add: quote_word_def shell_spaces_def single_quote_def backslash_def double_quote_def)
qed simp

lemma restart_gateway_exec:
  assumes "restart_gateway env posix run killpg returncode = (steps, res)" "steps \<noteq> []"
  obtains args timeout where
    "shlex_split (py_strip (env_get env ''IBKR_GATEWAY_RESTART_COMMAND'' [])) = Inr args" "args \<noteq> []"
    "py_float_of_str (env_get env ''IBKR_GATEWAY_RESTART_TIMEOUT_S'' ''30'') = Some timeout" "\<not> timeout \<le> 0"
    "steps = Exec args posix timeout # (if run args = TimedOut \<or> run args = Cancelled
       then map Kill (kill_process_group_or_child posix killpg returncode) else [])"
    "\<And>r. res = Inr r \<longleftrightarrow> run args = Exited (Some 0) (out_text r) (err_text r) \<and> exit_code r = 0"
    "res \<noteq> Inl GatewayRestartDisabled"
proof -
  define command timeout where
    "command = py_strip (env_get env ''IBKR_GATEWAY_RESTART_COMMAND'' [])" and
    "timeout = py_float_of_str (env_get env ''IBKR_GATEWAY_RESTART_TIMEOUT_S'' ''30'')"
  note eq = assms(1) [unfolded restart_gateway_def Let_def command_def [symmetric] timeout_def [symmetric]]
  have c: "command \<noteq> []" using eq assms(2) by auto
  obtain t where t: "timeout = Some t" "\<not> t \<le> 0" using eq assms(2) c by (auto split: option.splits if_splits)
  obtain a as where args: "shlex_split command = Inr (a # as)"
    using eq assms(2) c t by (auto split: sum.splits list.splits)
  show ?thesis
  proof (rule that [of "a # as" t])
    show "steps = Exec (a # as) posix t # (if run (a # as) = TimedOut \<or> run (a # as) = Cancelled
       then map Kill (kill_process_group_or_child posix killpg returncode) else [])"
      using eq c t args by (cases "run (a # as)") auto
    show "res = Inr r \<longleftrightarrow> run (a # as) = Exited (Some 0) (out_text r) (err_text r) \<and> exit_code r = 0" for r
      using eq c t args by (cases "run (a # as)"; cases r) (auto split: option.splits if_splits)
    show "res \<noteq> Inl GatewayRestartDisabled"
      using eq c t args by (cases "run (a # as)") (auto split: option.splits if_splits)
  qed (use args t in \<open>simp_all add: command_def timeout_def\<close>)
qed

lemma restart_gateway_disabled:
  "snd (restart_gateway env posix run killpg returncode) = Inl GatewayRestartDisabled \<longleftrightarrow>
     py_strip (env_get env ''IBKR_GATEWAY_RESTART_COMMAND'' []) = []"
proof (cases "fst (restart_gateway env posix run killpg returncode) = []")
  case True
  then show ?thesis
    by (auto simp: restart_gateway_def Let_def split: option.splits sum.splits list.splits proc_end.splits if_splits)
next
  case False
  then obtain steps res where r: "restart_gateway env posix run killpg returncode = (steps, res)" "steps \<noteq> []"
    by (cases "restart_gateway env posix run killpg returncode") auto
  from restart_gateway_exec [OF this] have "res \<noteq> Inl GatewayRestartDisabled" by blast
  moreover have "py_strip (env_get env ''IBKR_GATEWAY_RESTART_COMMAND'' []) \<noteq> []"
    using r by (auto simp: restart_gateway_def)
  ultimately show ?thesis using r by simp
qed

section \<open>Properties\<close>

text \<open>C27. A gateway restart runs the configured command at most once, with a timeout that is not zero
  or less; it reports success exactly when that process exited with code 0; and it kills only a
  process that overran its timeout or whose request was cancelled, and then always, as long as it
  still runs.\<close>
theorem gateway_restart_sound:
  assumes "restart_gateway env posix run killpg returncode = (steps, res)"
  shows "(steps = [] \<and> (\<exists>e. res = Inl e)) \<or>
    (\<exists>args timeout kills. steps = Exec args posix timeout # map Kill kills \<and> args \<noteq> [] \<and> \<not> timeout \<le> 0
      \<and> shlex_split (py_strip (env_get env ''IBKR_GATEWAY_RESTART_COMMAND'' [])) = Inr args
      \<and> (\<forall>r. res = Inr r \<longleftrightarrow> run args = Exited (Some 0) (out_text r) (err_text r) \<and> exit_code r = 0)
      \<and> (kills \<noteq> [] \<longleftrightarrow> run args \<in> {TimedOut, Cancelled} \<and> returncode = None))"
proof (cases "steps = []")
  case True
  have "\<exists>e. res = Inl e"
    using assms True
    by (auto simp: restart_gateway_def Let_def split: option.splits sum.splits list.splits proc_end.splits if_splits)
  with True show ?thesis by blast
next
  case False
  from restart_gateway_exec [OF assms False] obtain args timeout where r:
    "shlex_split (py_strip (env_get env ''IBKR_GATEWAY_RESTART_COMMAND'' [])) = Inr args" "args \<noteq> []"
    "\<not> timeout \<le> 0"
    "steps = Exec args posix timeout # (if run args = TimedOut \<or> run args = Cancelled
       then map Kill (kill_process_group_or_child posix killpg returncode) else [])"
    "\<And>r. res = Inr r \<longleftrightarrow> run args = Exited (Some 0) (out_text r) (err_text r) \<and> exit_code r = 0"
    by blast
  have kills: "kill_process_group_or_child posix killpg returncode \<noteq> [] \<longleftrightarrow> returncode = None"
    by (auto simp: kill_process_group_or_child_def split: killpg_result.splits)
  show ?thesis
    using r kills
    by (intro disjI2 exI [of _ args] exI [of _ timeout]
        exI [of _ "if run args = TimedOut \<or> run args = Cancelled
          then kill_process_group_or_child posix killpg returncode else []"]) auto
qed

theorem gateway_restart_sound_witness:
  "\<exists>steps res. restart_gateway [(''IBKR_GATEWAY_RESTART_COMMAND'', ''docker restart gw'')] True
      (\<lambda>a. TimedOut) KillpgDone None = (steps, res)
    \<and> (\<exists>args timeout kills. steps = Exec args True timeout # map Kill kills \<and> kills \<noteq> [])"
proof -
  let ?env = "[(''IBKR_GATEWAY_RESTART_COMMAND'', ''docker restart gw'')]"
  obtain steps res where r: "restart_gateway ?env True (\<lambda>a. TimedOut) KillpgDone None = (steps, res)"
    by fastforce
  have "fst (restart_gateway ?env True (\<lambda>a. TimedOut) KillpgDone None) \<noteq> []" by code_simp
  with r gateway_restart_sound [OF r] show ?thesis by fastforce
qed

text \<open>A setting read as a positive number is one: whatever the environment holds, the value used is
  finite and greater than zero as long as the built-in default is; it is the default unless the
  text is such a number.\<close>
theorem env_float_positive:
  assumes "is_finite dflt" "0 < dflt"
  shows "is_finite (positive_env_float env name dflt) \<and> 0 < positive_env_float env name dflt
    \<and> (positive_env_float env name dflt = dflt
       \<or> py_float_of_str (py_strip (env_get env name [])) = Some (positive_env_float env name dflt))"
proof -
  have pos: "0 < v" if "is_finite v" "\<not> v \<le> 0" for v :: fl
    using that by (auto simp: is_finite_iff)
  show ?thesis
    using assms pos by (auto simp: positive_env_float_def Let_def split: option.splits)
qed

theorem env_float_positive_witness:
  "is_finite (positive_env_float [(''X'', ''-inf'')] ''X'' 120) \<and> 0 < positive_env_float [(''X'', ''-inf'')] ''X'' 120"
  using env_float_positive [of 120 "[(''X'', ''-inf'')]" "''X''"] by (simp add: fl_simps)

text \<open>The restart control is only shown when pressing it can work: with the button visible the
  endpoint is not disabled, no admin token is set, and IBKR is known not to be connected.\<close>
theorem restart_button_consistent:
  assumes "gateway_restart_visible_for_statuses env statuses"
  shows "snd (restart_gateway env posix run killpg returncode) \<noteq> Inl GatewayRestartDisabled
    \<and> env_get env ''ADMIN_TOKEN'' [] = [] \<and> map_of statuses ''ibkr'' \<noteq> Some ''connected''
    \<and> map_of statuses ''ibkr'' \<noteq> None"
  using assms restart_gateway_disabled
  by (auto simp: gateway_restart_visible_for_statuses_def)

theorem restart_button_consistent_witness:
  "snd (restart_gateway [(''IBKR_GATEWAY_RESTART_COMMAND'', ''x''), (''ADMIN_ALLOW_NO_AUTH'', '' Yes '')]
     True (\<lambda>a. NotStarted) KillpgDone None) \<noteq> Inl GatewayRestartDisabled"
proof -
  have "gateway_restart_visible_for_statuses
      [(''IBKR_GATEWAY_RESTART_COMMAND'', ''x''), (''ADMIN_ALLOW_NO_AUTH'', '' Yes '')]
      [(''ibkr'', ''reconnecting'')]" by code_simp
  from restart_button_consistent [OF this] show ?thesis by blast
qed

end
