(* ===== verification/Monitor.thy ===== *)
theory Monitor
  imports Recovery
begin

text \<open>
  \<open>app/jobs/connection_monitor.py\<close>: one poll of the IBKR connection, with the queue of messages that
  wait for delivery, and runs of polls. Clock readings are rationals. \<open>send\<close> says for every message
  of a poll whether its delivery fails, and how; the messages of a queue are distinct.
\<close>

record MonitorState =
  last_state :: "ConnectionState option"
  down_since :: "rat option"
  attention_sent :: bool
  pending :: "string list"

definition monitor_new :: MonitorState where
  "monitor_new = \<lparr>last_state = None, down_since = None, attention_sent = False, pending = []\<rparr>"

definition recovered_message :: string where
  "recovered_message = ''IBKR recovered.''"

definition attention_message :: string where
  "attention_message = ''IBKR manual auth may be needed. Use the dashboard retry/restart controls to recover the Gateway.''"

fun state_label :: "ConnectionState \<Rightarrow> string result" where
  "state_label CONNECTED = Inl KeyError"
| "state_label RECONNECTING = Inr ''reconnecting''"
| "state_label DISCONNECTED = Inr ''disconnected''"

definition down_message :: "ConnectionState \<Rightarrow> string" where
  "down_message st = ''IBKR '' @ (case state_label st of Inl e \<Rightarrow> [] | Inr l \<Rightarrow> l) @ ''...''"

definition queue_message :: "MonitorState \<Rightarrow> string \<Rightarrow> MonitorState" where
  "queue_message s m = (if m \<in> set (pending s) then s else s\<lparr>pending := pending s @ [m]\<rparr>)"

text \<open>\<open>_send_notifications\<close>: every message is tried, and the first error is raised afterwards; a
  cancellation is raised at once. The result is the messages delivered and the error.\<close>

fun send_notifications :: "(string \<Rightarrow> py_exc option) \<Rightarrow> string list \<Rightarrow> string list \<times> py_exc option" where
  "send_notifications send [] = ([], None)"
| "send_notifications send (m # ms) =
     (case send m of
        Some CancelledError \<Rightarrow> ([], Some CancelledError)
      | Some e \<Rightarrow>
          (case send_notifications send ms of
             (sent, Some CancelledError) \<Rightarrow> (sent, Some CancelledError)
           | (sent, e') \<Rightarrow> (sent, Some e))
      | None \<Rightarrow> (case send_notifications send ms of (sent, e') \<Rightarrow> (m # sent, e')))"

definition send_pending ::
    "(string \<Rightarrow> py_exc option) \<Rightarrow> MonitorState \<Rightarrow> MonitorState \<times> string list \<times> py_exc option" where
  "send_pending send s =
     (if pending s = [] then (s, [], None)
      else (case send_notifications send (pending s) of
              (sent, Some e) \<Rightarrow> (s, sent, Some e)
            | (sent, None) \<Rightarrow> (s\<lparr>pending := []\<rparr>, sent, None)))"

definition down_states :: "ConnectionState set" where
  "down_states = {RECONNECTING, DISCONNECTED}"

text \<open>
  \<open>poll_connection_once\<close>: the state lookup, the queueing of messages, then the delivery; the
  monitor's record of the connection only moves on when the delivery raised nothing.
\<close>

definition queue_for :: "MonitorState \<Rightarrow> ConnectionState \<Rightarrow> rat \<Rightarrow> rat \<Rightarrow> MonitorState \<times> bool" where
  "queue_for s current now attention_after =
     (let previous = last_state s
      in if current = CONNECTED then
           ((if (case previous of None \<Rightarrow> False | Some p \<Rightarrow> p \<in> down_states) \<or> down_since s \<noteq> None
             then queue_message s recovered_message else s), False)
         else
           (let since = (case down_since s of None \<Rightarrow> now | Some t \<Rightarrow> t);
                s1 = s\<lparr>down_since := Some since\<rparr>;
                s2 = (if previous \<noteq> Some current then queue_message s1 (down_message current) else s1)
            in if \<not> attention_sent s \<and> attention_after \<le> now - since
               then (queue_message s2 attention_message, True)
               else (s2, False)))"

definition poll_connection_once ::
    "ConnectionState result \<Rightarrow> (string \<Rightarrow> py_exc option) \<Rightarrow> rat \<Rightarrow> rat \<Rightarrow> MonitorState \<Rightarrow>
       MonitorState \<times> string list \<times> py_exc option" where
  "poll_connection_once lookup send now attention_after s =
     (case lookup of
        Inl e \<Rightarrow> (s, [], Some e)
      | Inr current \<Rightarrow>
          (case queue_for s current now attention_after of (s1, attention_due) \<Rightarrow>
           (case send_pending send s1 of
              (s2, sent, Some e) \<Rightarrow> (s2, sent, Some e)
            | (s2, sent, None) \<Rightarrow>
                ((if current = CONNECTED
                  then s2\<lparr>last_state := Some current, down_since := None, attention_sent := False\<rparr>
                  else s2\<lparr>last_state := Some current,
                          attention_sent := attention_sent s2 \<or> attention_due\<rparr>), sent, None))))"

text \<open>\<open>monitor_connection\<close> over the polls of a run: what it delivers, and whether it was cancelled;
  any other exception is logged.\<close>

type_synonym poll = "ConnectionState result \<times> (string \<Rightarrow> py_exc option) \<times> rat"

fun monitor_connection :: "rat \<Rightarrow> MonitorState \<Rightarrow> poll list \<Rightarrow> MonitorState \<times> string list" where
  "monitor_connection attention_after s [] = (s, [])"
| "monitor_connection attention_after s ((lookup, send, now) # polls) =
     (case poll_connection_once lookup send now attention_after s of
        (s1, sent, Some CancelledError) \<Rightarrow> (s1, sent)
      | (s1, sent, e) \<Rightarrow>
          (case monitor_connection attention_after s1 polls of (s2, later) \<Rightarrow> (s2, sent @ later)))"

section \<open>Lemmas\<close>

lemma send_notifications_all:
  "snd (send_notifications send ms) = None \<longleftrightarrow> list_all (\<lambda>m. send m = None) ms"
proof (induction ms)
  case (Cons m ms)
  obtain sent e where r: "send_notifications send ms = (sent, e)" by fastforce
  show ?case
  proof (cases "send m")
    case None
    with Cons r show ?thesis by simp
  next
    case (Some e')
    with r show ?thesis by (cases e'; cases e) (auto split: py_exc.splits)
  qed
qed simp

lemma send_notifications_delivers:
  "list_all (\<lambda>m. send m = None) ms \<Longrightarrow> fst (send_notifications send ms) = ms"
  by (induction ms) (auto split: prod.splits)

lemma send_notifications_subset:
  "set (fst (send_notifications send ms)) \<subseteq> set ms"
proof (induction ms)
  case (Cons m ms)
  obtain sent e where r: "send_notifications send ms = (sent, e)" by fastforce
  show ?case
  proof (cases "send m")
    case None
    with Cons r show ?thesis by auto
  next
    case (Some e')
    with Cons r show ?thesis by (cases e'; cases e) (auto split: py_exc.splits)
  qed
qed simp

lemma send_pending_cases:
  assumes "send_pending send s = (s', sent, e)"
  shows "(e = None \<and> s' = s\<lparr>pending := []\<rparr> \<and> sent = pending s)
    \<or> (e \<noteq> None \<and> s' = s \<and> set sent \<subseteq> set (pending s))"
proof (cases "pending s = []")
  case True
  with assms show ?thesis by (cases s) (auto simp: send_pending_def)
next
  case False
  obtain d e1 where r: "send_notifications send (pending s) = (d, e1)" by fastforce
  show ?thesis
  proof (cases e1)
    case None
    then have "d = pending s"
      using send_notifications_all [of send "pending s"] send_notifications_delivers [of send "pending s"] r
      by simp
    with None False assms r show ?thesis by (simp add: send_pending_def)
  next
    case (Some x)
    with False assms r send_notifications_subset [of send "pending s"] show ?thesis
      by (auto simp: send_pending_def)
  qed
qed

lemma pending_queue [simp]:
  "set (pending (queue_message s m)) = insert m (set (pending s))"
  by (auto simp: queue_message_def)

lemma queue_message_fields [simp]:
  "last_state (queue_message s m) = last_state s" "down_since (queue_message s m) = down_since s"
  "attention_sent (queue_message s m) = attention_sent s"
  by (simp_all add: queue_message_def)

lemma distinct_queue: "distinct (pending s) \<Longrightarrow> distinct (pending (queue_message s m))"
  by (simp add: queue_message_def)

lemma distinct_queue_for: "distinct (pending s) \<Longrightarrow> distinct (pending (fst (queue_for s c now a)))"
  by (auto simp: queue_for_def Let_def intro!: distinct_queue)

lemma queue_for_pending: "set (pending s) \<subseteq> set (pending (fst (queue_for s c now a)))"
  by (auto simp: queue_for_def Let_def)

lemma message_names:
  "recovered_message \<noteq> attention_message"
  "c \<noteq> CONNECTED \<Longrightarrow> down_message c \<noteq> attention_message \<and> down_message c \<noteq> recovered_message"
proof -
  show "recovered_message \<noteq> attention_message" by code_simp
  have "down_message RECONNECTING \<noteq> attention_message \<and> down_message RECONNECTING \<noteq> recovered_message"
    by code_simp
  moreover have "down_message DISCONNECTED \<noteq> attention_message \<and> down_message DISCONNECTED \<noteq> recovered_message"
    by code_simp
  moreover assume "c \<noteq> CONNECTED"
  ultimately show "down_message c \<noteq> attention_message \<and> down_message c \<noteq> recovered_message"
    by (cases c) simp_all
qed

text \<open>A poll whose deliveries all succeed.\<close>

lemma poll_outcome_ok:
  assumes "pending s = []"
  shows "poll_connection_once (Inr c) (\<lambda>m. None) now a s =
    (let s1 = fst (queue_for s c now a); due = snd (queue_for s c now a)
     in (if c = CONNECTED
         then s1\<lparr>pending := [], last_state := Some c, down_since := None, attention_sent := False\<rparr>
         else s1\<lparr>pending := [], last_state := Some c, attention_sent := attention_sent s1 \<or> due\<rparr>,
         pending s1, None))"
proof -
  obtain s1 due where q: "queue_for s c now a = (s1, due)" by fastforce
  have ok: "send_pending (\<lambda>m. None) s1 = (s1\<lparr>pending := []\<rparr>, pending s1, None)"
    using send_notifications_all [of "\<lambda>m. None" "pending s1"]
      send_notifications_delivers [of "\<lambda>m. None" "pending s1"]
    by (cases s1) (auto simp: send_pending_def list_all_iff split: prod.splits option.splits)
  show ?thesis using q ok by (simp add: poll_connection_once_def)
qed

definition notices :: "string list \<Rightarrow> string list" where
  "notices ms = filter (\<lambda>m. m = attention_message \<or> m = recovered_message) ms"

definition no_repeat :: "string list \<Rightarrow> bool" where
  "no_repeat ms = successively (\<lambda>m n. \<not> (m = attention_message \<and> n = attention_message)) ms"

lemma queue_for_connected:
  "pending s = [] \<Longrightarrow> pending (fst (queue_for s CONNECTED now a)) =
     (if (case last_state s of None \<Rightarrow> False | Some p \<Rightarrow> p \<in> down_states) \<or> down_since s \<noteq> None
      then [recovered_message] else [])"
  by (simp add: queue_for_def Let_def queue_message_def)

lemma queue_for_down:
  assumes "pending s = []" "c \<noteq> CONNECTED"
  shows "notices (pending (fst (queue_for s c now a))) = (if snd (queue_for s c now a) then [attention_message] else [])"
    and "snd (queue_for s c now a) \<Longrightarrow> \<not> attention_sent s"
    and "down_since (fst (queue_for s c now a)) \<noteq> None"
    and "attention_sent (fst (queue_for s c now a)) = attention_sent s"
  using assms message_names(1) message_names(2) [OF assms(2)] message_names(2) [OF assms(2), THEN conjunct1, THEN not_sym]
  by (auto simp: queue_for_def Let_def queue_message_def notices_def)

lemma notices_append: "notices (xs @ ys) = notices xs @ notices ys"
  by (simp add: notices_def)

lemma no_repeat_Cons:
  "no_repeat (m # ms) \<longleftrightarrow> no_repeat ms \<and> (m = attention_message \<and> ms \<noteq> [] \<longrightarrow> hd ms \<noteq> attention_message)"
  by (cases ms) (auto simp: no_repeat_def)

lemma attention_once_from:
  assumes "pending s = []" "attention_sent s \<longrightarrow> down_since s \<noteq> None"
  shows "no_repeat (notices (snd (monitor_connection a s (map (\<lambda>(c, t). (Inr c, \<lambda>m. None, t)) cts))))
    \<and> (attention_sent s \<and> notices (snd (monitor_connection a s (map (\<lambda>(c, t). (Inr c, \<lambda>m. None, t)) cts))) \<noteq> []
       \<longrightarrow> hd (notices (snd (monitor_connection a s (map (\<lambda>(c, t). (Inr c, \<lambda>m. None, t)) cts)))) = recovered_message)"
  using assms
proof (induction cts arbitrary: s)
  case Nil
  then show ?case by (simp add: notices_def no_repeat_def)
next
  case (Cons ct cts)
  obtain c t where ct: "ct = (c, t)" by fastforce
  let ?rest = "\<lambda>s. notices (snd (monitor_connection a s (map (\<lambda>(c, t). (Inr c, \<lambda>m. None, t)) cts)))"
  define s1 where "s1 = fst (queue_for s c t a)"
  define s2 where "s2 = (if c = CONNECTED
      then s1\<lparr>pending := [], last_state := Some c, down_since := None, attention_sent := False\<rparr>
      else s1\<lparr>pending := [], last_state := Some c, attention_sent := attention_sent s1 \<or> snd (queue_for s c t a)\<rparr>)"
  have out: "notices (snd (monitor_connection a s (map (\<lambda>(c, t). (Inr c, \<lambda>m. None, t)) (ct # cts))))
      = notices (pending s1) @ ?rest s2"
    using poll_outcome_ok [OF Cons.prems(1), of c t a] ct
    by (simp add: Let_def s1_def s2_def notices_append split: prod.splits)
  have inv: "pending s2 = []" "attention_sent s2 \<longrightarrow> down_since s2 \<noteq> None"
    using queue_for_down(3) [OF Cons.prems(1), of c t a] by (auto simp: s2_def s1_def)
  note ih = Cons.IH [OF inv]
  show ?case
  proof (cases "c = CONNECTED")
    case True
    then have "notices (pending s1) = pending s1"
      "pending s1 = [] \<or> pending s1 = [recovered_message]"
      "attention_sent s \<longrightarrow> pending s1 = [recovered_message]"
      using queue_for_connected [OF Cons.prems(1), of t a] Cons.prems(2)
      by (auto simp: s1_def notices_def)
    with ih message_names(1) show ?thesis unfolding out by (auto simp: no_repeat_Cons)
  next
    case False
    note q = queue_for_down [OF Cons.prems(1) False, of t a]
    show ?thesis
    proof (cases "snd (queue_for s c t a)")
      case True
      then have "attention_sent s2" using False by (simp add: s2_def)
      with ih True q(1,2) message_names(1) show ?thesis
        unfolding out by (auto simp: s1_def no_repeat_Cons)
    next
      case due: False
      then have "attention_sent s2 = attention_sent s" "notices (pending s1) = []"
        using False q(1,4) by (simp_all add: s2_def s1_def)
      with ih show ?thesis unfolding out by simp
    qed
  qed
qed

lemma quiet_outage:
  assumes "pending s = []" "last_state s = Some DISCONNECTED" "attention_sent s" "down_since s = Some d"
  shows "snd (monitor_connection a s (map (\<lambda>t. (Inr DISCONNECTED, \<lambda>m. None, t)) ts)) = []"
  using assms
proof (induction ts arbitrary: s)
  case (Cons t ts)
  have "poll_connection_once (Inr DISCONNECTED) (\<lambda>m. None) t a s = (s, [], None)"
    using poll_outcome_ok [OF Cons.prems(1), of DISCONNECTED t a] Cons.prems
    by (cases s) (simp add: Let_def queue_for_def)
  with Cons show ?case by simp
qed simp

section \<open>Properties\<close>

text \<open>C28. The monitor drops no message undelivered: after a poll every message that was waiting or
  became due has been delivered or still waits; if all deliveries succeeded none waits and the
  state is recorded, and otherwise the recorded state stays, so the change is seen again.\<close>
theorem monitor_drops_nothing:
  assumes "poll_connection_once (Inr current) send now a s = (s', sent, e)"
  shows "set (pending s) \<union> set (pending (fst (queue_for s current now a))) \<subseteq> set sent \<union> set (pending s')
    \<and> (e = None \<longrightarrow> pending s' = [] \<and> last_state s' = Some current)
    \<and> (e \<noteq> None \<longrightarrow> last_state s' = last_state s)
    \<and> (distinct (pending s) \<longrightarrow> distinct (pending s'))"
proof -
  obtain s1 due where q: "queue_for s current now a = (s1, due)" by fastforce
  obtain s2 d e2 where sp: "send_pending send s1 = (s2, d, e2)" by (metis prod_cases3)
  have last: "last_state s1 = last_state s"
    using arg_cong [OF q, of fst] by (auto simp: queue_for_def Let_def split: if_splits)
  have sub: "set (pending s) \<subseteq> set (pending s1)" "distinct (pending s) \<Longrightarrow> distinct (pending s1)"
    using queue_for_pending [of s current now a] distinct_queue_for [of s current now a] q by simp_all
  show ?thesis
  proof (cases e2)
    case None
    with send_pending_cases [OF sp] have "s2 = s1\<lparr>pending := []\<rparr>" "d = pending s1" by auto
    with None assms q sp sub show ?thesis
      by (auto simp: poll_connection_once_def split: if_splits)
  next
    case (Some x)
    with send_pending_cases [OF sp] have "s2 = s1" by auto
    with Some assms q sp sub last show ?thesis by (auto simp: poll_connection_once_def)
  qed
qed

theorem monitor_drops_nothing_witness:
  "\<exists>s' sent e. poll_connection_once (Inr DISCONNECTED) (\<lambda>m. Some TimeoutError) 0 120 monitor_new = (s', sent, e)
    \<and> (e \<noteq> None \<longrightarrow> last_state s' = None)"
proof -
  obtain s' sent e where
    "poll_connection_once (Inr DISCONNECTED) (\<lambda>m. Some TimeoutError) 0 120 monitor_new = (s', sent, e)"
    by (metis prod_cases3)
  with monitor_drops_nothing [OF this] show ?thesis by (auto simp: monitor_new_def)
qed

text \<open>C29. While deliveries succeed, the manual-attention notice is sent at most once per outage: in the
  messages of any run, two of them always have a recovery notice in between.\<close>
theorem attention_once_per_outage:
  "no_repeat (notices (snd (monitor_connection a monitor_new
     (map (\<lambda>(c, t). (Inr c, \<lambda>m. None, t)) cts))))"
  using attention_once_from [of monitor_new a cts] by (simp add: monitor_new_def)

text \<open>One failed delivery of a recovery notice hides the next outage for good: the late notice says
  that IBKR recovered while it is down, and however long that outage lasts, neither it nor the
  need for manual attention is ever announced.\<close>
theorem failed_recovery_notice_hides_outage:
  "snd (monitor_connection 120 monitor_new
      ([(Inr DISCONNECTED, \<lambda>m. None, 0), (Inr DISCONNECTED, \<lambda>m. None, 120),
        (Inr CONNECTED, \<lambda>m. Some (OtherError ''NotificationSendError''), 150),
        (Inr DISCONNECTED, \<lambda>m. None, 180)]
       @ map (\<lambda>t. (Inr DISCONNECTED, \<lambda>m. None, t)) ts))
   = [down_message DISCONNECTED, attention_message, recovered_message]"
proof -
  have ne: "recovered_message \<noteq> attention_message" "down_message DISCONNECTED \<noteq> attention_message"
    using message_names(1) message_names(2) [of DISCONNECTED] by simp_all
  let ?s = "\<lparr>last_state = Some DISCONNECTED, down_since = Some 0, attention_sent = True, pending = []\<rparr>"
  have "snd (monitor_connection 120 ?s (map (\<lambda>t. (Inr DISCONNECTED, \<lambda>m. None, t)) ts)) = []"
    by (rule quiet_outage) simp_all
  then obtain s' where quiet:
    "monitor_connection 120 ?s (map (\<lambda>t. (Inr DISCONNECTED, \<lambda>m. None, t)) ts) = (s', [])"
    by (metis surjective_pairing)
  show ?thesis
    using quiet ne
    by (simp add: poll_connection_once_def queue_for_def Let_def send_pending_def queue_message_def
        monitor_new_def down_states_def split: prod.splits)
qed

end
