(* ===== verification/Jobs.thy ===== *)
theory Jobs
  imports Fx Markets Recovery
begin

text \<open>
  \<open>app/core/fills.py\<close>, \<open>app/jobs/fills_reconcile.py\<close> and \<open>app/jobs/snapshot.py\<close>: the conversion of a
  vendor fill to a row, the reconciliation of executions with the database and its daily schedule,
  and the capture of account values at the next close of a held exchange. Time zones are a
  parameter: local clock readings are microseconds too.
\<close>

section \<open>Fills\<close>

record VendorFill =
  vf_side :: string
  vf_exec_id :: string
  vf_acct :: string
  vf_shares :: pyval
  vf_price :: pyval
  vf_time :: instant
  vf_symbol :: string
  vf_primary_exchange :: string
  vf_currency :: string
  vf_sec_type :: string
  vf_con_id :: int
  vf_commission :: pyval

definition SIDE_MAP :: "(string, string) dict" where
  "SIDE_MAP = [(''BOT'', ''BUY''), (''SLD'', ''SELL'')]"

text \<open>The rate and the fees in USD of a fill.\<close>

definition fill_fx ::
    "(string \<Rightarrow> FxRate option result) option \<Rightarrow> string \<Rightarrow> fl \<Rightarrow> (fl option \<times> fl option) result" where
  "fill_fx fx c fees_native =
     (if c = ''USD'' then Inr (None, Some fees_native)
      else (case fx of
              None \<Rightarrow> Inr (None, None)
            | Some get_rate \<Rightarrow> rbind (get_rate c) (\<lambda>r.
                Inr (case r of None \<Rightarrow> (None, None)
                     | Some r \<Rightarrow> (Some (r_rate r), Some (fees_native * r_rate r))))))"

definition build_fill_row ::
    "(string \<Rightarrow> FxRate option result) option \<Rightarrow> string \<Rightarrow> VendorFill \<Rightarrow> FillRow option result" where
  "build_fill_row fx b f =
     (case map_of SIDE_MAP (vf_side f) of
        None \<Rightarrow> Inr None
      | Some side \<Rightarrow>
          (case canonical_symbol_of (vf_symbol f) (vf_primary_exchange f) of
             Inl e \<Rightarrow> Inr None
           | Inr canonical \<Rightarrow>
               (let c = (if vf_currency f = [] then ''USD'' else vf_currency f)
                in rbind (if py_truthy (vf_commission f) then py_float (vf_commission f) else Inr 0) (\<lambda>fees.
                   rbind (fill_fx fx c fees) (\<lambda>(rate, fees_usd).
                   rbind (py_float (vf_shares f)) (\<lambda>quantity.
                   rbind (py_float (vf_price f)) (\<lambda>price.
                     Inr (Some \<lparr>fr_broker = b, fr_account_id = vf_acct f,
                       fr_execution_id = vf_exec_id f, fr_canonical_symbol = canonical,
                       fr_native_key = py_str_int (vf_con_id f), fr_asset_class = vf_sec_type f,
                       fr_side = side, fr_quantity = quantity, fr_price = price, fr_currency = c,
                       fr_fx_rate_at_fill = rate, fr_fees_native = Some fees,
                       fr_fees_usd = fees_usd, fr_filled_at = vf_time f\<rparr>))))))))"

text \<open>
  The loop of \<open>reconcile_fills\<close>. \<open>db_fails\<close> says for an execution id whether its insert raises, which
  is logged and skipped; an error of the row's construction leaves the loop.
\<close>

fun reconcile_loop ::
    "(string \<Rightarrow> FxRate option result) option \<Rightarrow> string \<Rightarrow> instant \<Rightarrow> (string \<Rightarrow> bool) \<Rightarrow> Store \<Rightarrow>
       VendorFill list \<Rightarrow> Store \<times> nat result" where
  "reconcile_loop fx b now db_fails s [] = (s, Inr 0)"
| "reconcile_loop fx b now db_fails s (f # fs) =
     (case build_fill_row fx b f of
        Inl e \<Rightarrow> (s, Inl e)
      | Inr None \<Rightarrow> reconcile_loop fx b now db_fails s fs
      | Inr (Some row) \<Rightarrow>
          if db_fails (fr_execution_id row) then reconcile_loop fx b now db_fails s fs
          else (case insert_fill s (row, now) of (s1, new) \<Rightarrow>
                (case reconcile_loop fx b now db_fails s1 fs of
                   (s2, n) \<Rightarrow> (s2, rbind n (\<lambda>n. Inr ((if new then 1 else 0) + n))))))"

text \<open>\<open>adapter._req_executions()\<close>: only a single adapter may have it; a composite has no such
  attribute.\<close>

definition req_executions :: "BrokerRef \<Rightarrow> VendorFill list result \<Rightarrow> VendorFill list result" where
  "req_executions ref answer =
     (case ref of Single a \<Rightarrow> answer | Several as \<Rightarrow> Inl (AttributeError ''_req_executions''))"

definition ref_name :: "BrokerRef \<Rightarrow> string" where
  "ref_name ref = (case ref of Single a \<Rightarrow> b_name a | Several as \<Rightarrow> ''Composite'')"

definition reconcile_fills ::
    "(string \<Rightarrow> FxRate option result) option \<Rightarrow> BrokerRef \<Rightarrow> VendorFill list result \<Rightarrow> instant \<Rightarrow>
       (string \<Rightarrow> bool) \<Rightarrow> Store \<Rightarrow> Store \<times> nat result" where
  "reconcile_fills fx ref answer now db_fails s =
     (case req_executions ref answer of
        Inl CancelledError \<Rightarrow> (s, Inl CancelledError)
      | Inl e \<Rightarrow> (s, Inr 0)
      | Inr fs \<Rightarrow> reconcile_loop fx (ref_name ref) now db_fails s fs)"

section \<open>The daily schedule\<close>

definition DEFAULT_HHMM :: "int \<times> int" where
  "DEFAULT_HHMM = (23, 0)"

definition parse_hhmm :: "string \<Rightarrow> int \<times> int" where
  "parse_hhmm v =
     (if v = [] then DEFAULT_HHMM
      else (case split_on (CHR '':'') (py_strip v) of
              [a, b] \<Rightarrow>
                (case (py_int_of_str a, py_int_of_str b) of
                   (Some h, Some m) \<Rightarrow>
                     if 0 \<le> h \<and> h < 24 \<and> 0 \<le> m \<and> m < 60 then (h, m) else DEFAULT_HHMM
                 | _ \<Rightarrow> DEFAULT_HHMM)
            | _ \<Rightarrow> DEFAULT_HHMM))"

text \<open>A zone by its two conversions; the comparison of two readings of one zone is of the readings.\<close>

record Zone =
  to_local :: "instant \<Rightarrow> int"
  from_local :: "int \<Rightarrow> instant"

definition hhmm_us :: "int \<times> int \<Rightarrow> int" where
  "hhmm_us hm = fst hm * 3600000000 + snd hm * 60000000"

definition next_fire_at :: "instant \<Rightarrow> int \<times> int \<Rightarrow> Zone \<Rightarrow> instant" where
  "next_fire_at now target tz =
     (let local_now = to_local tz now;
          today_local = local_now div day_us * day_us + hhmm_us target
      in if local_now < today_local then from_local tz today_local
         else from_local tz (today_local + day_us))"

text \<open>
  The wake-up times of \<open>scheduled_reconcile_loop\<close>. Every round gives how late the sleep ends and how
  long the job runs; the loop then sleeps one more second and reads the clock again.
\<close>

fun fire_times :: "Zone \<Rightarrow> int \<times> int \<Rightarrow> instant \<Rightarrow> (int \<times> int) list \<Rightarrow> instant list" where
  "fire_times tz target now [] = []"
| "fire_times tz target now ((late, work) # rounds) =
     (let wake = next_fire_at now target tz;
          delay = max 0 (wake - now)
      in wake # fire_times tz target (now + delay + late + work + seconds 1) rounds)"

section \<open>Snapshots\<close>

text \<open>\<open>db_fails\<close> says for a broker and account whether building or inserting its row raises.\<close>

fun capture_loop ::
    "instant \<Rightarrow> (string \<times> string \<Rightarrow> bool) \<Rightarrow> string \<Rightarrow> instant \<Rightarrow> Store \<Rightarrow> AccountSummary list \<Rightarrow> Store \<times> nat" where
  "capture_loop now db_fails session at_time s [] = (s, 0)"
| "capture_loop now db_fails session at_time s (a # as) =
     (case build_equity_snapshot_row a at_time True session of
        Inl e \<Rightarrow> capture_loop now db_fails session at_time s as
      | Inr row \<Rightarrow>
          if db_fails (as_broker a, as_account_id a) then capture_loop now db_fails session at_time s as
          else (case insert_equity_snapshot s (row, now) of (s1, new) \<Rightarrow>
                (case capture_loop now db_fails session at_time s1 as of
                   (s2, n) \<Rightarrow> (s2, (if new then 1 else 0) + n))))"

definition capture_snapshot ::
    "AccountSummary list result \<Rightarrow> instant \<Rightarrow> (string \<times> string \<Rightarrow> bool) \<Rightarrow> string \<Rightarrow> instant \<Rightarrow> Store \<Rightarrow>
       Store \<times> nat result" where
  "capture_snapshot summaries now db_fails e at_time s =
     (case summaries of
        Inl CancelledError \<Rightarrow> (s, Inl CancelledError)
      | Inl x \<Rightarrow> (s, Inr 0)
      | Inr as \<Rightarrow> (case capture_loop now db_fails (e @ ''_CLOSE'') at_time s as of (s', n) \<Rightarrow> (s', Inr n)))"

text \<open>The set of held exchanges, in the order of first holding: the code iterates a set, whose order
  only decides between exchanges that close at the same moment.\<close>

definition held_exchanges :: "Position list \<Rightarrow> string list" where
  "held_exchanges ps =
     remdups (map exchange (filter (\<lambda>p. asset_class p = ''STK'' \<and> exchange p \<noteq> []) ps))"

fun soonest_close ::
    "(string \<Rightarrow> instant option) \<Rightarrow> (string \<times> instant) option \<Rightarrow> string list \<Rightarrow> (string \<times> instant) option" where
  "soonest_close close_of best [] = best"
| "soonest_close close_of best (e # es) =
     (case close_of e of
        None \<Rightarrow> soonest_close close_of best es
      | Some c \<Rightarrow>
          soonest_close close_of
            (case best of None \<Rightarrow> Some (e, c) | Some (b, d) \<Rightarrow> if c < d then Some (e, c) else best) es)"

definition next_close_across_held_exchanges ::
    "(string \<Rightarrow> Calendar) \<Rightarrow> instant \<Rightarrow> Position list \<Rightarrow> (string \<times> instant) option" where
  "next_close_across_held_exchanges cal_of now ps =
     soonest_close (next_close_at cal_of now) None (held_exchanges ps)"

definition EMPTY_RECHECK_CAP :: rat where
  "EMPTY_RECHECK_CAP = 3600"

text \<open>
  One round of \<open>scheduled_snapshot_loop\<close>: what it sleeps for, the close it captures if any, and the
  recheck delay it carries on with.
\<close>

definition snapshot_round ::
    "(string \<Rightarrow> Calendar) \<Rightarrow> instant \<Rightarrow> rat \<Rightarrow> Position list result \<Rightarrow> rat \<Rightarrow>
       rat \<times> (string \<times> instant) option \<times> rat" where
  "snapshot_round cal_of now base positions empty_delay =
     (case next_close_across_held_exchanges cal_of now
             (case positions of Inl e \<Rightarrow> [] | Inr ps \<Rightarrow> ps) of
        None \<Rightarrow> (empty_delay, None, min (empty_delay * 2) EMPTY_RECHECK_CAP)
      | Some (e, close_at) \<Rightarrow>
          (max 0 (of_int (close_at - now) / 1000000), Some (e, close_at), base))"

section \<open>Lemmas\<close>

lemma soonest_close_min:
  "soonest_close close_of best es = r \<Longrightarrow>
     (r = None \<longleftrightarrow> best = None \<and> list_all (\<lambda>e. close_of e = None) es)
   \<and> (\<forall>e c. r = Some (e, c) \<longrightarrow> (best = Some (e, c) \<or> e \<in> set es \<and> close_of e = Some c)
        \<and> (\<forall>b d. best = Some (b, d) \<longrightarrow> c \<le> d)
        \<and> (\<forall>x d. x \<in> set es \<longrightarrow> close_of x = Some d \<longrightarrow> c \<le> d))"
proof (induction es arbitrary: best)
  case (Cons x es)
  show ?case
  proof (cases "close_of x")
    case None
    with Cons.IH [of best] Cons.prems show ?thesis by auto
  next
    case (Some c)
    define best' where "best' = (case best of None \<Rightarrow> Some (x, c)
      | Some (b, d) \<Rightarrow> if c < d then Some (x, c) else best)"
    have "soonest_close close_of best' es = r"
      using Cons.prems Some by (simp add: best'_def)
    note ih = Cons.IH [OF this]
    have b': "\<exists>b d. best' = Some (b, d) \<and> d \<le> c \<and> (\<forall>b' d'. best = Some (b', d') \<longrightarrow> d \<le> d')
        \<and> (best' = best \<or> b = x \<and> d = c)"
      by (cases best) (auto simp: best'_def)
    then obtain b d where bd: "best' = Some (b, d)" "d \<le> c" "\<forall>b' d'. best = Some (b', d') \<longrightarrow> d \<le> d'"
      "best' = best \<or> b = x \<and> d = c" by blast
    show ?thesis using ih bd Some by (cases r) force+
  qed
qed auto

text \<open>While nothing fails, the loop is the batch insertion of the rows that could be built.\<close>

lemma reconcile_batch:
  assumes "rmap_list (build_fill_row fx b) fs = Inr rows" "\<And>e. \<not> db_fails e"
  shows "reconcile_loop fx b now db_fails s fs =
    (case insert_batch insert_fill s (map (\<lambda>r. (r, now)) (concat (map (\<lambda>r. case r of None \<Rightarrow> [] | Some x \<Rightarrow> [x]) rows))) of
       (s', n) \<Rightarrow> (s', Inr n))"
  using assms(1)
proof (induction fs arbitrary: s rows)
  case (Cons f fs)
  obtain r rs where r: "build_fill_row fx b f = Inr r" "rmap_list (build_fill_row fx b) fs = Inr rs"
    "rows = r # rs" using Cons.prems by (auto simp: rbind_Inr_iff)
  show ?case
  proof (cases r)
    case None
    with r Cons.IH [OF r(2), of s] show ?thesis by simp
  next
    case (Some row)
    obtain s1 new where ins: "insert_fill s (row, now) = (s1, new)" by fastforce
    show ?thesis
      using r Some ins Cons.IH [OF r(2), of s1] assms(2) by (simp split: prod.splits)
  qed
qed simp

lemma capture_batch:
  assumes "\<And>k. \<not> db_fails k" "session \<noteq> []"
  shows "capture_loop now db_fails session at_time s as =
    insert_batch insert_equity_snapshot s
      (map (\<lambda>a. (the (map_option id (case build_equity_snapshot_row a at_time True session of
          Inl e \<Rightarrow> None | Inr r \<Rightarrow> Some r)), now)) as)"
  using assms by (induction as arbitrary: s) (auto simp: build_equity_snapshot_row_def split: prod.splits)

text \<open>The next firing in a zone of fixed offset: the one moment of the day after now at which the local
  clock shows the target.\<close>

definition fixed_zone :: "int \<Rightarrow> Zone" where
  "fixed_zone off = \<lparr>to_local = (\<lambda>t. t + off), from_local = (\<lambda>l. l - off)\<rparr>"

lemma next_fire_unique:
  assumes "n + off = k * day_us + hhmm_us target" "0 \<le> hhmm_us target" "hhmm_us target < day_us"
    and "now < n" "n \<le> now + day_us"
  shows "next_fire_at now target (fixed_zone off) = n"
proof (cases "k * day_us \<le> now + off")
  case True
  then have "(now + off) div day_us = k"
    by (intro div_eqI) (use assms in \<open>simp_all add: mult.commute day_us_def\<close>)
  with assms show ?thesis by (simp add: next_fire_at_def fixed_zone_def Let_def)
next
  case False
  then have "(now + off) div day_us = k - 1"
    by (intro div_eqI) (use assms in \<open>simp_all add: algebra_simps day_us_def\<close>)
  moreover have "k * day_us = (k - 1) * day_us + day_us" by (simp add: algebra_simps)
  ultimately show ?thesis
    using assms unfolding next_fire_at_def fixed_zone_def Let_def by simp
qed

lemma next_fire_bounds:
  assumes "0 \<le> hhmm_us target" "hhmm_us target < day_us"
  shows "now < next_fire_at now target (fixed_zone off)
    \<and> next_fire_at now target (fixed_zone off) \<le> now + day_us
    \<and> (next_fire_at now target (fixed_zone off) + off) mod day_us = hhmm_us target"
proof -
  have k: "0 < day_us" by (simp add: day_us_def)
  define q where "q = (now + off) div day_us"
  have q: "day_us * q \<le> now + off" "now + off < day_us * q + day_us"
    using div_bounds [OF k, of "now + off"] by (simp_all add: q_def)
  have m: "(q * day_us + hhmm_us target) mod day_us = hhmm_us target"
    "(q * day_us + hhmm_us target + day_us) mod day_us = hhmm_us target"
    using assms by simp_all
  show ?thesis
    using q m assms
    by (auto simp: next_fire_at_def fixed_zone_def Let_def q_def [symmetric] mult.commute)
qed

lemma next_fire_again:
  assumes "0 \<le> hhmm_us target" "hhmm_us target < day_us" "0 < gap" "gap < day_us"
    and n: "n = next_fire_at now target (fixed_zone off)"
  shows "next_fire_at (n + gap) target (fixed_zone off) = n + day_us"
proof -
  have "n + off = (n + off) div day_us * day_us + hhmm_us target"
    using next_fire_bounds [OF assms(1,2), of now off] by (metis div_mult_mod_eq n)
  then have "n + day_us + off = ((n + off) div day_us + 1) * day_us + hhmm_us target"
    by (simp add: algebra_simps)
  then show ?thesis by (rule next_fire_unique) (use assms in linarith)+
qed

lemma fire_times_daily:
  assumes "0 \<le> hhmm_us target" "hhmm_us target < day_us"
    and "list_all (\<lambda>(late, work). 0 \<le> late \<and> 0 \<le> work \<and> late + work + seconds 1 < day_us) rounds"
  shows "successively (\<lambda>a b. b = a + day_us) (fire_times (fixed_zone off) target now rounds)
    \<and> (rounds \<noteq> [] \<longrightarrow> hd (fire_times (fixed_zone off) target now rounds)
         = next_fire_at now target (fixed_zone off))"
  using assms(3)
proof (induction rounds arbitrary: now)
  case (Cons r rounds)
  obtain late work where r: "r = (late, work)" by fastforce
  define n where "n = next_fire_at now target (fixed_zone off)"
  define now' where "now' = n + (late + work + seconds 1)"
  have n: "now < n" using next_fire_bounds [OF assms(1,2)] by (simp add: n_def)
  have gap: "0 < late + work + seconds 1" "late + work + seconds 1 < day_us"
    using Cons.prems r by (simp_all add: seconds_def)
  have eq: "fire_times (fixed_zone off) target now (r # rounds)
      = n # fire_times (fixed_zone off) target now' rounds"
    using n by (simp add: r Let_def n_def [symmetric] now'_def add.assoc)
  have "next_fire_at now' target (fixed_zone off) = n + day_us"
    unfolding now'_def by (rule next_fire_again [OF assms(1,2) gap n_def])
  with Cons.IH [of now'] Cons.prems show ?case
    unfolding eq by (cases "fire_times (fixed_zone off) target now' rounds") (auto simp: n_def)
qed simp

lemma hhmm_range: "0 \<le> fst hm \<and> fst hm < 24 \<and> 0 \<le> snd hm \<and> snd hm < 60 \<Longrightarrow>
    0 \<le> hhmm_us hm \<and> hhmm_us hm < day_us"
  by (simp add: hhmm_us_def day_us_def)

lemma parse_hhmm_range:
  "0 \<le> fst (parse_hhmm v) \<and> fst (parse_hhmm v) < 24 \<and> 0 \<le> snd (parse_hhmm v) \<and> snd (parse_hhmm v) < 60"
proof -
  have "parse_hhmm v = DEFAULT_HHMM \<or>
      (0 \<le> fst (parse_hhmm v) \<and> fst (parse_hhmm v) < 24 \<and> 0 \<le> snd (parse_hhmm v) \<and> snd (parse_hhmm v) < 60)"
    by (auto simp: parse_hhmm_def split: list.splits option.splits)
  then show ?thesis by (auto simp: DEFAULT_HHMM_def)
qed

lemma pad2_digits: "list_all py_isdigit_char (pad2 i)"
  by (simp add: pad2_def digit_of_def digit_char_isdigit nat_less_iff)

lemma py_int_of_str_pad2:
  assumes "0 \<le> i" "i < 100"
  shows "py_int_of_str (pad2 i) = Some i"
proof -
  have "i div 10 mod 10 = i div 10" using assms by (intro mod_pos_pos_trivial) simp_all
  moreover have "10 * (i div 10) + i mod 10 = i" "0 \<le> i div 10" using assms by simp_all
  ultimately have "int (digits_val (pad2 i)) = i"
    using assms by (simp add: pad2_def digit_of_def digits_val_def digit_val_char nat_less_iff)
  moreover have "pad2 i \<noteq> []" by (simp add: pad2_def)
  ultimately show ?thesis
    using pad2_digits [of i]
    by (simp add: py_int_of_str_def py_strip_digits take_sign_digits take_digits_all)
qed

lemma parse_hhmm_pad:
  assumes "0 \<le> h" "h < 24" "0 \<le> m" "m < 60"
  shows "parse_hhmm (pad2 h @ '':'' @ pad2 m) = (h, m)"
proof -
  have nocolon: "CHR '':'' \<notin> set (pad2 i)" for i
  proof -
    have "\<not> py_isdigit_char (CHR '':'')" by code_simp
    with pad2_digits [of i] show ?thesis unfolding list_all_iff by blast
  qed
  have split: "split_on c (a @ c # b) = [a, b]" if "c \<notin> set a" "c \<notin> set b" for c a b
    using that by (induction a) (force simp: split_on_no_sep)+
  have "\<not> py_isspace (hd (pad2 h @ '':'' @ pad2 m))" "\<not> py_isspace (last (pad2 h @ '':'' @ pad2 m))"
    using pad2_digits [of h] pad2_digits [of m] digit_not_special by (auto simp: pad2_def)
  then have strip: "py_strip (pad2 h @ '':'' @ pad2 m) = pad2 h @ '':'' @ pad2 m"
    by (intro py_strip_id) (simp_all add: pad2_def)
  have "pad2 h @ '':'' @ pad2 m \<noteq> []" by (simp add: pad2_def)
  then show ?thesis
    unfolding parse_hhmm_def strip
    using split [OF nocolon nocolon, of h m] py_int_of_str_pad2 assms by simp
qed

lemma reconcile_built:
  assumes "reconcile_loop fx b now (\<lambda>e. False) s fs = (s', Inr n)"
  shows "\<exists>rows. rmap_list (build_fill_row fx b) fs = Inr rows"
  using assms
proof (induction fs arbitrary: s n)
  case (Cons f fs)
  then show ?case
    by (auto simp: rbind_Inr_iff split: sum.splits option.splits prod.splits)
qed simp

definition built_rows :: "FillRow option list \<Rightarrow> FillRow list" where
  "built_rows rows = concat (map (\<lambda>r. case r of None \<Rightarrow> [] | Some x \<Rightarrow> [x]) rows)"

lemma reconcile_as_batch:
  assumes "rmap_list (build_fill_row fx b) fs = Inr rows"
  shows "reconcile_loop fx b now (\<lambda>e. False) s fs =
    (fst (insert_batch insert_fill s (map (\<lambda>r. (r, now)) (built_rows rows))),
     Inr (snd (insert_batch insert_fill s (map (\<lambda>r. (r, now)) (built_rows rows)))))"
  using reconcile_batch [OF assms, of "\<lambda>e. False" now s] by (simp add: built_rows_def split: prod.splits)

lemma reconcile_prefix:
  assumes "rmap_list (build_fill_row fx b) pre = Inr rows" "build_fill_row fx b f = Inl e"
  shows "reconcile_loop fx b now (\<lambda>e. False) s (pre @ f # post) =
    (fst (reconcile_loop fx b now (\<lambda>e. False) s pre), Inl e)"
  using assms(1)
proof (induction pre arbitrary: s rows)
  case (Cons g pre)
  obtain r rs where r: "build_fill_row fx b g = Inr r" "rmap_list (build_fill_row fx b) pre = Inr rs"
    using Cons.prems by (auto simp: rbind_Inr_iff)
  show ?case
  proof (cases r)
    case None
    with r Cons.IH [OF r(2)] show ?thesis by simp
  next
    case (Some row)
    with r Cons.IH [OF r(2)] show ?thesis by (simp split: prod.splits)
  qed
qed (use assms(2) in simp)

section \<open>Properties\<close>

text \<open>Reconciliation is safe to repeat: after a run that returned, a second run over the same
  executions, at any later time and with the rates of that time, records nothing new and leaves
  the database as it is, provided every fill can still be converted.\<close>
theorem reconcile_idempotent:
  assumes "reconcile_loop fx b now (\<lambda>e. False) s fs = (s', Inr n)"
    and "reconcile_loop fx b now' (\<lambda>e. False) s' fs = (s'', Inr n')"
  shows "s'' = s' \<and> n' = 0"
proof -
  obtain rows where rows: "rmap_list (build_fill_row fx b) fs = Inr rows"
    using reconcile_built [OF assms(1)] by blast
  let ?batch = "\<lambda>t. map (\<lambda>r. (r, t)) (built_rows rows)"
  have s': "s' = fst (insert_batch insert_fill s (?batch now))"
    using assms(1) reconcile_as_batch [OF rows, of now s] by simp
  have "insert_batch insert_fill s' (?batch now') = (s', 0)"
  proof (rule fills_once.batch_noop)
    have "(fill_key \<circ> fst) (r, now') \<in> (fill_key \<circ> fst) ` set (fills s')"
      if "r \<in> set (built_rows rows)" "fill_storable r" for r
      unfolding s' fills_once.batch_keys using that by (force simp: image_iff)
    then show "list_all (\<lambda>r. (fill_storable \<circ> fst) r \<longrightarrow>
        (fill_key \<circ> fst) r \<in> (fill_key \<circ> fst) ` set (fills s')) (?batch now')"
      by (auto simp: list_all_iff)
  qed
  with assms(2) reconcile_as_batch [OF rows, of now' s'] show ?thesis by simp
qed

definition demo_vendor_fill :: "string \<Rightarrow> string \<Rightarrow> VendorFill" where
  "demo_vendor_fill eid c =
     \<lparr>vf_side = ''BOT'', vf_exec_id = eid, vf_acct = ''U1'', vf_shares = VInt 10, vf_price = VInt 5,
      vf_time = 7, vf_symbol = ''NVDA'', vf_primary_exchange = ''NASDAQ'', vf_currency = c,
      vf_sec_type = ''STK'', vf_con_id = 4815, vf_commission = VNone\<rparr>"

theorem reconcile_idempotent_witness:
  "\<exists>s' n. reconcile_loop None ''ibkr'' 9 (\<lambda>e. False) empty_store [demo_vendor_fill ''e1'' ''USD''] = (s', Inr n)
     \<and> (\<exists>s'' n'. reconcile_loop None ''ibkr'' 10 (\<lambda>e. False) s' [demo_vendor_fill ''e1'' ''USD''] = (s'', Inr n') \<and> n' = 0)"
proof -
  obtain row where row: "build_fill_row None ''ibkr'' (demo_vendor_fill ''e1'' ''USD'') = Inr (Some row)"
  proof -
    have "canonical_symbol_of ''NVDA'' ''NASDAQ'' = Inr ''NVDA.US''" by code_simp
    then show ?thesis
      by (intro that) (simp add: build_fill_row_def demo_vendor_fill_def SIDE_MAP_def fill_fx_def)
  qed
  then have rows: "rmap_list (build_fill_row None ''ibkr'') [demo_vendor_fill ''e1'' ''USD''] = Inr [Some row]"
    by simp
  let ?fs = "[demo_vendor_fill ''e1'' ''USD'']"
  obtain s' n where r1: "reconcile_loop None ''ibkr'' 9 (\<lambda>e. False) empty_store ?fs = (s', Inr n)"
    using reconcile_as_batch [OF rows, of 9 empty_store] by blast
  obtain s'' n' where r2: "reconcile_loop None ''ibkr'' 10 (\<lambda>e. False) s' ?fs = (s'', Inr n')"
    using reconcile_as_batch [OF rows, of 10 s'] by blast
  from reconcile_idempotent [OF r1 r2] r1 r2 show ?thesis by blast
qed

text \<open>Reconciliation can raise, and then loses fills: a fill in a currency the FX service does not
  support stops the run with its error, the fills before it are recorded and none after it is,
  on this run and on every later one that meets the same fill first.\<close>
theorem reconcile_stops_at_unsupported_currency:
  assumes "rmap_list (build_fill_row (Some (get_rate_sync fx t)) (b_name a)) pre = Inr rows"
    and "map_of SIDE_MAP (vf_side f) = Some side" "vf_commission f = VNone"
    and "canonical_symbol_of (vf_symbol f) (vf_primary_exchange f) = Inr canonical"
    and "vf_currency f \<noteq> []" "validate_currency (vf_currency f) = Inl e"
  shows "reconcile_fills (Some (get_rate_sync fx t)) (Single a) (Inr (pre @ f # post)) now (\<lambda>e. False) s =
    (fst (insert_batch insert_fill s (map (\<lambda>r. (r, now)) (built_rows rows))), Inl e)"
proof -
  have "vf_currency f \<noteq> ''USD''" using assms(6) by (auto simp: validate_currency_def)
  then have "build_fill_row (Some (get_rate_sync fx t)) (b_name a) f = Inl e"
    using assms by (simp add: build_fill_row_def fill_fx_def get_rate_sync_def)
  from reconcile_prefix [OF assms(1) this] reconcile_as_batch [OF assms(1), of now s] show ?thesis
    by (simp add: reconcile_fills_def req_executions_def ref_name_def)
qed

theorem reconcile_stops_at_unsupported_currency_witness:
  "reconcile_fills (Some (get_rate_sync demo_fx 0)) (Single (demo_broker ''ibkr'' (Inr CONNECTED) (Inr [])))
     (Inr ([] @ demo_vendor_fill ''e1'' ''NOK'' # [demo_vendor_fill ''e2'' ''USD''])) 9 (\<lambda>e. False) empty_store
   = (fst (insert_batch insert_fill empty_store (map (\<lambda>r. (r, 9)) (built_rows []))),
      Inl (ValueError ''Currency not in SUPPORTED_FX''))"
proof (rule reconcile_stops_at_unsupported_currency)
  show "canonical_symbol_of (vf_symbol (demo_vendor_fill ''e1'' ''NOK''))
      (vf_primary_exchange (demo_vendor_fill ''e1'' ''NOK'')) = Inr ''NVDA.US''" by code_simp
  show "validate_currency (vf_currency (demo_vendor_fill ''e1'' ''NOK'')) = Inl (ValueError ''Currency not in SUPPORTED_FX'')"
    by code_simp
qed (simp_all add: demo_vendor_fill_def SIDE_MAP_def)

text \<open>With several brokers the daily backstop never records anything: a composite has no executions
  to give, the lookup's AttributeError is taken for a broker-side error, and every run reports
  zero whatever was executed.\<close>
theorem reconcile_never_runs_on_composite:
  "reconcile_fills fx (Several as) answer now db_fails s = (s, Inr 0)"
  by (simp add: reconcile_fills_def req_executions_def)

text \<open>C40. The daily schedule: whatever the configured text, its time is a valid time of day, and a time
  written HH:MM is read back; in a zone of fixed offset the job fires exactly once a day, at that
  local time and strictly in the future, as long as a run and its delays take less than a day.\<close>
theorem reconcile_daily:
  assumes "list_all (\<lambda>(late, work). 0 \<le> late \<and> 0 \<le> work \<and> late + work + seconds 1 < day_us) rounds"
    and "0 \<le> h" "h < 24" "0 \<le> m" "m < 60"
  shows "parse_hhmm (pad2 h @ '':'' @ pad2 m) = (h, m)
    \<and> successively (\<lambda>a b. b = a + day_us) (fire_times (fixed_zone off) (parse_hhmm v) now rounds)
    \<and> now < next_fire_at now (parse_hhmm v) (fixed_zone off)
    \<and> next_fire_at now (parse_hhmm v) (fixed_zone off) \<le> now + day_us
    \<and> (next_fire_at now (parse_hhmm v) (fixed_zone off) + off) mod day_us = hhmm_us (parse_hhmm v)"
  using hhmm_range [OF parse_hhmm_range, of v] parse_hhmm_pad [OF assms(2-5)]
    fire_times_daily [of "parse_hhmm v" rounds off now] next_fire_bounds [of "parse_hhmm v" now off] assms(1)
  by blast

theorem reconcile_daily_witness:
  "parse_hhmm (pad2 7 @ '':'' @ pad2 30) = (7, 30)
   \<and> successively (\<lambda>a b. b = a + day_us) (fire_times (fixed_zone 28800000000) (parse_hhmm ''25:99'') 0 [(5, 6), (7, 8)])"
proof -
  have "list_all (\<lambda>(late, work). 0 \<le> late \<and> 0 \<le> work \<and> late + work + seconds 1 < day_us) [(5, 6), (7, 8)]"
    by (simp add: seconds_def day_us_def)
  from reconcile_daily [OF this, of 7 30 28800000000 "''25:99''" 0]
  show ?thesis by (elim meta_impE conjE) simp_all
qed

text \<open>The snapshot loop waits for the right close: the exchange it picks is a held stock exchange
  whose next close is the earliest of all held exchanges, and it picks none only if no held
  exchange has a next close.\<close>
theorem snapshot_target_earliest:
  "case next_close_across_held_exchanges cal_of now ps of
     None \<Rightarrow> list_all (\<lambda>p. asset_class p = ''STK'' \<and> exchange p \<noteq> [] \<longrightarrow> next_close_at cal_of now (exchange p) = None) ps
   | Some (e, c) \<Rightarrow>
       list_ex (\<lambda>p. asset_class p = ''STK'' \<and> exchange p = e) ps \<and> next_close_at cal_of now e = Some c
       \<and> list_all (\<lambda>p. asset_class p = ''STK'' \<and> exchange p \<noteq> [] \<longrightarrow>
           (case next_close_at cal_of now (exchange p) of None \<Rightarrow> True | Some d \<Rightarrow> c \<le> d)) ps"
proof -
  let ?r = "next_close_across_held_exchanges cal_of now ps"
  have "soonest_close (next_close_at cal_of now) None (held_exchanges ps) = ?r"
    by (simp add: next_close_across_held_exchanges_def)
  note r = soonest_close_min [OF this]
  have held: "e \<in> set (held_exchanges ps) \<longleftrightarrow> (\<exists>p \<in> set ps. asset_class p = ''STK'' \<and> exchange p = e \<and> e \<noteq> [])" for e
    by (auto simp: held_exchanges_def)
  show ?thesis
  proof (cases ?r)
    case None
    with r held show ?thesis by (auto simp: list_all_iff)
  next
    case (Some ec)
    obtain e c where ec: "ec = (e, c)" by fastforce
    have all: "case next_close_at cal_of now (exchange p) of None \<Rightarrow> True | Some d \<Rightarrow> c \<le> d"
      if "p \<in> set ps" "asset_class p = ''STK''" "exchange p \<noteq> []" for p
      using r Some ec held [of "exchange p"] that by (auto split: option.splits)
    have "e \<in> set (held_exchanges ps)" "next_close_at cal_of now e = Some c"
      using r Some ec by auto
    with all held Some ec show ?thesis by (auto simp: list_all_iff list_ex_iff)
  qed
qed

theorem snapshot_target_earliest_witness:
  "case next_close_across_held_exchanges (\<lambda>m. demo_calendar) 0 [] of None \<Rightarrow> True | Some (e, c) \<Rightarrow> False"
  using snapshot_target_earliest [of "\<lambda>m. demo_calendar" 0 "[]"] by (auto split: option.splits)

end
