(* ===== verification/Vendor.thy ===== *)
theory Vendor
  imports Fx Live
begin

text \<open>
  What the adapters of \<open>app/adapters\<close> share: reading numbers and texts out of vendor objects, the
  conversion of a balance to dollars, and the row that shows a cash balance. An attribute that is
  missing or \<open>None\<close> is \<open>VNone\<close> where a number is read and \<open>None\<close> where a text is read; otherwise a
  text is the one \<open>str\<close> gives.
\<close>

definition safe_float :: "pyval \<Rightarrow> fl" where
  "safe_float v = (case py_float v of Inl e \<Rightarrow> 0 | Inr f \<Rightarrow> f)"

definition text_or :: "string option \<Rightarrow> string \<Rightarrow> string" where
  "text_or v d =
     (case v of None \<Rightarrow> d | Some s \<Rightarrow> (if py_strip s = [] then d else py_strip s))"

text \<open>The first of some values that is present and reads as a number; \<open>N/A\<close> counts as absent.\<close>

definition blank :: "pyval \<Rightarrow> bool" where
  "blank v = (v = VNone \<or> v = VStr [] \<or> v = VStr ''N/A'')"

fun first_number :: "pyval list \<Rightarrow> fl" where
  "first_number [] = 0"
| "first_number (v # vs) =
     (if blank v then first_number vs
      else (case py_float v of Inl e \<Rightarrow> first_number vs | Inr f \<Rightarrow> f))"

text \<open>\<open>_to_usd\<close> of the polling adapters goes through the row conversion; IBKR's own repeats it.\<close>

type_synonym rate_lookup = "(string \<Rightarrow> FxRate option result) option"

definition to_usd :: "rate_lookup \<Rightarrow> fl \<Rightarrow> string \<Rightarrow> fl result" where
  "to_usd fx amount c = rbind (convert_to_usd fx c amount 0) (\<lambda>conv. Inr (conv_mv_usd conv))"

text \<open>A cash balance as a row: the currency is the instrument, its price is one, and it has no
  profit or loss.\<close>

definition cash_row :: "rate_lookup \<Rightarrow> string \<Rightarrow> string \<Rightarrow> string \<Rightarrow> fl \<Rightarrow> Position result" where
  "cash_row fx b account c amount =
     rbind (convert_to_usd fx c amount 0) (\<lambda>conv.
       Inr \<lparr>broker = b, account_id = account, native_key = c, canonical_symbol = c, native_symbol = c,
         exchange = [], currency = c,
         name_en = (case map_of CURRENCY_NAMES c of Some n \<Rightarrow> n | None \<Rightarrow> c),
         asset_class = ''CASH'', quantity = amount, avg_cost = 1, last_price = 1,
         market_value_native = amount, market_value_usd = conv_mv_usd conv,
         unrealized_pnl_native = 0, unrealized_pnl_usd = 0,
         fx_is_stale = conv_is_stale conv, fx_is_fallback = conv_is_fallback conv,
         fx_unavailable = conv_unavailable conv, last_price_is_previous_close = False,
         last_price_is_broker_mark = False, last_price_is_delayed = False,
         last_price_is_stale = False, price_magnifier = 1, previous_close = 0\<rparr>)"

text \<open>The row of a stock the polling adapters build; the flags IBKR adds keep their defaults.\<close>

definition stock_row ::
    "rate_lookup \<Rightarrow> string \<Rightarrow> string \<Rightarrow> string \<Rightarrow> string \<times> string \<times> string \<Rightarrow> string \<Rightarrow> string \<Rightarrow>
       fl \<Rightarrow> fl \<Rightarrow> fl \<Rightarrow> fl \<Rightarrow> fl \<Rightarrow> fl \<Rightarrow> Position result" where
  "stock_row fx b account key ident c name qty cost last_p mv pnl prev =
     (case ident of (native, canonical, exch) \<Rightarrow>
      rbind (convert_to_usd fx c mv pnl) (\<lambda>conv.
       Inr \<lparr>broker = b, account_id = account, native_key = key, canonical_symbol = canonical,
         native_symbol = native, exchange = exch, currency = c, name_en = name,
         asset_class = ''STK'', quantity = qty, avg_cost = cost, last_price = last_p,
         market_value_native = mv, market_value_usd = conv_mv_usd conv,
         unrealized_pnl_native = pnl, unrealized_pnl_usd = conv_pnl_usd conv,
         fx_is_stale = conv_is_stale conv, fx_is_fallback = conv_is_fallback conv,
         fx_unavailable = conv_unavailable conv, last_price_is_previous_close = False,
         last_price_is_broker_mark = False, last_price_is_delayed = False,
         last_price_is_stale = False, price_magnifier = 1, previous_close = prev\<rparr>))"

section \<open>Lemmas\<close>

lemma cash_row_fields:
  "cash_row fx b account c amount = Inr p \<Longrightarrow>
     pos_key p = (b, account, c) \<and> broker p = b \<and> account_id p = account \<and> native_key p = c
     \<and> asset_class p = ''CASH'' \<and> quantity p = amount \<and> market_value_native p = amount
     \<and> currency p = c \<and> exchange p = []"
  by (cases "convert_to_usd fx c amount 0") (auto simp: cash_row_def pos_key_def)

lemma stock_row_fields:
  "stock_row fx b account key ident c name qty cost last_p mv pnl prev = Inr p \<Longrightarrow>
     pos_key p = (b, account, fst (snd ident)) \<and> broker p = b \<and> account_id p = account \<and> native_key p = key
     \<and> asset_class p = ''STK'' \<and> quantity p = qty \<and> market_value_native p = mv
     \<and> last_price p = last_p \<and> currency p = c \<and> canonical_symbol p = fst (snd ident)
     \<and> native_symbol p = fst ident \<and> exchange p = snd (snd ident) \<and> unrealized_pnl_native p = pnl
     \<and> avg_cost p = cost \<and> previous_close p = prev \<and> price_magnifier p = 1"
  by (cases ident; cases "convert_to_usd fx c mv pnl") (auto simp: stock_row_def pos_key_def)

lemma text_or_nonempty: "d \<noteq> [] \<Longrightarrow> text_or v d \<noteq> []"
  by (auto simp: text_or_def split: option.splits)

lemma rmap_list_Inr_iff: "(\<exists>ys. rmap_list f xs = Inr ys) \<longleftrightarrow> list_all (\<lambda>x. \<exists>y. f x = Inr y) xs"
proof (induction xs)
  case (Cons x xs)
  then show ?case by (cases "f x") (auto simp: rbind_Inr_iff)
qed simp

lemma rmap_list_mem: "rmap_list f xs = Inr ys \<Longrightarrow> y \<in> set ys \<Longrightarrow> \<exists>x\<in>set xs. f x = Inr y"
  by (induction xs arbitrary: ys) (auto simp: rbind_Inr_iff)

lemma rmap_list_map_eq:
  assumes "rmap_list f xs = Inr ys" "\<And>x y. f x = Inr y \<Longrightarrow> g y = h x"
  shows "map g ys = map h xs"
  using assms(1) by (induction xs arbitrary: ys) (auto simp: rbind_Inr_iff assms(2))

lemma py_lstrip_rstrip:
  assumes "t = [] \<or> \<not> py_isspace (hd t)"
  shows "py_lstrip (py_rstrip t) = py_rstrip t"
proof (cases "py_rstrip t = []")
  case False
  obtain u where "t = py_rstrip t @ u"
    unfolding py_rstrip_def by (metis rev_append rev_rev_ident takeWhile_dropWhile_id)
  with False have "hd (py_rstrip t) = hd t" "t \<noteq> []" by (metis hd_append2, auto)
  with assms False show ?thesis by (simp add: py_lstrip_def dropWhile_hd_not)
qed (simp add: py_lstrip_def)

lemma py_strip_idem [simp]: "py_strip (py_strip s) = py_strip s"
proof -
  have "py_lstrip s = [] \<or> \<not> py_isspace (hd (py_lstrip s))"
    unfolding py_lstrip_def by (metis dropWhile_eq_Nil_conv hd_dropWhile)
  from py_lstrip_rstrip [OF this] show ?thesis
    by (simp add: py_strip_def py_rstrip_def dropWhile_idem)
qed

text \<open>A rate lookup of the FX service raises at most a \<open>ValueError\<close>, and then a conversion always returns.\<close>

definition rates_ok :: "rate_lookup \<Rightarrow> bool" where
  "rates_ok fx = (case fx of None \<Rightarrow> True | Some f \<Rightarrow> \<forall>c e. f c = Inl e \<longrightarrow> (\<exists>m. e = ValueError m))"

lemma rates_ok_none [simp]: "rates_ok None"
  by (simp add: rates_ok_def)

lemma rates_ok_service: "rates_ok (Some (get_rate_sync s t))"
  by (auto simp: rates_ok_def intro: fx_rates.only_value_error)

lemma convert_returns:
  assumes "rates_ok fx"
  obtains conv where "convert_to_usd fx c mv pnl = Inr conv"
proof (cases "convert_to_usd fx c mv pnl")
  case (Inl e)
  with assms show thesis
    by (auto simp: convert_to_usd_def rates_ok_def Let_def split: if_splits option.splits sum.splits py_exc.splits)
qed (rule that)

lemma stock_row_returns:
  assumes "rates_ok fx"
  obtains p where "stock_row fx b a k ident c n q co l mv pnl pr = Inr p"
  by (rule convert_returns [OF assms, of c mv pnl]; cases ident) (auto simp: stock_row_def intro: that)

lemma cash_row_returns:
  assumes "rates_ok fx"
  obtains p where "cash_row fx b a c amount = Inr p"
  by (rule convert_returns [OF assms, of c amount 0]) (auto simp: cash_row_def intro: that)

end
