(* ===== verification/Ibkr.thy ===== *)
theory Ibkr
  imports Vendor
begin

text \<open>
  \<open>app/adapters/ibkr.py\<close>, the part that builds rows: reading quotes and the account portfolio,
  the listing exchange and the name of a contract with their caches, previous closes with theirs,
  the position and cash rows, and the account summaries. What IB and Yahoo answer to a request are
  the fields of the record \<open>IbApi\<close>; the order in which concurrent requests are answered does not
  matter to their results.
\<close>

record Contract =
  ct_con_id :: int
  ct_symbol :: string
  ct_currency :: string
  ct_sec_type :: string
  ct_primary_exchange :: "string option"
  ct_exchange :: "string option"

record ContractDetails =
  cd_primary_exchange :: "string option"
  cd_exchange :: "string option"
  cd_long_name :: "string option"
  cd_price_magnifier :: pyval

record IbTicker =
  tk_last :: pyval
  tk_close :: pyval
  tk_market_price :: attr
  tk_market_data_type :: pyval

record PortfolioItem =
  pi_con_id :: "int option"
  pi_market_price :: pyval
  pi_average_cost :: pyval
  pi_market_value :: pyval
  pi_unrealized_pnl :: pyval

record VendorPosition =
  vp_account :: string
  vp_contract :: Contract
  vp_position :: fl
  vp_avg_cost :: fl

record SummaryRow =
  sr_account :: string
  sr_tag :: string
  sr_value :: string
  sr_currency :: string

section \<open>Reading quotes and portfolio values\<close>

definition to_positive_float :: "pyval \<Rightarrow> fl option" where
  "to_positive_float v =
     (case py_float v of
        Inl e \<Rightarrow> None
      | Inr f \<Rightarrow> if f = NaN then None else if f \<le> 0 then None else Some f)"

definition to_finite_float :: "pyval \<Rightarrow> fl option" where
  "to_finite_float v =
     (case py_float v of Inl e \<Rightarrow> None | Inr f \<Rightarrow> if f = NaN then None else Some f)"

definition coerce_last :: "IbTicker \<Rightarrow> fl" where
  "coerce_last t =
     (case to_positive_float (tk_last t) of
        Some f \<Rightarrow> f
      | None \<Rightarrow>
          (case to_positive_float (tk_close t) of
             Some f \<Rightarrow> f
           | None \<Rightarrow>
               (case tk_market_price t of
                  Method (Inr v) \<Rightarrow> (case to_positive_float v of Some f \<Rightarrow> f | None \<Rightarrow> 0)
                | _ \<Rightarrow> 0)))"

text \<open>Only TypeError and ValueError are caught around \<open>int\<close>; market data type 1 is live data.\<close>

definition ticker_is_delayed :: "IbTicker \<Rightarrow> bool result" where
  "ticker_is_delayed t =
     (case py_int (tk_market_data_type t) of
        Inl TypeError \<Rightarrow> Inr False
      | Inl (ValueError m) \<Rightarrow> Inr False
      | Inl e \<Rightarrow> Inl e
      | Inr i \<Rightarrow> Inr (i \<in> {2, 3, 4}))"

definition portfolio_market_value :: "PortfolioItem option \<Rightarrow> fl option" where
  "portfolio_market_value item =
     (case item of None \<Rightarrow> None | Some i \<Rightarrow> to_finite_float (pi_market_value i))"

definition portfolio_unrealized_pnl :: "PortfolioItem option \<Rightarrow> fl option" where
  "portfolio_unrealized_pnl item =
     (case item of None \<Rightarrow> None | Some i \<Rightarrow> to_finite_float (pi_unrealized_pnl i))"

definition portfolio_average_cost :: "PortfolioItem option \<Rightarrow> int \<Rightarrow> fl option" where
  "portfolio_average_cost item magnifier =
     (case item of
        None \<Rightarrow> None
      | Some i \<Rightarrow> map_option (\<lambda>v. v * fl_of_int magnifier) (to_positive_float (pi_average_cost i)))"

text \<open>The portfolio's price, or its market value per share, in quotation units.\<close>

definition portfolio_display_price :: "PortfolioItem option \<Rightarrow> int \<Rightarrow> fl \<Rightarrow> fl option" where
  "portfolio_display_price item magnifier qty =
     (case item of
        None \<Rightarrow> None
      | Some i \<Rightarrow>
          (let price = (case to_positive_float (pi_market_price i) of
                 Some f \<Rightarrow> Some f
               | None \<Rightarrow>
                   if qty = 0 then None
                   else map_option (\<lambda>mv. \<bar>mv / qty\<bar>) (portfolio_market_value item))
           in map_option (\<lambda>p. p * fl_of_int magnifier) price))"

section \<open>Listing exchange and name\<close>

definition IB_PERMISSION_GATED :: "string list" where
  "IB_PERMISSION_GATED =
     [''AEB'', ''IBIS'', ''KOSDAQ'', ''KRX'', ''KSE'', ''LSE'', ''SBF'', ''SFB'', ''SGX'',
      ''TPEX'', ''TSEJ'', ''TWSE'']"

definition is_permission_gated :: "string option \<Rightarrow> bool" where
  "is_permission_gated e =
     (py_strip (case e of None \<Rightarrow> [] | Some s \<Rightarrow> s) \<in> set IB_PERMISSION_GATED)"

fun first_listing :: "string list \<Rightarrow> string option" where
  "first_listing [] = None"
| "first_listing (e # es) =
     (if e = [] \<or> e = ''SMART'' then first_listing es
      else if map_of IB_EXCHANGE_TO_SUFFIX e \<noteq> None then Some e else None)"

definition first_known_listing_exchange ::
    "string option \<Rightarrow> string option \<Rightarrow> string option \<Rightarrow> string option \<Rightarrow> string option" where
  "first_known_listing_exchange details_primary details_exchange contract_primary contract_exchange =
     first_listing (map (\<lambda>c. py_strip (case c of None \<Rightarrow> [] | Some s \<Rightarrow> s))
       [details_primary, contract_primary, details_exchange, contract_exchange])"

text \<open>The first exchange code of the table with the symbol's suffix.\<close>

definition primary_exchange_from_canonical :: "string \<Rightarrow> string option" where
  "primary_exchange_from_canonical canonical =
     (case split_last dot canonical of
        None \<Rightarrow> None
      | Some (native, suffix) \<Rightarrow> map_option fst (find (\<lambda>(code, s). s = suffix) IB_EXCHANGE_TO_SUFFIX))"

record IbCaches =
  details_cache :: "(int, ContractDetails) dict"
  listing_cache :: "(int, string) dict"
  close_cache :: "(int, int \<times> fl) dict"
  miss_cache :: "(int, int) dict"

record IbApi =
  api_positions :: "VendorPosition list result"
  api_details :: "Contract \<Rightarrow> ContractDetails list result"
  api_tickers :: "Contract list \<Rightarrow> IbTicker list result"
  api_portfolio :: "PortfolioItem list result option"
  api_managed :: "string list option"
  api_summary :: "SummaryRow list result option"
  api_historical :: "(Contract \<Rightarrow> fl list result) option"
  api_yahoo :: "(string \<Rightarrow> fl option result) option"

definition contract_details_for_contract ::
    "bool \<Rightarrow> IbApi \<Rightarrow> IbCaches \<Rightarrow> Contract \<Rightarrow> IbCaches \<times> ContractDetails option result" where
  "contract_details_for_contract live api k contract =
     (if \<not> live then (k, Inr None)
      else (case map_of (details_cache k) (ct_con_id contract) of
        Some d \<Rightarrow> (k, Inr (Some d))
      | None \<Rightarrow>
          (case api_details api contract of
             Inl e \<Rightarrow> (k, Inl e)
           | Inr [] \<Rightarrow> (k, Inr None)
           | Inr (d # ds) \<Rightarrow>
               (k\<lparr>details_cache := AList.update (ct_con_id contract) d (details_cache k)\<rparr>, Inr (Some d)))))"

definition listing_exchange_for_contract ::
    "bool \<Rightarrow> IbApi \<Rightarrow> IbCaches \<Rightarrow> Contract \<Rightarrow> IbCaches \<times> string option" where
  "listing_exchange_for_contract live api k contract =
     (case first_known_listing_exchange None None (ct_primary_exchange contract) (ct_exchange contract) of
        Some e \<Rightarrow> (k, Some e)
      | None \<Rightarrow>
          (case contract_details_for_contract live api k contract of
             (k1, Inr (Some d)) \<Rightarrow>
               (k1, first_known_listing_exchange (cd_primary_exchange d) (cd_exchange d)
                      (ct_primary_exchange contract) (ct_exchange contract))
           | (k1, _) \<Rightarrow> (k1, None)))"

fun listing_exchanges_for_contracts ::
    "bool \<Rightarrow> IbApi \<Rightarrow> IbCaches \<Rightarrow> Contract list \<Rightarrow> IbCaches \<times> (int, string) dict" where
  "listing_exchanges_for_contracts live api k [] = (k, [])"
| "listing_exchanges_for_contracts live api k (c # cs) =
     (case (case map_of (listing_cache k) (ct_con_id c) of
              Some e \<Rightarrow> (k, Some e)
            | None \<Rightarrow>
                (case listing_exchange_for_contract live api k c of
                   (k1, None) \<Rightarrow> (k1, None)
                 | (k1, Some e) \<Rightarrow>
                     (k1\<lparr>listing_cache := AList.update (ct_con_id c) e (listing_cache k1)\<rparr>, Some e))) of
        (k1, found) \<Rightarrow>
          (case listing_exchanges_for_contracts live api k1 cs of
             (k2, rest) \<Rightarrow>
               (k2, (case found of None \<Rightarrow> rest | Some e \<Rightarrow> dict_update [(ct_con_id c, e)] rest))))"

text \<open>The fetcher the name resolver is given has no contract to ask with and answers nothing.\<close>

definition fetch_contract_details ::
    "bool \<Rightarrow> IbApi \<Rightarrow> IbCaches \<Rightarrow> Contract option \<Rightarrow> IbCaches \<times> (string \<times> string \<times> int) option result" where
  "fetch_contract_details live api k contract =
     (case (live, contract) of
        (True, Some c) \<Rightarrow>
          (case contract_details_for_contract live api k c of
             (k1, Inl e) \<Rightarrow> (k1, Inl e)
           | (k1, Inr None) \<Rightarrow> (k1, Inr None)
           | (k1, Inr (Some d)) \<Rightarrow>
               (case first_known_listing_exchange (cd_primary_exchange d) (cd_exchange d)
                       (ct_primary_exchange c) (ct_exchange c) of
                  None \<Rightarrow> (k1, Inr None)
                | Some e \<Rightarrow>
                    (case canonical_symbol_of (ct_symbol c) e of
                       Inl e \<Rightarrow> (k1, Inr None)
                     | Inr canonical \<Rightarrow>
                         (k1, rbind (if py_truthy (cd_price_magnifier d)
                                     then (case py_int (cd_price_magnifier d) of
                                             Inl TypeError \<Rightarrow> Inr 1
                                           | Inl (ValueError m) \<Rightarrow> Inr 1
                                           | r \<Rightarrow> r)
                                     else Inr 1) (\<lambda>m.
                            Inr (Some (canonical,
                              py_strip (case cd_long_name d of None \<Rightarrow> [] | Some n \<Rightarrow> n), m)))))))
      | _ \<Rightarrow> (k, Inr None))"

type_synonym resolved_name = "string \<times> string \<times> string \<times> int"

definition with_exchange :: "string \<times> string \<times> int \<Rightarrow> resolved_name option" where
  "with_exchange entry =
     (case entry of (canonical, name, m) \<Rightarrow>
        map_option (\<lambda>e. (canonical, name, e, m)) (primary_exchange_from_canonical canonical))"

text \<open>With a database, the cache is asked first; what is fetched is written to it.\<close>

definition resolve_name ::
    "bool \<Rightarrow> IbApi \<Rightarrow> instant \<Rightarrow> IbCaches \<times> Store option \<Rightarrow> Contract \<Rightarrow>
       (IbCaches \<times> Store option) \<times> resolved_name option result" where
  "resolve_name live api now ks c =
     (let k = fst ks; db = snd ks; key = py_str_int (ct_con_id c);
          cached = (case db of None \<Rightarrow> None
                    | Some st \<Rightarrow>
                        (case resolve get_name_cache put_name_cache st now (Inr None) ''IBKR'' key of
                           (st1, Inr (Some entry)) \<Rightarrow> Some entry | _ \<Rightarrow> None))
      in case cached of
           Some entry \<Rightarrow> (ks, Inr (with_exchange entry))
         | None \<Rightarrow>
             (case fetch_contract_details live api k (Some c) of
                (k1, Inl e) \<Rightarrow> ((k1, db), Inl e)
              | (k1, Inr None) \<Rightarrow> ((k1, db), Inr None)
              | (k1, Inr (Some entry)) \<Rightarrow>
                  (case with_exchange entry of
                     None \<Rightarrow> ((k1, db), Inr None)
                   | Some r \<Rightarrow>
                       ((k1, map_option (\<lambda>st. put_name_cache st now ''IBKR'' key entry) db), Inr (Some r)))))"

section \<open>Previous closes\<close>

definition quote_venue :: "string option \<Rightarrow> Contract \<Rightarrow> string" where
  "quote_venue listing c =
     (let text = (\<lambda>v. case v of None \<Rightarrow> [] | Some s \<Rightarrow> s)
      in if text listing \<noteq> [] then text listing
         else if text (ct_primary_exchange c) \<noteq> [] then text (ct_primary_exchange c)
         else text (ct_exchange c))"

definition try_yahoo :: "IbApi \<Rightarrow> Contract \<Rightarrow> string option \<Rightarrow> fl option" where
  "try_yahoo api c listing =
     (case (api_yahoo api, yahoo_symbol_for (ct_symbol c) (quote_venue listing c)) of
        (Some fetch, Some symbol) \<Rightarrow>
          (case fetch symbol of
             Inr (Some v) \<Rightarrow> if v \<le> 0 then None else Some v
           | _ \<Rightarrow> None)
      | _ \<Rightarrow> None)"

definition try_ib_historical :: "IbApi \<Rightarrow> Contract \<Rightarrow> fl option" where
  "try_ib_historical api c =
     (case api_historical api of
        None \<Rightarrow> None
      | Some request \<Rightarrow>
          (case request c of
             Inl e \<Rightarrow> None
           | Inr bars \<Rightarrow> if bars = [] then None
                         else if 0 < last bars then Some (last bars) else None))"

definition fetch_previous_close :: "IbApi \<Rightarrow> Contract \<Rightarrow> string option \<Rightarrow> fl option" where
  "fetch_previous_close api c listing =
     (case try_yahoo api c listing of
        Some v \<Rightarrow> Some v
      | None \<Rightarrow>
          if is_permission_gated (Some (quote_venue listing c)) then None
          else try_ib_historical api c)"

definition fetch_previous_closes ::
    "IbApi \<Rightarrow> (int, string) dict \<Rightarrow> Contract list \<Rightarrow> (int, fl) dict" where
  "fetch_previous_closes api listing cs =
     dict_of (concat (map (\<lambda>c.
       case fetch_previous_close api c (map_of listing (ct_con_id c)) of
         None \<Rightarrow> []
       | Some v \<Rightarrow> if 0 < v then [(ct_con_id c, v)] else []) cs))"

text \<open>Found closes are kept for the UTC day, and so is the fact that none was found.\<close>

definition cached_close :: "IbCaches \<Rightarrow> int \<Rightarrow> int \<Rightarrow> fl option" where
  "cached_close k today cid =
     (case map_of (close_cache k) cid of
        None \<Rightarrow> None
      | Some (d, v) \<Rightarrow> if d = today then Some v else None)"

definition close_misses :: "IbCaches \<Rightarrow> int \<Rightarrow> Contract list \<Rightarrow> Contract list" where
  "close_misses k today cs =
     filter (\<lambda>c. cached_close k today (ct_con_id c) = None
       \<and> map_of (miss_cache k) (ct_con_id c) \<noteq> Some today) cs"

definition fetch_previous_closes_cached ::
    "IbApi \<Rightarrow> int \<Rightarrow> (int, string) dict \<Rightarrow> IbCaches \<Rightarrow> Contract list \<Rightarrow> IbCaches \<times> (int, fl) dict" where
  "fetch_previous_closes_cached api today listing k cs =
     (let hits = dict_of (concat (map (\<lambda>c.
            case cached_close k today (ct_con_id c) of None \<Rightarrow> [] | Some v \<Rightarrow> [(ct_con_id c, v)]) cs));
          misses = close_misses k today cs;
          fresh = fetch_previous_closes api listing misses;
          unanswered = filter (\<lambda>c. map_of fresh (ct_con_id c) = None) misses
      in if misses = [] then (k, hits)
         else (k\<lparr>close_cache := dict_update (close_cache k) (map (\<lambda>(cid, v). (cid, today, v)) fresh),
                 miss_cache := dict_update
                   (filter (\<lambda>(cid, d). map_of fresh cid = None) (miss_cache k))
                   (map (\<lambda>c. (ct_con_id c, today)) unanswered)\<rparr>,
               dict_update hits fresh))"

section \<open>Rows\<close>

definition portfolio_items_by_conid :: "bool \<Rightarrow> IbApi \<Rightarrow> (int, PortfolioItem) dict" where
  "portfolio_items_by_conid live api =
     (case (live, api_portfolio api) of
        (True, Some (Inr items)) \<Rightarrow>
          dict_of (concat (map (\<lambda>i. case pi_con_id i of
            None \<Rightarrow> [] | Some cid \<Rightarrow> if cid = 0 then [] else [(cid, i)]) items))
      | _ \<Rightarrow> [])"

text \<open>The price of a row and where it comes from: a quote, the account portfolio, the last close.\<close>

definition choose_price :: "fl \<Rightarrow> bool \<Rightarrow> fl option \<Rightarrow> fl \<Rightarrow> fl \<times> bool \<times> bool \<times> bool" where
  "choose_price live delayed mark close =
     (if live \<le> 0 then
        (case mark of
           Some p \<Rightarrow> (p, True, False, False)
         | None \<Rightarrow> if 0 < close then (close, False, True, False) else (live, False, False, delayed))
      else (live, False, False, delayed))"

definition or_else :: "fl option \<Rightarrow> fl \<Rightarrow> fl" where
  "or_else v d = (case v of Some x \<Rightarrow> x | None \<Rightarrow> d)"

definition build_position ::
    "rate_lookup \<Rightarrow> resolved_name option \<Rightarrow> (int, fl) dict \<Rightarrow> (int, fl) dict \<Rightarrow>
       (int, PortfolioItem) dict \<Rightarrow> (int, bool) dict \<Rightarrow> VendorPosition \<Rightarrow> Position option result" where
  "build_position fx resolved last_prices previous_closes items delayed vp =
     (case resolved of
        None \<Rightarrow> Inr None
      | Some (canonical, name, exch, m) \<Rightarrow>
          (let c = vp_contract vp;
               item = map_of items (ct_con_id c);
               live = or_else (map_of last_prices (ct_con_id c)) 0;
               prev = or_else (map_of previous_closes (ct_con_id c)) 0;
               qty = vp_position vp;
               cost = or_else (portfolio_average_cost item m) (vp_avg_cost vp)
           in case choose_price live (map_of delayed (ct_con_id c) = Some True)
                     (portfolio_display_price item m qty) prev of
             (price, is_mark, is_prev, is_delayed) \<Rightarrow>
               rbind (case portfolio_market_value item of
                        Some v \<Rightarrow> if live \<le> 0 then Inr v else py_div (qty * price) (fl_of_int m)
                      | None \<Rightarrow> py_div (qty * price) (fl_of_int m)) (\<lambda>mv.
               rbind (case portfolio_unrealized_pnl item of
                        Some v \<Rightarrow> if live \<le> 0 then Inr v
                                  else py_div ((price - cost) * qty) (fl_of_int m)
                      | None \<Rightarrow> py_div ((price - cost) * qty) (fl_of_int m)) (\<lambda>pnl.
               rbind (convert_to_usd fx (ct_currency c) mv pnl) (\<lambda>conv.
                 Inr (Some \<lparr>broker = ''IBKR'', account_id = vp_account vp,
                   native_key = py_str_int (ct_con_id c), canonical_symbol = canonical,
                   native_symbol = ct_symbol c, exchange = exch, currency = ct_currency c,
                   name_en = name, asset_class = ''STK'', quantity = qty, avg_cost = cost,
                   last_price = price, market_value_native = mv, market_value_usd = conv_mv_usd conv,
                   unrealized_pnl_native = pnl, unrealized_pnl_usd = conv_pnl_usd conv,
                   fx_is_stale = conv_is_stale conv, fx_is_fallback = conv_is_fallback conv,
                   fx_unavailable = conv_unavailable conv,
                   last_price_is_previous_close = is_prev, last_price_is_broker_mark = is_mark,
                   last_price_is_delayed = is_delayed, last_price_is_stale = False,
                   price_magnifier = m, previous_close = prev\<rparr>))))))"

definition build_cash_position :: "rate_lookup \<Rightarrow> VendorPosition \<Rightarrow> Position result" where
  "build_cash_position fx vp =
     cash_row fx ''IBKR'' (vp_account vp) (ct_currency (vp_contract vp)) (vp_position vp)"

section \<open>Cash the account summary reports\<close>

record AccountCashValue =
  ac_account_id :: string
  ac_currency :: string
  ac_amount :: fl

text \<open>\<open>accounts.append\<close> for the account of every row that is not in the list yet.\<close>

definition note_accounts :: "string list \<Rightarrow> SummaryRow list \<Rightarrow> string list" where
  "note_accounts accounts rows =
     foldl (\<lambda>as r. if sr_account r \<noteq> [] \<and> sr_account r \<notin> set as then as @ [sr_account r] else as)
       accounts rows"

definition managed_accounts :: "IbApi \<Rightarrow> string list" where
  "managed_accounts api = (case api_managed api of None \<Rightarrow> [] | Some as \<Rightarrow> as)"

definition account_cash_values :: "bool \<Rightarrow> IbApi \<Rightarrow> AccountCashValue list" where
  "account_cash_values live api =
     (case (live, api_summary api) of
        (True, Some (Inr rows)) \<Rightarrow>
          (let by_account = dict_of (map (\<lambda>r. (sr_account r,
                 \<lparr>ac_account_id = sr_account r,
                  ac_currency = (if sr_currency r = [] then ''USD'' else sr_currency r),
                  ac_amount = safe_float (VStr (sr_value r))\<rparr>))
               (filter (\<lambda>r. sr_tag r = ''TotalCashValue'' \<and> sr_account r \<noteq> []) rows))
           in concat (map (\<lambda>a. case map_of by_account a of None \<Rightarrow> [] | Some v \<Rightarrow> [v])
                (note_accounts (managed_accounts api) rows)))
      | _ \<Rightarrow> [])"

definition build_account_cash_position :: "rate_lookup \<Rightarrow> AccountCashValue \<Rightarrow> Position result" where
  "build_account_cash_position fx cash =
     cash_row fx ''IBKR'' (ac_account_id cash) (ac_currency cash) (ac_amount cash)"

definition missing_account_cash_positions ::
    "bool \<Rightarrow> IbApi \<Rightarrow> rate_lookup \<Rightarrow> Position list \<Rightarrow> Position list result" where
  "missing_account_cash_positions live api fx ps =
     (let with_cash = map account_id (filter (\<lambda>p. asset_class p = ''CASH'') ps)
      in rmap_list (build_account_cash_position fx)
           (filter (\<lambda>v. ac_account_id v \<notin> set with_cash \<and> ac_amount v \<noteq> 0)
             (account_cash_values live api)))"

section \<open>All positions\<close>

fun build_positions ::
    "bool \<Rightarrow> IbApi \<Rightarrow> instant \<Rightarrow> rate_lookup \<Rightarrow> (int, fl) dict \<Rightarrow> (int, fl) dict \<Rightarrow>
       (int, PortfolioItem) dict \<Rightarrow> (int, bool) dict \<Rightarrow> IbCaches \<times> Store option \<Rightarrow>
       VendorPosition list \<Rightarrow> (IbCaches \<times> Store option) \<times> Position list result" where
  "build_positions live api now fx last_prices previous_closes items delayed ks [] = (ks, Inr [])"
| "build_positions live api now fx last_prices previous_closes items delayed ks (vp # vps) =
     (case resolve_name live api now ks (vp_contract vp) of
        (ks1, Inl e) \<Rightarrow> (ks1, Inl e)
      | (ks1, Inr resolved) \<Rightarrow>
          (case build_position fx resolved last_prices previous_closes items delayed vp of
             Inl e \<Rightarrow> (ks1, Inl e)
           | Inr built \<Rightarrow>
               (case build_positions live api now fx last_prices previous_closes items delayed ks1 vps of
                  (ks2, Inl e) \<Rightarrow> (ks2, Inl e)
                | (ks2, Inr rest) \<Rightarrow>
                    (ks2, Inr ((case built of None \<Rightarrow> [] | Some p \<Rightarrow> [p]) @ rest)))))"

text \<open>The quotes of the stocks whose exchange does not need a subscription.\<close>

definition quote_stocks ::
    "IbApi \<Rightarrow> (int, string) dict \<Rightarrow> Contract list \<Rightarrow> ((int, fl) dict \<times> (int, bool) dict) result" where
  "quote_stocks api listing cs =
     (let quoted = filter (\<lambda>c. \<not> is_permission_gated (map_of listing (ct_con_id c))) cs
      in if quoted = [] then Inr ([], [])
         else rbind (api_tickers api quoted) (\<lambda>tickers.
              rbind (rmap_list (\<lambda>(c, t). rbind (ticker_is_delayed t) (\<lambda>d. Inr (ct_con_id c, d)))
                       (zip quoted tickers)) (\<lambda>delayed.
                Inr (dict_of (map (\<lambda>(c, t). (ct_con_id c, coerce_last t)) (zip quoted tickers)),
                     dict_of delayed))))"

text \<open>The currencies the call asks the FX service to subscribe; a failure of that is logged.\<close>

definition needed_currencies :: "VendorPosition list \<Rightarrow> string list" where
  "needed_currencies vps =
     filter (\<lambda>c. c \<noteq> ''USD'') (remdups (map (ct_currency \<circ> vp_contract)
       (filter (\<lambda>vp. ct_sec_type (vp_contract vp) \<in> {''STK'', ''CASH''}) vps)))"

definition get_positions_ibkr ::
    "bool \<Rightarrow> IbApi \<Rightarrow> instant \<Rightarrow> rate_lookup \<Rightarrow> IbCaches \<times> Store option \<Rightarrow>
       (IbCaches \<times> Store option) \<times> Position list result" where
  "get_positions_ibkr live api now fx ks =
     (if \<not> live then (ks, Inr [])
      else (case api_positions api of
        Inl e \<Rightarrow> (ks, Inl e)
      | Inr vps \<Rightarrow>
          (let stocks = filter (\<lambda>vp. ct_sec_type (vp_contract vp) = ''STK'') vps;
               cash = filter (\<lambda>vp. ct_sec_type (vp_contract vp) = ''CASH'') vps;
               contracts = map vp_contract stocks
           in if stocks = [] \<and> cash = [] then (ks, missing_account_cash_positions live api fx [])
              else (case (if stocks = [] then (fst ks, Inr ([], [], []))
                          else (case listing_exchanges_for_contracts live api (fst ks) contracts of
                            (k1, listing) \<Rightarrow>
                              (case quote_stocks api listing contracts of
                                 Inl e \<Rightarrow> (k1, Inl e)
                               | Inr (last_prices, delayed) \<Rightarrow>
                                   (case fetch_previous_closes_cached api (now div day_us) listing k1 contracts of
                                      (k2, closes) \<Rightarrow> (k2, Inr (last_prices, delayed, closes)))))) of
                (k, Inl e) \<Rightarrow> ((k, snd ks), Inl e)
              | (k, Inr (last_prices, delayed, closes)) \<Rightarrow>
                  (case build_positions live api now fx last_prices closes
                          (portfolio_items_by_conid live api) delayed (k, snd ks) stocks of
                     (ks1, built) \<Rightarrow>
                       (ks1, rbind built (\<lambda>rows.
                             rbind (rmap_list (build_cash_position fx) cash) (\<lambda>cash_rows.
                             rbind (missing_account_cash_positions live api fx (rows @ cash_rows)) (\<lambda>extra.
                               Inr (rows @ cash_rows @ extra)))))))))) "

section \<open>Account summary\<close>

definition ibkr_to_usd :: "rate_lookup \<Rightarrow> fl \<Rightarrow> string \<Rightarrow> fl result" where
  "ibkr_to_usd fx amount c =
     (if c = ''USD'' then Inr amount
      else (case fx of
        None \<Rightarrow> Inr 0
      | Some get_rate \<Rightarrow>
          (case get_rate c of
             Inl (ValueError m) \<Rightarrow> Inr 0
           | Inl e \<Rightarrow> Inl e
           | Inr None \<Rightarrow> Inr 0
           | Inr (Some r) \<Rightarrow> Inr (amount * r_rate r))))"

definition account_summary_of ::
    "rate_lookup \<Rightarrow> (string \<times> string, string \<times> string) dict \<Rightarrow> string \<Rightarrow> AccountSummary result" where
  "account_summary_of fx by_tag a =
     (let tag = (\<lambda>t. case map_of by_tag (a, t) of Some v \<Rightarrow> v | None \<Rightarrow> (''0'', ''USD''));
          native = (\<lambda>t. safe_float (VStr (fst (tag t))));
          usd = (\<lambda>t. ibkr_to_usd fx (native t) (snd (tag t)))
      in rbind (usd ''NetLiquidation'') (\<lambda>nlv. rbind (usd ''TotalCashValue'') (\<lambda>cash.
         rbind (usd ''BuyingPower'') (\<lambda>bp. rbind (usd ''GrossPositionValue'') (\<lambda>gpv.
           Inr \<lparr>as_broker = ''IBKR'', as_account_id = a, base_currency = snd (tag ''NetLiquidation''),
             net_liquidation_usd = nlv, cash_usd = cash, buying_power_usd = bp,
             net_liquidation_native = native ''NetLiquidation'', gross_position_value_usd = gpv\<rparr>)))))"

definition get_account_summary_ibkr ::
    "bool \<Rightarrow> IbApi \<Rightarrow> rate_lookup \<Rightarrow> AccountSummary list result" where
  "get_account_summary_ibkr live api fx =
     (if \<not> live then Inr []
      else (let rows = (case api_summary api of Some (Inr rs) \<Rightarrow> rs | _ \<Rightarrow> []);
                by_tag = dict_of (map (\<lambda>r. ((sr_account r, sr_tag r),
                  (sr_value r, if sr_currency r = [] then ''USD'' else sr_currency r))) rows)
            in rmap_list (account_summary_of fx by_tag)
                 (order_by text_le (remdups (note_accounts (managed_accounts api) rows)))))"

section \<open>Lemmas\<close>

lemma primary_exchange_suffix:
  assumes "canonical_symbol_of n e = Inr c"
  shows "\<exists>e' s. primary_exchange_from_canonical c = Some e' \<and> map_of IB_EXCHANGE_TO_SUFFIX e = Some s
    \<and> map_of IB_EXCHANGE_TO_SUFFIX e' = Some s \<and> c = n @ dot # s"
proof -
  obtain s where s: "map_of IB_EXCHANGE_TO_SUFFIX e = Some s" "split_last dot c = Some (n, s)" "c = n @ dot # s"
    using canonical_symbol_split [OF assms] assms by (auto simp: canonical_symbol_of_Inr_iff)
  have "(e, s) \<in> set IB_EXCHANGE_TO_SUFFIX" using s(1) by (rule map_of_SomeD)
  then have "find (\<lambda>(code, s'). s' = s) IB_EXCHANGE_TO_SUFFIX \<noteq> None"
    by (auto simp: find_None_iff)
  then obtain e' s' where f: "find (\<lambda>(code, s'). s' = s) IB_EXCHANGE_TO_SUFFIX = Some (e', s')" by fastforce
  then have "(e', s') \<in> set IB_EXCHANGE_TO_SUFFIX" "s' = s"
    by (auto simp: find_Some_iff dest: nth_mem)
  then have "map_of IB_EXCHANGE_TO_SUFFIX e' = Some s"
    using dict_wf_map_of_mem [OF suffix_table_wf] by blast
  with s f show ?thesis by (auto simp: primary_exchange_from_canonical_def)
qed

text \<open>What is fetched is a canonical symbol of the contract on a known exchange.\<close>

lemma fetched_symbol:
  assumes "fetch_contract_details live api k (Some c) = (k1, Inr (Some (canonical, name, m)))"
  shows "\<exists>e. canonical_symbol_of (ct_symbol c) e = Inr canonical"
  using assms
  by (auto simp: fetch_contract_details_def rbind_Inr_iff split: bool.splits prod.splits sum.splits option.splits)

lemma names_answer:
  "resolve get put s t (Inr None) b k = (case get s t b k of Some v \<Rightarrow> (s, Inr (Some v)) | None \<Rightarrow> (s, Inr None))"
  by (simp add: resolve_def split: option.splits)

lemma resolve_name_cached:
  assumes "get_name_cache st t ''IBKR'' (py_str_int (ct_con_id c)) = Some entry"
  shows "resolve_name live api t (k, Some st) c = ((k, Some st), Inr (with_exchange entry))"
  using assms by (simp add: resolve_name_def names_answer Let_def)

lemma resolve_name_fresh:
  assumes "get_name_cache st t ''IBKR'' (py_str_int (ct_con_id c)) = None"
    and "resolve_name live api t (k, Some st) c = ((k1, Some st1), Inr (Some r))"
  shows "\<exists>entry. st1 = put_name_cache st t ''IBKR'' (py_str_int (ct_con_id c)) entry
    \<and> with_exchange entry = Some r \<and> fetch_contract_details live api k (Some c) = (k1, Inr (Some entry))"
  using assms
  by (auto simp: resolve_name_def names_answer Let_def split: prod.splits sum.splits option.splits)

lemma close_cache_simps:
  "cached_close (k\<lparr>miss_cache := m\<rparr>) today cid = cached_close k today cid"
  by (simp add: cached_close_def)

lemma map_of_map_today:
  "map_of (map (\<lambda>(cid, v). (cid, today, v)) kvs) cid = map_option (Pair today) (map_of kvs cid)"
  by (induction kvs) auto

lemma note_accounts_set:
  "set (note_accounts as rows) = set as \<union> (sr_account ` set rows - {[]})"
  unfolding note_accounts_def
  by (induction rows arbitrary: as) auto

lemma account_summary_id: "account_summary_of fx by_tag a = Inr s \<Longrightarrow> as_account_id s = a"
  by (auto simp: account_summary_of_def Let_def rbind_Inr_iff)

lemma distinct_concat_options:
  assumes "distinct as" "\<And>a v. f a = Some v \<Longrightarrow> g v = a"
  shows "distinct (map g (concat (map (\<lambda>a. case f a of None \<Rightarrow> [] | Some v \<Rightarrow> [v]) as)))"
  using assms(1)
proof (induction as)
  case (Cons a as)
  have "a \<notin> g ` set (concat (map (\<lambda>a. case f a of None \<Rightarrow> [] | Some v \<Rightarrow> [v]) as))"
    using Cons.prems assms(2) by (fastforce split: option.splits)
  with Cons show ?case using assms(2) by (auto split: option.splits)
qed simp

lemma note_accounts_distinct: "distinct as \<Longrightarrow> distinct (note_accounts as rows)"
  unfolding note_accounts_def by (induction rows arbitrary: as) auto

lemma map_of_by_account:
  assumes "\<And>r. g (mk r) = sr_account r" "map_of (dict_of (map (\<lambda>r. (sr_account r, mk r)) rs)) a = Some v"
  shows "g v = a"
proof -
  have "(a, v) \<in> set (rev (map (\<lambda>r. (sr_account r, mk r)) rs))"
    using assms(2) unfolding map_of_dict_of by (rule map_of_SomeD)
  then show ?thesis using assms(1) by auto
qed

lemma account_cash_ids:
  assumes "distinct (managed_accounts api)"
  shows "distinct (map ac_account_id (account_cash_values live api))"
proof (cases "live \<and> (\<exists>rows. api_summary api = Some (Inr rows))")
  case True
  then obtain rows where r: "live = True" "api_summary api = Some (Inr rows)" by auto
  show ?thesis
    unfolding account_cash_values_def r prod.case option.case sum.case bool.case Let_def
    by (rule distinct_concat_options [OF note_accounts_distinct [OF assms]])
      (erule map_of_by_account [rotated], simp)
next
  case False
  then have "account_cash_values live api = []"
    by (cases live; cases "api_summary api")
      (auto simp: account_cash_values_def split: sum.splits)
  then show ?thesis by simp
qed

text \<open>The fields of a built row, with the choice of its price left folded.\<close>

lemma build_position_fields:
  assumes "build_position fx resolved last_prices closes items delayed vp = Inr (Some p)"
    and live: "live = or_else (map_of last_prices (ct_con_id (vp_contract vp))) 0"
    and mark: "mark = portfolio_display_price (map_of items (ct_con_id (vp_contract vp)))
      (price_magnifier p) (vp_position vp)"
  shows "quantity p = vp_position vp
    \<and> (last_price p, last_price_is_broker_mark p, last_price_is_previous_close p, last_price_is_delayed p)
      = choose_price live (map_of delayed (ct_con_id (vp_contract vp)) = Some True) mark (previous_close p)
    \<and> (\<not> live \<le> 0 \<longrightarrow>
        py_div (quantity p * last_price p) (fl_of_int (price_magnifier p)) = Inr (market_value_native p))"
proof -
  obtain canonical name e m where r: "resolved = Some (canonical, name, e, m)"
    using assms(1) by (cases resolved) (auto simp: build_position_def)
  obtain price is_mark is_prev is_delayed where c:
    "choose_price live (map_of delayed (ct_con_id (vp_contract vp)) = Some True)
       (portfolio_display_price (map_of items (ct_con_id (vp_contract vp))) m (vp_position vp))
       (or_else (map_of closes (ct_con_id (vp_contract vp))) 0) = (price, is_mark, is_prev, is_delayed)"
    by (metis prod_cases4)
  note b = assms(1) [unfolded build_position_def r option.case prod.case Let_def c [unfolded live]]
  have m: "price_magnifier p = m"
    and fields: "quantity p = vp_position vp" "last_price p = price" "last_price_is_broker_mark p = is_mark"
      "last_price_is_previous_close p = is_prev" "last_price_is_delayed p = is_delayed"
      "previous_close p = or_else (map_of closes (ct_con_id (vp_contract vp))) 0"
    using b by (auto simp: rbind_Inr_iff)
  have "\<not> live \<le> 0 \<Longrightarrow> py_div (quantity p * last_price p) (fl_of_int m) = Inr (market_value_native p)"
    using b unfolding fields live by (auto simp: rbind_Inr_iff split: option.splits)
  with c show ?thesis unfolding mark m fields by simp
qed

text \<open>Lookups in the dictionaries a loop over contracts builds.\<close>

lemma map_of_rev_wf: "dict_wf d \<Longrightarrow> map_of (rev d) = map_of d"
  by (metis dict_of_distinct map_of_dict_of dict_wf_def)

lemma map_of_lookup_loop:
  "map_of (dict_of (concat (map (\<lambda>c. case f (g c) of None \<Rightarrow> [] | Some v \<Rightarrow> [(g c, v)]) cs))) x
     = (if x \<in> g ` set cs then f x else None)"
proof (induction cs rule: rev_induct)
  case (snoc c cs)
  then show ?case
    by (cases "f (g c)") (auto simp: dict_of_def dict_update_append dict_simps)
qed (simp add: dict_of_def)

lemma map_of_filter_keys: "map_of (filter (\<lambda>(i, v). P i) d) x = (if P x then map_of d x else None)"
  by (induction d) auto

lemma set_AList_update: "set (AList.update k v d) \<subseteq> insert (k, v) (set d)"
  by (induction d) auto

lemma set_dict_update: "set (dict_update d kvs) \<subseteq> set d \<union> set kvs"
  by (induction d kvs rule: dict_update.induct) (use set_AList_update in fastforce)+

lemma list_all_dict_update: "list_all P d \<Longrightarrow> list_all P kvs \<Longrightarrow> list_all P (dict_update d kvs)"
  using set_dict_update [of d kvs] by (auto simp: list_all_iff)

lemma fresh_closes_positive: "list_all (\<lambda>(cid, v). 0 < v) (fetch_previous_closes api listing cs)"
  unfolding fetch_previous_closes_def dict_of_def
  by (rule list_all_dict_update) (auto simp: list_all_iff split: option.splits if_splits)

lemma fresh_closes_wf: "dict_wf (fetch_previous_closes api listing cs)"
  by (simp add: fetch_previous_closes_def)

lemma fresh_closes_keys:
  "map_of (fetch_previous_closes api listing cs) cid = Some v \<Longrightarrow> cid \<in> ct_con_id ` set cs"
proof -
  assume "map_of (fetch_previous_closes api listing cs) cid = Some v"
  then have "(cid, v) \<in> set (fetch_previous_closes api listing cs)" by (rule map_of_SomeD)
  then show ?thesis
    using set_dict_update [of "[]"] unfolding fetch_previous_closes_def dict_of_def
    by (fastforce split: option.splits if_splits)
qed

text \<open>The caches after a call that had something to ask.\<close>

lemma caches_after:
  assumes "close_misses k today cs \<noteq> []"
    and "fetch_previous_closes_cached api today listing k cs = (k1, out)"
    and fresh: "fresh = fetch_previous_closes api listing (close_misses k today cs)"
  shows "cached_close k1 today cid = (case map_of fresh cid of Some v \<Rightarrow> Some v | None \<Rightarrow> cached_close k today cid)"
    and "map_of (miss_cache k1) cid =
      (if map_of fresh cid \<noteq> None then None
       else if cid \<in> ct_con_id ` set (close_misses k today cs) then Some today else map_of (miss_cache k) cid)"
    and "map_of out cid = (case map_of fresh cid of Some v \<Rightarrow> Some v
       | None \<Rightarrow> if cid \<in> ct_con_id ` set cs then cached_close k today cid else None)"
proof -
  note eq = assms(2) [unfolded fetch_previous_closes_cached_def Let_def fresh [symmetric], symmetric]
  have wf: "map_of (rev fresh) = map_of fresh" by (simp add: fresh map_of_rev_wf fresh_closes_wf)
  show "cached_close k1 today cid = (case map_of fresh cid of Some v \<Rightarrow> Some v | None \<Rightarrow> cached_close k today cid)"
    using eq assms(1)
    by (auto simp: cached_close_def map_of_dict_update rev_map map_of_map_today wf map_add_def
        split: option.splits)
  show "map_of (miss_cache k1) cid =
      (if map_of fresh cid \<noteq> None then None
       else if cid \<in> ct_con_id ` set (close_misses k today cs) then Some today else map_of (miss_cache k) cid)"
  proof -
    let ?un = "filter (\<lambda>c. map_of fresh (ct_con_id c) = None) (close_misses k today cs)"
    have m: "map_of (rev (map (\<lambda>c. (ct_con_id c, today)) cs')) cid
        = (if cid \<in> ct_con_id ` set cs' then Some today else None)" for cs'
      by (induction cs' rule: rev_induct) auto
    have "miss_cache k1 = dict_update (filter (\<lambda>(cid, d). map_of fresh cid = None) (miss_cache k))
        (map (\<lambda>c. (ct_con_id c, today)) ?un)"
      using eq assms(1) by simp
    then show ?thesis
      by (auto simp: map_of_dict_update m map_add_def map_of_filter_keys)
  qed
  show "map_of out cid = (case map_of fresh cid of Some v \<Rightarrow> Some v
       | None \<Rightarrow> if cid \<in> ct_con_id ` set cs then cached_close k today cid else None)"
    using eq assms(1)
    by (auto simp: map_of_dict_update wf map_add_def map_of_lookup_loop split: option.splits)
qed

lemma closes_hit:
  assumes "close_misses k today cs = []"
  shows "fst (fetch_previous_closes_cached api today listing k cs) = k"
    and "map_of (snd (fetch_previous_closes_cached api today listing k cs)) cid
      = (if cid \<in> ct_con_id ` set cs then cached_close k today cid else None)"
  using assms by (simp_all add: fetch_previous_closes_cached_def Let_def map_of_lookup_loop)

text \<open>A contract is settled once the day's caches know its close, or that there is none.\<close>

definition settled :: "IbCaches \<Rightarrow> int \<Rightarrow> int \<Rightarrow> bool" where
  "settled k today cid = (cached_close k today cid \<noteq> None \<or> map_of (miss_cache k) cid = Some today)"

definition positive_closes :: "IbCaches \<Rightarrow> bool" where
  "positive_closes k = list_all (\<lambda>(cid, d, v). 0 < v) (close_cache k)"

lemma misses_unsettled: "c \<in> set (close_misses k today cs) \<longleftrightarrow> c \<in> set cs \<and> \<not> settled k today (ct_con_id c)"
  by (auto simp: close_misses_def settled_def)

lemma settled_not_fresh:
  assumes "settled k today cid"
  shows "map_of (fetch_previous_closes api listing (close_misses k today cs)) cid = None"
  using assms fresh_closes_keys [of api listing "close_misses k today cs" cid]
  by (cases "map_of (fetch_previous_closes api listing (close_misses k today cs)) cid") (auto simp: misses_unsettled)

text \<open>What one call does to the caches of the day, whatever it is asked for.\<close>

lemma call_settles:
  assumes "fetch_previous_closes_cached api today listing k cs = (k1, out)"
  shows "settled k1 today cid \<longleftrightarrow> settled k today cid \<or> cid \<in> ct_con_id ` set cs"
    and "settled k today cid \<Longrightarrow> cached_close k1 today cid = cached_close k today cid"
    and "map_of out cid = (if cid \<in> ct_con_id ` set cs then cached_close k1 today cid else None)"
    and "positive_closes k \<Longrightarrow> positive_closes k1"
proof -
  let ?misses = "close_misses k today cs"
  let ?fresh = "fetch_previous_closes api listing ?misses"
  have all: "(settled k1 today cid \<longleftrightarrow> settled k today cid \<or> cid \<in> ct_con_id ` set cs)
    \<and> (settled k today cid \<longrightarrow> cached_close k1 today cid = cached_close k today cid)
    \<and> map_of out cid = (if cid \<in> ct_con_id ` set cs then cached_close k1 today cid else None)
    \<and> (positive_closes k \<longrightarrow> positive_closes k1)"
  proof (cases "?misses = []")
    case True
    have "k1 = k" "map_of out cid = (if cid \<in> ct_con_id ` set cs then cached_close k today cid else None)"
      using closes_hit [OF True, of api listing] assms by simp_all
    moreover have "settled k today (ct_con_id c)" if "c \<in> set cs" for c
      using misses_unsettled [of c k today cs] that True by simp
    ultimately show ?thesis by auto
  next
    case False
    note after = caches_after [OF False assms refl]
    have keys: "map_of ?fresh cid = Some v \<Longrightarrow> cid \<in> ct_con_id ` set cs" for v
      using fresh_closes_keys [of api listing ?misses cid v] by (auto simp: misses_unsettled)
    have asked: "cid \<in> ct_con_id ` set ?misses \<longleftrightarrow> cid \<in> ct_con_id ` set cs \<and> \<not> settled k today cid"
      by (auto simp: misses_unsettled)
    have "close_cache k1 = dict_update (close_cache k) (map (\<lambda>(cid, v). (cid, today, v)) ?fresh)"
      using assms False by (auto simp: fetch_previous_closes_cached_def Let_def)
    moreover have "list_all (\<lambda>(cid, d, v). 0 < v) (map (\<lambda>(cid, v). (cid, today, v)) ?fresh)"
      using fresh_closes_positive [of api listing ?misses] by (auto simp: list_all_iff)
    ultimately have "positive_closes k \<longrightarrow> positive_closes k1"
      by (simp add: positive_closes_def list_all_dict_update)
    moreover have "settled k1 today cid \<longleftrightarrow> settled k today cid \<or> cid \<in> ct_con_id ` set cs"
      using keys by (auto simp: settled_def [of k1] after asked split: option.splits) (auto simp: settled_def)
    moreover have "settled k today cid \<longrightarrow> cached_close k1 today cid = cached_close k today cid"
      using settled_not_fresh [of k today cid api listing cs] by (simp add: after(1))
    moreover have "map_of out cid = (if cid \<in> ct_con_id ` set cs then cached_close k1 today cid else None)"
      using keys by (auto simp: after(1,3) split: option.splits)
    ultimately show ?thesis by blast
  qed
  from all show "settled k1 today cid \<longleftrightarrow> settled k today cid \<or> cid \<in> ct_con_id ` set cs"
    and "settled k today cid \<Longrightarrow> cached_close k1 today cid = cached_close k today cid"
    and "map_of out cid = (if cid \<in> ct_con_id ` set cs then cached_close k1 today cid else None)"
    and "positive_closes k \<Longrightarrow> positive_closes k1" by blast+
qed

text \<open>The calls of a day, one after another, with what each is asked for and what the sources would answer.\<close>

definition later_calls :: "int \<Rightarrow> IbCaches \<Rightarrow> (IbApi \<times> (int, string) dict \<times> Contract list) list \<Rightarrow> IbCaches" where
  "later_calls today k calls =
     foldl (\<lambda>k (api, listing, cs). fst (fetch_previous_closes_cached api today listing k cs)) k calls"

lemma later_calls_keep:
  assumes "settled k today cid"
  shows "settled (later_calls today k calls) today cid
    \<and> cached_close (later_calls today k calls) today cid = cached_close k today cid"
  using assms unfolding later_calls_def
proof (induction calls arbitrary: k)
  case (Cons call calls)
  obtain api listing cs where call: "call = (api, listing, cs)" by (cases call)
  obtain k1 out where r: "fetch_previous_closes_cached api today listing k cs = (k1, out)" by fastforce
  with call_settles(1,2) [OF r, of cid] Cons show ?case by (simp add: call)
qed simp

lemma later_calls_positive: "positive_closes k \<Longrightarrow> positive_closes (later_calls today k calls)"
  unfolding later_calls_def
proof (induction calls arbitrary: k)
  case (Cons call calls)
  obtain api listing cs where call: "call = (api, listing, cs)" by (cases call)
  obtain k1 out where r: "fetch_previous_closes_cached api today listing k cs = (k1, out)" by fastforce
  with call_settles(4) [OF r] Cons show ?case by (simp add: call)
qed simp

section \<open>Properties\<close>

text \<open>C3. Every IBKR row says truthfully where its price comes from. With a live quote the row shows
  it, carries neither the broker-mark nor the previous-close flag, and values the position at it;
  without one it shows the account portfolio's mark under the mark flag, else the previous close
  under its flag, for which no day change is shown; and the flags never occur together.\<close>
theorem ibkr_row_price_source:
  assumes "build_position fx resolved last_prices closes items delayed vp = Inr (Some p)"
    and live: "live = or_else (map_of last_prices (ct_con_id (vp_contract vp))) 0"
    and mark: "mark = portfolio_display_price (map_of items (ct_con_id (vp_contract vp)))
      (price_magnifier p) (vp_position vp)"
  shows "quantity p = vp_position vp
    \<and> (\<not> live \<le> 0 \<longrightarrow> last_price p = live \<and> \<not> last_price_is_broker_mark p \<and> \<not> last_price_is_previous_close p
         \<and> py_div (quantity p * live) (fl_of_int (price_magnifier p)) = Inr (market_value_native p))
    \<and> (live \<le> 0 \<longrightarrow> last_price_is_broker_mark p = (mark \<noteq> None)
         \<and> (\<forall>v. mark = Some v \<longrightarrow> last_price p = v)
         \<and> last_price_is_previous_close p = (mark = None \<and> 0 < previous_close p)
         \<and> (last_price_is_previous_close p \<longrightarrow> last_price p = previous_close p \<and> intraday_change_pct p = None))
    \<and> \<not> (last_price_is_broker_mark p \<and> last_price_is_previous_close p)
    \<and> (last_price_is_delayed p \<longrightarrow> \<not> last_price_is_broker_mark p \<and> \<not> last_price_is_previous_close p)"
  using build_position_fields [OF assms]
  by (cases "live \<le> 0"; cases mark) (auto simp: choose_price_def intraday_change_pct_def split: if_splits)

definition demo_contract :: Contract where
  "demo_contract = \<lparr>ct_con_id = 7, ct_symbol = ''BP'', ct_currency = ''USD'', ct_sec_type = ''STK'',
     ct_primary_exchange = Some ''LSE'', ct_exchange = Some ''SMART''\<rparr>"

definition demo_position :: VendorPosition where
  "demo_position = \<lparr>vp_account = ''U1'', vp_contract = demo_contract, vp_position = 300, vp_avg_cost = 400\<rparr>"

lemma demo_built:
  "\<exists>p. build_position None (Some (''BP.UK'', ''BP'', ''LSE'', 100)) [] [(7, 500)] [] [] demo_position = Inr (Some p)
     \<and> previous_close p = 500 \<and> price_magnifier p = 100"
  by (simp add: build_position_def demo_position_def demo_contract_def or_else_def choose_price_def fl_simps
      portfolio_display_price_def portfolio_average_cost_def portfolio_market_value_def
      portfolio_unrealized_pnl_def convert_to_usd_def Let_def)

theorem ibkr_row_price_source_witness:
  "\<exists>p. build_position None (Some (''BP.UK'', ''BP'', ''LSE'', 100)) [] [(7, 500)] [] [] demo_position = Inr (Some p)
     \<and> last_price p = 500 \<and> last_price_is_previous_close p \<and> \<not> last_price_is_broker_mark p"
proof -
  obtain p where p: "build_position None (Some (''BP.UK'', ''BP'', ''LSE'', 100)) [] [(7, 500)] [] [] demo_position = Inr (Some p)"
    "previous_close p = 500" "price_magnifier p = 100"
    using demo_built by blast
  have prev: "(0::fl) \<le> 0" "(0::fl) < previous_close p" by (simp_all add: p(2) fl_simps)
  from ibkr_row_price_source [OF p(1) refl refl] prev p show ?thesis
    by (auto simp: or_else_def portfolio_display_price_def)
qed

text \<open>A name once resolved stays: for thirty days the cache gives back the same symbol, name,
  exchange and price magnifier as the first answer, whatever IB answers by then and whether it is
  connected or not; and the exchange shown has the country suffix the symbol was built with.\<close>
theorem ibkr_name_stable:
  assumes "get_name_cache st t0 ''IBKR'' (py_str_int (ct_con_id c)) = None"
    and "resolve_name live api t0 (k, Some st) c = ((k1, Some st1), Inr (Some (canonical, name, e, m)))"
    and "cache_clock_ok t0" "cache_clock_ok t" "t \<le> t0 + days NAME_CACHE_TTL_DAYS"
  shows "resolve_name live' api' t (k', Some st1) c = ((k', Some st1), Inr (Some (canonical, name, e, m)))
    \<and> (\<exists>s. map_of IB_EXCHANGE_TO_SUFFIX e = Some s \<and> canonical = ct_symbol c @ dot # s)"
proof -
  obtain entry where entry: "st1 = put_name_cache st t0 ''IBKR'' (py_str_int (ct_con_id c)) entry"
    "with_exchange entry = Some (canonical, name, e, m)"
    "fetch_contract_details live api k (Some c) = (k1, Inr (Some entry))"
    using resolve_name_fresh [OF assms(1,2)] by blast
  have "get_name_cache st1 t ''IBKR'' (py_str_int (ct_con_id c)) = Some entry"
    using assms(5) unfolding entry(1) by (simp add: names.get_put [OF assms(3,4)])
  from resolve_name_cached [OF this]
  have "resolve_name live' api' t (k', Some st1) c = ((k', Some st1), Inr (Some (canonical, name, e, m)))"
    by (simp add: entry(2))
  moreover obtain n where n: "entry = (canonical, n, m)" "primary_exchange_from_canonical canonical = Some e"
    using entry(2) by (cases entry) (auto simp: with_exchange_def)
  obtain e0 where "canonical_symbol_of (ct_symbol c) e0 = Inr canonical"
    using fetched_symbol entry(3) n(1) by blast
  from primary_exchange_suffix [OF this] n(2)
  have "\<exists>s. map_of IB_EXCHANGE_TO_SUFFIX e = Some s \<and> canonical = ct_symbol c @ dot # s" by auto
  ultimately show ?thesis by blast
qed

text \<open>C33. A call asks for the previous closes of its contracts, and no later call of the same UTC day asks for
  any of them again, whether the answer was a close or none: after any calls in between, one after
  another and whatever each is asked for, a call asks at most for contracts that were not in the first
  one, gives the closes of the first one for those that were, and leaves the caches alone when there is
  nothing new; every close given is positive. Within one call nothing is shared: each listing of a
  contract that is not known yet is asked for.\<close>
theorem previous_close_once_per_day:
  assumes "fetch_previous_closes_cached api today listing k cs = (k1, out)" "positive_closes k"
    and "k2 = later_calls today k1 calls"
    and "fetch_previous_closes_cached api' today listing' k2 cs' = (k3, out')"
  shows "close_misses k today cs = filter (\<lambda>c. \<not> settled k today (ct_con_id c)) cs
    \<and> ct_con_id ` set (close_misses k2 today cs') \<inter> ct_con_id ` set cs = {}
    \<and> (\<forall>cid \<in> ct_con_id ` set cs \<inter> ct_con_id ` set cs'. map_of out' cid = map_of out cid)
    \<and> (ct_con_id ` set cs' \<subseteq> ct_con_id ` set cs \<longrightarrow> close_misses k2 today cs' = [] \<and> k3 = k2)
    \<and> (\<forall>cid v. map_of out cid = Some v \<or> map_of out' cid = Some v \<longrightarrow> 0 < v)"
proof -
  have first: "settled k1 today cid" if "cid \<in> ct_con_id ` set cs" for cid
    using that call_settles(1) [OF assms(1), of cid] by simp
  then have kept: "settled k2 today cid \<and> cached_close k2 today cid = cached_close k1 today cid"
    if "cid \<in> ct_con_id ` set cs" for cid
    using that later_calls_keep [of k1 today cid calls] assms(3) by simp
  have "ct_con_id ` set (close_misses k2 today cs') \<inter> ct_con_id ` set cs = {}"
    using kept by (auto simp: misses_unsettled)
  moreover have "map_of out' cid = map_of out cid" if "cid \<in> ct_con_id ` set cs \<inter> ct_con_id ` set cs'" for cid
    using that kept [of cid] call_settles(2,3) [OF assms(4), of cid] call_settles(3) [OF assms(1), of cid] by simp
  moreover have "close_misses k2 today cs' = [] \<and> k3 = k2" if sub: "ct_con_id ` set cs' \<subseteq> ct_con_id ` set cs"
  proof -
    have "c \<notin> set (close_misses k2 today cs')" for c
      using kept [of "ct_con_id c"] sub by (auto simp: misses_unsettled)
    then have none: "close_misses k2 today cs' = []" by (meson last_in_set)
    with closes_hit(1) [OF none, of api' listing'] assms(4) show ?thesis by simp
  qed
  moreover have pos: "positive_closes k1" "positive_closes k3"
    using call_settles(4) [OF assms(1,2)] call_settles(4) [OF assms(4)] later_calls_positive [of k1 today calls] assms(3)
    by simp_all
  have "0 < v" if "map_of out cid = Some v \<or> map_of out' cid = Some v" for cid v
    using that pos call_settles(3) [OF assms(1), of cid] call_settles(3) [OF assms(4), of cid]
    by (auto simp: positive_closes_def cached_close_def list_all_iff split: option.splits if_splits dest!: map_of_SomeD)
  moreover have "close_misses k today cs = filter (\<lambda>c. \<not> settled k today (ct_con_id c)) cs"
    by (simp add: close_misses_def settled_def)
  ultimately show ?thesis by blast
qed

definition no_api :: IbApi where
  "no_api = \<lparr>api_positions = Inr [], api_details = (\<lambda>c. Inr []), api_tickers = (\<lambda>cs. Inr []),
     api_portfolio = None, api_managed = None, api_summary = None, api_historical = None, api_yahoo = None\<rparr>"

definition no_caches :: IbCaches where
  "no_caches = \<lparr>details_cache = [], listing_cache = [], close_cache = [], miss_cache = []\<rparr>"

theorem ibkr_name_stable_witness:
  "\<exists>st1. resolve_name False no_api (days 700030) (no_caches, Some st1) demo_contract
     = ((no_caches, Some st1), Inr (Some (''BP.UK'', ''BP PLC'', ''LSE'', 100)))"
proof -
  define api where "api = no_api\<lparr>api_details := (\<lambda>c. Inr [\<lparr>cd_primary_exchange = Some ''LSE'', cd_exchange = None,
     cd_long_name = Some ''BP PLC'', cd_price_magnifier = VInt 100\<rparr>])\<rparr>"
  have c: "canonical_symbol_of ''BP'' ''LSE'' = Inr ''BP.UK''" "primary_exchange_from_canonical ''BP.UK'' = Some ''LSE''"
    "py_strip ''BP PLC'' = ''BP PLC''" "first_known_listing_exchange (Some ''LSE'') None (Some ''LSE'') (Some ''SMART'') = Some ''LSE''"
    by code_simp+
  have none: "get_name_cache empty_store (days 700000) ''IBKR'' (py_str_int (ct_con_id demo_contract)) = None"
    by (simp add: get_name_cache_def empty_store_def)
  obtain k1 st1 where r: "resolve_name True api (days 700000) (no_caches, Some empty_store) demo_contract
      = ((k1, Some st1), Inr (Some (''BP.UK'', ''BP PLC'', ''LSE'', 100)))"
    using c none by (simp add: resolve_name_def resolve_def fetch_contract_details_def contract_details_for_contract_def
       api_def no_api_def no_caches_def with_exchange_def demo_contract_def Let_def)
  have ok: "cache_clock_ok (days 700000)" "cache_clock_ok (days 700030)" "days 700030 \<le> days 700000 + days NAME_CACHE_TTL_DAYS"
    by (simp_all add: cache_clock_ok_def max_instant_def days_def day_us_def NAME_CACHE_TTL_DAYS_def)
  from ibkr_name_stable [OF none r ok, of False no_api no_caches, THEN conjunct1] show ?thesis by blast
qed

definition yahoo_api :: "fl \<Rightarrow> IbApi" where
  "yahoo_api v = no_api\<lparr>api_yahoo := Some (\<lambda>s. Inr (Some v))\<rparr>"

lemma demo_close: "cached_close (fst (fetch_previous_closes_cached (yahoo_api 412) 9 [] no_caches [demo_contract])) 9 7 = Some 412"
  by code_simp

text \<open>The first answer of the day, 412, is the one a later call gives, though the source says 500 by then.\<close>
theorem previous_close_once_per_day_witness:
  "map_of (snd (fetch_previous_closes_cached (yahoo_api 500) 9 []
     (fst (fetch_previous_closes_cached (yahoo_api 412) 9 [] no_caches [demo_contract])) [demo_contract])) 7 = Some 412"
proof -
  obtain k1 out where r: "fetch_previous_closes_cached (yahoo_api 412) 9 [] no_caches [demo_contract] = (k1, out)" by fastforce
  obtain k3 out' where r': "fetch_previous_closes_cached (yahoo_api 500) 9 [] k1 [demo_contract] = (k3, out')" by fastforce
  have "positive_closes no_caches" by (simp add: positive_closes_def no_caches_def)
  moreover have "k1 = later_calls 9 k1 []" by (simp add: later_calls_def)
  moreover have con_id: "ct_con_id demo_contract = 7" by (simp add: demo_contract_def)
  moreover have "map_of out 7 = Some 412"
    using call_settles(3) [OF r, of 7] demo_close r by (simp add: con_id)
  ultimately show ?thesis
    using previous_close_once_per_day [OF r _ _ r', of "[]"] by (simp add: r r')
qed

text \<open>Two accounts that hold one contract list it twice, and it is asked for twice.\<close>

lemma duplicate_contract_asked_twice:
  "close_misses no_caches today [demo_contract, demo_contract] = [demo_contract, demo_contract]"
  by (simp add: close_misses_def cached_close_def no_caches_def)

text \<open>Cash is never counted twice: the rows added from the account summary belong to accounts
  without a cash row among the positions, at most one per account, none of them empty.\<close>
theorem account_cash_not_doubled:
  assumes "missing_account_cash_positions live api fx ps = Inr extra" "distinct (managed_accounts api)"
  shows "distinct (map account_id extra)
    \<and> list_all (\<lambda>p. asset_class p = ''CASH'' \<and> quantity p \<noteq> 0
        \<and> list_all (\<lambda>q. asset_class q = ''CASH'' \<longrightarrow> account_id q \<noteq> account_id p) ps) extra"
proof -
  let ?with = "map account_id (filter (\<lambda>p. asset_class p = ''CASH'') ps)"
  let ?vs = "filter (\<lambda>v. ac_account_id v \<notin> set ?with \<and> ac_amount v \<noteq> 0) (account_cash_values live api)"
  have r: "rmap_list (build_account_cash_position fx) ?vs = Inr extra"
    using assms(1) by (simp add: missing_account_cash_positions_def Let_def)
  have "map account_id extra = map ac_account_id ?vs"
    by (rule rmap_list_map_eq [OF r]) (auto simp: build_account_cash_position_def dest: cash_row_fields)
  then have "distinct (map account_id extra)"
    using distinct_map_filter [OF account_cash_ids [OF assms(2)]] by simp
  moreover have "map (\<lambda>p. (asset_class p, quantity p, account_id p)) extra
      = map (\<lambda>v. (''CASH'', ac_amount v, ac_account_id v)) ?vs"
    by (rule rmap_list_map_eq [OF r]) (auto simp: build_account_cash_position_def dest: cash_row_fields)
  then have "asset_class p = ''CASH'' \<and> quantity p \<noteq> 0
      \<and> (\<forall>q\<in>set ps. asset_class q = ''CASH'' \<longrightarrow> account_id q \<noteq> account_id p)" if "p \<in> set extra" for p
  proof -
    have "(asset_class p, quantity p, account_id p) \<in> set (map (\<lambda>p. (asset_class p, quantity p, account_id p)) extra)"
      using that by simp
    then show ?thesis
      unfolding \<open>map (\<lambda>p. (asset_class p, quantity p, account_id p)) extra = _\<close> by (auto simp: image_iff)
  qed
  then have "list_all (\<lambda>p. asset_class p = ''CASH'' \<and> quantity p \<noteq> 0
        \<and> list_all (\<lambda>q. asset_class q = ''CASH'' \<longrightarrow> account_id q \<noteq> account_id p) ps) extra"
    unfolding list_all_iff by blast
  ultimately show ?thesis by blast
qed

theorem account_cash_not_doubled_witness:
  "\<exists>extra. missing_account_cash_positions True
     (no_api\<lparr>api_summary := Some (Inr [\<lparr>sr_account = ''U1'', sr_tag = ''TotalCashValue'', sr_value = ''5'', sr_currency = []\<rparr>])\<rparr>)
     None [] = Inr extra \<and> map account_id extra = [''U1''] \<and> distinct (map account_id extra)"
proof -
  have "py_float_of_str ''5'' = Some (Fin 5)" by code_simp
  then obtain extra where extra: "missing_account_cash_positions True
     (no_api\<lparr>api_summary := Some (Inr [\<lparr>sr_account = ''U1'', sr_tag = ''TotalCashValue'', sr_value = ''5'', sr_currency = []\<rparr>])\<rparr>)
     None [] = Inr extra" "map account_id extra = [''U1'']"
    by (simp add: missing_account_cash_positions_def account_cash_values_def no_api_def managed_accounts_def
        note_accounts_def dict_of_def build_account_cash_position_def cash_row_def convert_to_usd_def safe_float_def Let_def)
  have "distinct (managed_accounts (no_api\<lparr>api_summary := s\<rparr>))" for s
    by (simp add: managed_accounts_def no_api_def)
  from account_cash_not_doubled [OF extra(1) this, THEN conjunct1] extra show ?thesis
    by (intro exI [of _ extra] conjI)
qed

text \<open>The account summary has one entry per account, in order of account id: for exactly the accounts
  IB manages and those its summary rows name.\<close>
theorem account_summary_accounts:
  assumes "get_account_summary_ibkr True api fx = Inr out"
    and rows: "rows = (case api_summary api of Some (Inr rs) \<Rightarrow> rs | _ \<Rightarrow> [])"
  shows "distinct (map as_account_id out) \<and> sorted_wrt text_le (map as_account_id out)
    \<and> set (map as_account_id out) = set (managed_accounts api) \<union> (sr_account ` set rows - {[]})"
proof -
  obtain by_tag where "rmap_list (account_summary_of fx by_tag)
      (order_by text_le (remdups (note_accounts (managed_accounts api) rows))) = Inr out"
    using assms by (auto simp: get_account_summary_ibkr_def Let_def)
  then have "map as_account_id out = map (\<lambda>a. a) (order_by text_le (remdups (note_accounts (managed_accounts api) rows)))"
    by (rule rmap_list_map_eq) (rule account_summary_id)
  then have ids: "map as_account_id out = order_by text_le (remdups (note_accounts (managed_accounts api) rows))"
    by simp
  show ?thesis
    unfolding ids
    by (intro conjI sorted_order_by text_le_total) (auto intro: text_le_trans simp: note_accounts_set)
qed

theorem account_summary_accounts_witness:
  "\<exists>out. get_account_summary_ibkr True (no_api\<lparr>api_managed := Some [''U2'', ''U1'']\<rparr>) None = Inr out
     \<and> set (map as_account_id out) = {''U1'', ''U2''} \<and> distinct (map as_account_id out)"
proof -
  obtain out where out: "get_account_summary_ibkr True (no_api\<lparr>api_managed := Some [''U2'', ''U1'']\<rparr>) None = Inr out"
    by (auto simp: get_account_summary_ibkr_def account_summary_of_def ibkr_to_usd_def no_api_def
        managed_accounts_def note_accounts_def dict_of_def order_by_def Let_def)
  from account_summary_accounts [OF out refl] out show ?thesis
    by (auto simp: no_api_def managed_accounts_def)
qed

end
