(* ===== verification/IbkrStream.thy ===== *)
theory IbkrStream
  imports Ibkr
begin

text \<open>
  \<open>app/adapters/ibkr.py\<close>, the part that keeps rows current: the seed of the live rows with its
  market data subscriptions, the handlers of ticks and portfolio updates, the nightly refresh of
  previous closes, and what a disconnect does to the rows. A handler that raises has changed
  nothing: its changes come last.
\<close>

record Stream =
  s_rows :: LivePositions
  s_streaming :: "(int, Position \<times> Contract) dict"
  s_handlers :: "int list"

definition contract_for_position ::
    "bool \<Rightarrow> (int \<Rightarrow> Contract list result) \<Rightarrow> int \<Rightarrow> Contract option" where
  "contract_for_position live find_contract conid =
     (if \<not> live then None
      else (case find_contract conid of
              Inr (c # cs) \<Rightarrow> Some c
            | _ \<Rightarrow> None))"

text \<open>One position of the seed: its row always, a subscription if its key is a contract id, the
  contract is found and the exchange is not one that needs a subscription.\<close>

definition seed_one ::
    "(int \<Rightarrow> Contract list result) \<Rightarrow> (Contract \<Rightarrow> unit result) \<Rightarrow> Stream \<Rightarrow> Position \<Rightarrow> Stream result" where
  "seed_one find_contract req_mkt_data s p =
     (let s1 = s\<lparr>s_rows := set_position (s_rows s) p\<rparr>
      in case py_int_of_str (native_key p) of
           None \<Rightarrow> Inr s1
         | Some conid \<Rightarrow>
             (case contract_for_position True find_contract conid of
                None \<Rightarrow> Inr s1
              | Some c \<Rightarrow>
                  if is_permission_gated (Some (exchange p)) then Inr s1
                  else rbind (req_mkt_data c) (\<lambda>_.
                         Inr (s1\<lparr>s_streaming := AList.update conid (p, c) (s_streaming s1),
                                 s_handlers := conid # s_handlers s1\<rparr>))))"

fun seed_all ::
    "(int \<Rightarrow> Contract list result) \<Rightarrow> (Contract \<Rightarrow> unit result) \<Rightarrow> Stream \<Rightarrow> Position list \<Rightarrow> Stream \<times> unit result" where
  "seed_all find_contract req_mkt_data s [] = (s, Inr ())"
| "seed_all find_contract req_mkt_data s (p # ps) =
     (case seed_one find_contract req_mkt_data s p of
        Inl e \<Rightarrow> (s\<lparr>s_rows := set_position (s_rows s) p\<rparr>, Inl e)
      | Inr s1 \<Rightarrow> seed_all find_contract req_mkt_data s1 ps)"

definition start_streaming ::
    "Position list result \<Rightarrow> (int \<Rightarrow> Contract list result) \<Rightarrow> (Contract \<Rightarrow> unit result) \<Rightarrow> Stream \<Rightarrow>
       Stream \<times> unit result" where
  "start_streaming positions find_contract req_mkt_data s =
     (case positions of
        Inl e \<Rightarrow> (s, Inl e)
      | Inr ps \<Rightarrow> seed_all find_contract req_mkt_data s ps)"

definition on_ticker_update :: "rate_lookup \<Rightarrow> int option \<Rightarrow> IbTicker \<Rightarrow> Stream \<Rightarrow> Stream result" where
  "on_ticker_update fx conid ticker s =
     (case conid of
        None \<Rightarrow> Inr s
      | Some cid \<Rightarrow>
          (case map_of (s_streaming s) cid of
             None \<Rightarrow> Inr s
           | Some (old, c) \<Rightarrow>
               (let new_last = coerce_last ticker
                in if new_last \<le> 0 then Inr s
                   else if feq new_last (last_price old) then Inr s
                   else rbind (py_div (quantity old * new_last) (fl_of_int (price_magnifier old))) (\<lambda>mv.
                        rbind (py_div ((new_last - avg_cost old) * quantity old)
                                      (fl_of_int (price_magnifier old))) (\<lambda>pnl.
                        rbind (convert_to_usd fx (currency old) mv pnl) (\<lambda>conv.
                        rbind (ticker_is_delayed ticker) (\<lambda>delayed.
                          let p = old\<lparr>last_price := new_last, market_value_native := mv,
                                unrealized_pnl_native := pnl, market_value_usd := conv_mv_usd conv,
                                unrealized_pnl_usd := conv_pnl_usd conv, fx_is_stale := conv_is_stale conv,
                                fx_is_fallback := conv_is_fallback conv,
                                fx_unavailable := conv_unavailable conv,
                                last_price_is_previous_close := False,
                                last_price_is_broker_mark := False, last_price_is_delayed := delayed,
                                last_price_is_stale := False\<rparr>
                          in Inr (s\<lparr>s_streaming := AList.update cid (p, c) (s_streaming s),
                                    s_rows := set_position (s_rows s) p\<rparr>))))))))"

definition portfolio_row :: "rate_lookup \<Rightarrow> PortfolioItem \<Rightarrow> Position \<Rightarrow> Position option result" where
  "portfolio_row fx item old =
     (let m = price_magnifier old;
          price = or_else (portfolio_display_price (Some item) m (quantity old)) (last_price old);
          mv = or_else (portfolio_market_value (Some item)) (market_value_native old);
          pnl = or_else (portfolio_unrealized_pnl (Some item)) (unrealized_pnl_native old);
          cost = or_else (portfolio_average_cost (Some item) m) (avg_cost old)
      in if feq price (last_price old) \<and> feq mv (market_value_native old)
            \<and> feq pnl (unrealized_pnl_native old) \<and> feq cost (avg_cost old) then Inr None
         else rbind (convert_to_usd fx (currency old) mv pnl) (\<lambda>conv.
                Inr (Some (old\<lparr>avg_cost := cost, last_price := price, market_value_native := mv,
                  unrealized_pnl_native := pnl, market_value_usd := conv_mv_usd conv,
                  unrealized_pnl_usd := conv_pnl_usd conv, fx_is_stale := conv_is_stale conv,
                  fx_is_fallback := conv_is_fallback conv, fx_unavailable := conv_unavailable conv,
                  last_price_is_previous_close := False, last_price_is_broker_mark := True,
                  last_price_is_delayed := False, last_price_is_stale := False\<rparr>))))"

definition on_portfolio_update :: "rate_lookup \<Rightarrow> PortfolioItem \<Rightarrow> Stream \<Rightarrow> Stream result" where
  "on_portfolio_update fx item s =
     (case pi_con_id item of
        None \<Rightarrow> Inr s
      | Some cid \<Rightarrow>
          if cid = 0 then Inr s
          else (case find (\<lambda>p. broker p = ''IBKR'' \<and> native_key p = py_str_int cid) (get_all (s_rows s)) of
            None \<Rightarrow> Inr s
          | Some old \<Rightarrow>
              if asset_class old \<noteq> ''STK'' then Inr s
              else if map_of (s_streaming s) cid \<noteq> None \<and> \<not> last_price_is_broker_mark old \<and> 0 < last_price old
              then Inr s
              else rbind (portfolio_row fx item old) (\<lambda>built.
                     Inr (case built of
                            None \<Rightarrow> s
                          | Some p \<Rightarrow>
                              s\<lparr>s_streaming := (case map_of (s_streaming s) cid of
                                    None \<Rightarrow> s_streaming s
                                  | Some (q, c) \<Rightarrow> AList.update cid (p, c) (s_streaming s)),
                                s_rows := set_position (s_rows s) p\<rparr>))))"

text \<open>The nightly refresh; the caches are those of \<open>fetch_previous_closes_cached\<close>.\<close>

fun reseed_rows :: "(int, fl) dict \<Rightarrow> (int \<times> Position \<times> Contract) list \<Rightarrow> Stream \<Rightarrow> Stream" where
  "reseed_rows fresh [] s = s"
| "reseed_rows fresh ((cid, p, c) # rest) s =
     (case map_of fresh cid of
        None \<Rightarrow> reseed_rows fresh rest s
      | Some prev \<Rightarrow>
          if prev \<le> 0 \<or> feq prev (previous_close p) then reseed_rows fresh rest s
          else reseed_rows fresh rest
                 (s\<lparr>s_streaming := AList.update cid (p\<lparr>previous_close := prev\<rparr>, c) (s_streaming s),
                    s_rows := set_position (s_rows s) (p\<lparr>previous_close := prev\<rparr>)\<rparr>))"

definition reseed_streaming_previous_closes ::
    "bool \<Rightarrow> IbApi \<Rightarrow> int \<Rightarrow> IbCaches \<Rightarrow> Stream \<Rightarrow> IbCaches \<times> Stream" where
  "reseed_streaming_previous_closes live api today k s =
     (let contracts = map (\<lambda>(cid, p, c). c) (s_streaming s)
      in if \<not> live \<or> contracts = [] then (k, s)
         else (case fetch_previous_closes_cached api today [] k contracts of
                 (k1, fresh) \<Rightarrow> (k1, reseed_rows fresh (s_streaming s) s)))"

text \<open>How long the refresh loop sleeps: until five past midnight UTC of the next day.\<close>

definition daily_refresh_sleep :: "instant \<Rightarrow> int" where
  "daily_refresh_sleep now =
     max (seconds 60) ((now + day_us) div day_us * day_us + seconds 300 - now)"

text \<open>The handler of each ticker that is in use is removed, once.\<close>

definition deregister_tick_handlers :: "Stream \<Rightarrow> Stream" where
  "deregister_tick_handlers s =
     s\<lparr>s_handlers := foldl (\<lambda>hs cid. remove1 cid hs) (s_handlers s) (dict_keys (s_streaming s))\<rparr>"

definition stop_streaming :: "Stream \<Rightarrow> Stream" where
  "stop_streaming s = (deregister_tick_handlers s)\<lparr>s_streaming := []\<rparr>"

text \<open>A disconnect: the handlers are removed, then the rows that are not cash are marked.\<close>

definition mark_stale :: "LivePositions \<Rightarrow> Position \<Rightarrow> LivePositions" where
  "mark_stale l p =
     (if asset_class p = ''CASH'' \<or> last_price_is_stale p then l
      else set_position l (p\<lparr>last_price_is_stale := True\<rparr>))"

definition mark_live_positions_stale :: "LivePositions \<Rightarrow> LivePositions" where
  "mark_live_positions_stale l = foldl mark_stale l (get_all l)"

definition drop_stream :: "Stream \<Rightarrow> Stream" where
  "drop_stream s = (deregister_tick_handlers s)\<lparr>s_rows := mark_live_positions_stale (s_rows s)\<rparr>"

text \<open>What can happen between two connects: a tick reaches the handler of its contract while it is
  attached; the portfolio feed, the nightly refresh, the disconnect, and the other brokers.\<close>

inductive stream_step :: "Stream \<Rightarrow> Stream \<Rightarrow> bool" where
  tick: "cid \<in> set (s_handlers s) \<Longrightarrow> on_ticker_update fx (Some cid) t s = Inr s' \<Longrightarrow> stream_step s s'"
| portfolio: "on_portfolio_update fx item s = Inr s' \<Longrightarrow> stream_step s s'"
| nightly: "stream_step s (snd (reseed_streaming_previous_closes live api today k s))"
| dropped: "stream_step s (drop_stream s)"
| others: "b \<noteq> ''IBKR'' \<Longrightarrow> list_all (\<lambda>p. broker p = b) ps \<Longrightarrow>
    stream_step s (s\<lparr>s_rows := replace_broker (s_rows s) b ps\<rparr>)"

section \<open>Lemmas\<close>

lemma deregistered:
  "s_rows (deregister_tick_handlers s) = s_rows s" "s_streaming (deregister_tick_handlers s) = s_streaming s"
  "mset (s_handlers (deregister_tick_handlers s)) = mset (s_handlers s) - mset (dict_keys (s_streaming s))"
proof -
  have "mset (foldl (\<lambda>hs cid. remove1 cid hs) hs cids) = mset hs - mset cids" for hs and cids :: "int list"
    by (induction cids arbitrary: hs) simp_all
  then show "mset (s_handlers (deregister_tick_handlers s)) = mset (s_handlers s) - mset (dict_keys (s_streaming s))"
    by (simp add: deregister_tick_handlers_def)
qed (simp_all add: deregister_tick_handlers_def)

lemma daily_refresh_next_day:
  "now + daily_refresh_sleep now = (now div day_us + 1) * day_us + seconds 300"
proof -
  have "0 < day_us" by (simp add: day_us_def)
  from div_bounds [OF this, of now] have "now < (now div day_us + 1) * day_us" by (simp add: algebra_simps)
  moreover have "(now + day_us) div day_us = now div day_us + 1" by (simp add: day_us_def)
  ultimately show ?thesis by (simp add: daily_refresh_sleep_def seconds_def)
qed

definition marked :: "Position \<Rightarrow> Position" where
  "marked p = (if asset_class p = ''CASH'' then p else p\<lparr>last_price_is_stale := True\<rparr>)"

lemma pos_key_stale [simp]: "pos_key (p\<lparr>last_price_is_stale := b\<rparr>) = pos_key p"
  by (simp add: pos_key_def)

lemma pos_key_marked [simp]: "pos_key (marked p) = pos_key p"
  by (simp add: marked_def)

lemma live_wf_mark [simp]: "live_wf l \<Longrightarrow> live_wf (mark_stale l p)"
  by (simp add: mark_stale_def)

lemma row_of_mark_stale:
  "row_of l (pos_key p) = Some p \<Longrightarrow> row_of (mark_stale l p) = (row_of l)(pos_key p \<mapsto> marked p)"
  by (auto simp: mark_stale_def marked_def row_of_set_position fun_upd_idem)

lemma row_of_mark_all:
  assumes "distinct (map pos_key ps)" "list_all (\<lambda>p. row_of l (pos_key p) = Some p) ps"
  shows "row_of (foldl mark_stale l ps) k =
    (if k \<in> pos_key ` set ps then map_option marked (row_of l k) else row_of l k)"
  using assms
proof (induction ps arbitrary: l)
  case (Cons p ps)
  note row = row_of_mark_stale [of l p]
  have "list_all (\<lambda>q. row_of (mark_stale l p) (pos_key q) = Some q) ps"
    using Cons.prems by (auto simp: list_all_iff row image_iff)
  with Cons show ?case by (auto simp: row image_iff)
qed simp

lemma get_all_keys: "live_wf l \<Longrightarrow> distinct (map pos_key (get_all l))"
proof -
  assume l: "live_wf l"
  then have "map pos_key (get_all l) = map fst (lp_positions l)"
    by (auto simp: get_all_def dict_values_def live_wf_def list_all_iff)
  with l show ?thesis by (simp add: live_wf_def dict_wf_def)
qed

lemma row_of_mark:
  assumes "live_wf l"
  shows "row_of (mark_live_positions_stale l) k = map_option marked (row_of l k)"
proof -
  have "list_all (\<lambda>p. row_of l (pos_key p) = Some p) (get_all l)"
    using get_all_rows [OF assms] by (auto simp: list_all_iff)
  from row_of_mark_all [OF get_all_keys [OF assms] this]
  have "row_of (mark_live_positions_stale l) k =
      (if k \<in> pos_key ` set (get_all l) then map_option marked (row_of l k) else row_of l k)"
    by (simp add: mark_live_positions_stale_def)
  moreover have "k \<in> pos_key ` set (get_all l)" if "row_of l k = Some p" for p
    using get_all_rows [OF assms, of p] row_of_key [OF assms that] that by (auto simp: image_iff)
  ultimately show ?thesis by (cases "row_of l k") auto
qed

lemma live_wf_mark_all [simp]: "live_wf l \<Longrightarrow> live_wf (mark_live_positions_stale l)"
proof -
  have "live_wf l \<Longrightarrow> live_wf (foldl mark_stale l ps)" for ps
    by (induction ps arbitrary: l) auto
  then show "live_wf l \<Longrightarrow> live_wf (mark_live_positions_stale l)"
    by (simp add: mark_live_positions_stale_def)
qed

text \<open>Every subscribed position is the live row of its key, up to the stale mark.\<close>

definition entry_ok :: "LivePositions \<Rightarrow> int \<times> Position \<times> Contract \<Rightarrow> bool" where
  "entry_ok l e =
     (case e of (cid, p, c) \<Rightarrow>
        broker p = ''IBKR'' \<and> native_key p = py_str_int cid
        \<and> map_option (\<lambda>q. q\<lparr>last_price_is_stale := True\<rparr>) (row_of l (pos_key p))
            = Some (p\<lparr>last_price_is_stale := True\<rparr>))"

definition stream_ok :: "Stream \<Rightarrow> bool" where
  "stream_ok s =
     (live_wf (s_rows s) \<and> dict_wf (s_streaming s) \<and> list_all (entry_ok (s_rows s)) (s_streaming s))"

lemma same_but_stale:
  assumes "q\<lparr>last_price_is_stale := True\<rparr> = p\<lparr>last_price_is_stale := True\<rparr>"
  shows "quantity q = quantity p" "native_key q = native_key p" "asset_class q = asset_class p"
    "pos_key q = pos_key p" "broker q = broker p"
proof -
  have "f (q\<lparr>last_price_is_stale := True\<rparr>) = f (p\<lparr>last_price_is_stale := True\<rparr>)" for f :: "Position \<Rightarrow> 'z"
    using assms by simp
  note this [of quantity] this [of native_key] this [of asset_class] this [of pos_key] this [of broker]
  then show "quantity q = quantity p" "native_key q = native_key p" "asset_class q = asset_class p"
    "pos_key q = pos_key p" "broker q = broker p" by simp_all
qed

lemma entry_row:
  assumes "entry_ok l (cid, p, c)"
  obtains q where "row_of l (pos_key p) = Some q"
    "q\<lparr>last_price_is_stale := True\<rparr> = p\<lparr>last_price_is_stale := True\<rparr>" "native_key q = py_str_int cid"
    "quantity q = quantity p" "asset_class q = asset_class p"
proof -
  obtain q where q: "row_of l (pos_key p) = Some q"
    "q\<lparr>last_price_is_stale := True\<rparr> = p\<lparr>last_price_is_stale := True\<rparr>"
    using assms by (auto simp: entry_ok_def)
  with same_but_stale [OF q(2)] assms show ?thesis
    by (intro that [of q]) (simp_all add: entry_ok_def)
qed

definition restream :: "int \<Rightarrow> Position \<Rightarrow> Stream \<Rightarrow> (int, Position \<times> Contract) dict" where
  "restream cid p s =
     (case map_of (s_streaming s) cid of
        None \<Rightarrow> s_streaming s
      | Some (q, c) \<Rightarrow> AList.update cid (p, c) (s_streaming s))"

text \<open>Writing a row of a contract, and its entry if it has one, keeps the others in step.\<close>

lemma write_row_ok:
  assumes ok: "stream_ok s"
    and row: "row_of (s_rows s) (pos_key p) = Some q" "native_key q = py_str_int cid"
    and p: "native_key p = py_str_int cid" "broker p = ''IBKR''"
  shows "stream_ok (s\<lparr>s_streaming := restream cid p s, s_rows := set_position (s_rows s) p\<rparr>)"
proof -
  let ?l = "set_position (s_rows s) p"
  have wf: "live_wf (s_rows s)" "dict_wf (s_streaming s)" "list_all (entry_ok (s_rows s)) (s_streaming s)"
    using ok by (simp_all add: stream_ok_def)
  have new: "entry_ok ?l (cid, p, c)" for c
    by (simp add: entry_ok_def row_of_set_position p)
  have old: "entry_ok ?l e" if "e \<in> set (s_streaming s)" "fst e \<noteq> cid" for e
  proof -
    obtain cid' p' c' where e: "e = (cid', p', c')" by (cases e)
    have "entry_ok (s_rows s) e" using wf(3) that(1) by (auto simp: list_all_iff)
    then obtain q' where q': "row_of (s_rows s) (pos_key p') = Some q'" "native_key q' = py_str_int cid'"
      unfolding e by (rule entry_row) blast
    have "pos_key p' \<noteq> pos_key p"
      using row q' that(2) py_str_int_inj unfolding e by fastforce
    with \<open>entry_ok (s_rows s) e\<close> show ?thesis by (auto simp: e entry_ok_def row_of_set_position)
  qed
  have "list_all (entry_ok ?l) (restream cid p s)"
  proof (cases "map_of (s_streaming s) cid")
    case None
    then have "cid \<notin> fst ` set (s_streaming s)" by (simp add: map_of_eq_None_iff)
    then show ?thesis using old None by (force simp: restream_def list_all_iff)
  next
    case (Some pc)
    have "entry_ok ?l e" if "e \<in> set (AList.update cid (p, snd pc) (s_streaming s))" for e
    proof (cases "fst e = cid")
      case True
      have "map_of (AList.update cid (p, snd pc) (s_streaming s)) cid = Some (snd e)"
        using that True wf(2) by (metis dict_wf_AList_update dict_wf_map_of_mem prod.collapse)
      with True new show ?thesis by (cases e) (auto simp: dict_simps)
    next
      case False
      with that have "e \<in> set (s_streaming s)" using set_AList_update by fastforce
      with old False show ?thesis by blast
    qed
    then show ?thesis using Some by (auto simp: restream_def list_all_iff split: prod.splits)
  qed
  moreover have "dict_wf (restream cid p s)"
    using wf by (auto simp: restream_def split: option.splits)
  ultimately show ?thesis using wf by (simp add: stream_ok_def)
qed

text \<open>What no step changes about an IBKR row.\<close>

definition frozen :: "Stream \<Rightarrow> Stream \<Rightarrow> bool" where
  "frozen s s' = (\<forall>k. fst k = ''IBKR'' \<longrightarrow>
     map_option (\<lambda>p. (quantity p, native_key p, asset_class p)) (row_of (s_rows s') k)
       = map_option (\<lambda>p. (quantity p, native_key p, asset_class p)) (row_of (s_rows s) k))"

lemma frozen_refl [simp]: "frozen s s"
  by (simp add: frozen_def)

lemma frozen_trans: "frozen s t \<Longrightarrow> frozen t u \<Longrightarrow> frozen s u"
  by (simp add: frozen_def)

lemma frozen_write:
  assumes "row_of (s_rows s) (pos_key p) = Some q"
    and "quantity p = quantity q" "native_key p = native_key q" "asset_class p = asset_class q"
  shows "frozen s (s\<lparr>s_streaming := ss, s_rows := set_position (s_rows s) p\<rparr>)"
  using assms by (auto simp: frozen_def row_of_set_position)

definition same_holding :: "Position \<Rightarrow> Position \<Rightarrow> bool" where
  "same_holding p q =
     (pos_key p = pos_key q \<and> broker p = broker q \<and> native_key p = native_key q
      \<and> quantity p = quantity q \<and> asset_class p = asset_class q)"

lemma tick_live:
  assumes "on_ticker_update fx (Some cid) t s = Inr s'" "map_of (s_streaming s) cid = Some (p, c)"
    and "0 < coerce_last t" "\<not> feq (coerce_last t) (last_price p)"
  shows "\<exists>p'. s' = s\<lparr>s_streaming := AList.update cid (p', c) (s_streaming s), s_rows := set_position (s_rows s) p'\<rparr>
    \<and> same_holding p' p \<and> last_price p' = coerce_last t \<and> price_magnifier p' = price_magnifier p
    \<and> py_div (quantity p' * last_price p') (fl_of_int (price_magnifier p')) = Inr (market_value_native p')
    \<and> \<not> last_price_is_stale p' \<and> \<not> last_price_is_broker_mark p' \<and> \<not> last_price_is_previous_close p'"
  using assms(1) assms(3,4) [unfolded fl_pos_not_le]
  unfolding on_ticker_update_def option.case assms(2) prod.case Let_def
  by (auto simp: rbind_Inr_iff same_holding_def pos_key_def)

lemma tick_idle:
  assumes "on_ticker_update fx (Some cid) t s = Inr s'"
    and "case map_of (s_streaming s) cid of None \<Rightarrow> True
      | Some (p, c) \<Rightarrow> coerce_last t \<le> 0 \<or> feq (coerce_last t) (last_price p)"
  shows "s' = s"
  using assms by (auto simp: on_ticker_update_def Let_def split: option.splits if_splits)

lemma coerce_last_not_NaN: "coerce_last t \<noteq> NaN"
  by (auto simp: coerce_last_def to_positive_float_def fl_simps split: option.splits sum.splits attr.splits if_splits)

lemma tick_effect:
  assumes "on_ticker_update fx (Some cid) t s = Inr s'" "s' \<noteq> s"
  shows "\<exists>p c p'. map_of (s_streaming s) cid = Some (p, c)
    \<and> s' = s\<lparr>s_streaming := AList.update cid (p', c) (s_streaming s), s_rows := set_position (s_rows s) p'\<rparr>
    \<and> same_holding p' p"
proof -
  obtain p c where e: "map_of (s_streaming s) cid = Some (p, c)"
    using tick_idle [OF assms(1)] assms(2) by (cases "map_of (s_streaming s) cid") auto
  then have live: "0 < coerce_last t" "\<not> feq (coerce_last t) (last_price p)"
    using tick_idle [OF assms(1)] assms(2) coerce_last_not_NaN [of t] by (auto simp: fl_pos_not_le)
  from tick_live [OF assms(1) e live] e show ?thesis by blast
qed

lemma portfolio_row_holding:
  "portfolio_row fx item old = Inr (Some p) \<Longrightarrow> same_holding p old \<and> last_price_is_broker_mark p"
  by (auto simp: portfolio_row_def Let_def rbind_Inr_iff same_holding_def pos_key_def split: if_splits)

lemma portfolio_effect:
  assumes "on_portfolio_update fx item s = Inr s'" "s' \<noteq> s"
  shows "\<exists>cid old p. old \<in> set (get_all (s_rows s)) \<and> broker old = ''IBKR'' \<and> native_key old = py_str_int cid
    \<and> same_holding p old
    \<and> s' = s\<lparr>s_streaming := restream cid p s, s_rows := set_position (s_rows s) p\<rparr>"
proof -
  obtain cid where cid: "pi_con_id item = Some cid" "cid \<noteq> 0"
    using assms by (auto simp: on_portfolio_update_def split: option.splits if_splits)
  note u = assms(1) [unfolded on_portfolio_update_def cid option.case]
  obtain old where old: "find (\<lambda>p. broker p = ''IBKR'' \<and> native_key p = py_str_int cid) (get_all (s_rows s)) = Some old"
    using u assms(2) cid(2) by (auto split: option.splits)
  have old_in: "old \<in> set (get_all (s_rows s))" "broker old = ''IBKR''" "native_key old = py_str_int cid"
    using old by (auto simp: find_Some_iff dest: nth_mem)
  obtain p where p: "portfolio_row fx item old = Inr (Some p)"
    and s': "s' = s\<lparr>s_streaming := restream cid p s, s_rows := set_position (s_rows s) p\<rparr>"
    using u [unfolded old option.case] assms(2) cid(2)
    by (auto simp: rbind_Inr_iff restream_def split: option.splits if_splits)
  from old_in s' portfolio_row_holding [OF p] show ?thesis by blast
qed

lemma write_entry:
  assumes "stream_ok s" "map_of (s_streaming s) cid = Some (p, c)" "same_holding p' p"
  defines "s' \<equiv> s\<lparr>s_streaming := AList.update cid (p', c) (s_streaming s), s_rows := set_position (s_rows s) p'\<rparr>"
  shows "stream_ok s' \<and> frozen s s'"
proof -
  have p': "pos_key p' = pos_key p" "native_key p' = native_key p" "broker p' = broker p"
    "quantity p' = quantity p" "asset_class p' = asset_class p"
    using assms(3) by (simp_all add: same_holding_def)
  have "entry_ok (s_rows s) (cid, p, c)"
    using assms(1) map_of_SomeD [OF assms(2)] by (simp add: stream_ok_def list_all_iff)
  then obtain q where q: "row_of (s_rows s) (pos_key p) = Some q" "native_key q = py_str_int cid"
      "quantity q = quantity p" "asset_class q = asset_class p"
    by (rule entry_row)
  have p: "native_key p = py_str_int cid" "broker p = ''IBKR''"
    using \<open>entry_ok (s_rows s) (cid, p, c)\<close> by (simp_all add: entry_ok_def)
  have "s' = s\<lparr>s_streaming := restream cid p' s, s_rows := set_position (s_rows s) p'\<rparr>"
    by (simp add: s'_def restream_def assms(2))
  then have "stream_ok s'"
    using write_row_ok [OF assms(1), of p' q cid] q p p' by simp
  moreover have "frozen s s'"
    unfolding s'_def by (rule frozen_write [of _ _ q]) (use q p p' in simp_all)
  ultimately show ?thesis by blast
qed

lemma reseed_step:
  assumes "stream_ok s" "distinct (map fst es)" "set es \<subseteq> set (s_streaming s)"
  shows "stream_ok (reseed_rows fresh es s) \<and> frozen s (reseed_rows fresh es s)"
  using assms
proof (induction fresh es s rule: reseed_rows.induct)
  case (2 fresh cid p c rest s)
  have m: "map_of (s_streaming s) cid = Some (p, c)"
    using "2.prems" by (auto simp: stream_ok_def dict_wf_map_of_mem)
  show ?case
  proof (cases "map_of fresh cid")
    case None
    with 2 show ?thesis by simp
  next
    case (Some prev)
    show ?thesis
    proof (cases "prev \<le> 0 \<or> feq prev (previous_close p)")
      case True
      with Some 2 show ?thesis by simp
    next
      case False
      let ?p = "p\<lparr>previous_close := prev\<rparr>"
      let ?s = "s\<lparr>s_streaming := AList.update cid (?p, c) (s_streaming s), s_rows := set_position (s_rows s) ?p\<rparr>"
      have "same_holding ?p p" by (simp add: same_holding_def pos_key_def)
      from write_entry [OF "2.prems"(1) m this] have s: "stream_ok ?s" "frozen s ?s" by simp_all
      have "set rest \<subseteq> set (s_streaming ?s)"
      proof
        fix e assume e: "e \<in> set rest"
        then have "map_of (s_streaming s) (fst e) = Some (snd e)" "fst e \<noteq> cid"
          using "2.prems" by (auto simp: stream_ok_def dict_wf_map_of_mem image_iff)
        then have "map_of (s_streaming ?s) (fst e) = Some (snd e)" by (simp add: dict_simps)
        then show "e \<in> set (s_streaming ?s)" by (metis map_of_SomeD prod.collapse)
      qed
      with "2.IH"(3) [OF Some False s(1)] "2.prems" s(2) Some False show ?thesis
        by (auto intro: frozen_trans)
    qed
  qed
qed simp

lemma stream_step_ok:
  assumes "stream_step s s'" "stream_ok s"
  shows "stream_ok s' \<and> frozen s s'"
  using assms
proof (cases rule: stream_step.cases)
  case (tick cid fx t)
  then show ?thesis
    using tick_effect [OF tick(2)] write_entry [OF assms(2)] assms(2) by (cases "s' = s") auto
next
  case (portfolio fx item)
  show ?thesis
  proof (cases "s' = s")
    case False
    obtain cid old p where e: "old \<in> set (get_all (s_rows s))" "broker old = ''IBKR''"
      "native_key old = py_str_int cid" "same_holding p old"
      "s' = s\<lparr>s_streaming := restream cid p s, s_rows := set_position (s_rows s) p\<rparr>"
      using portfolio_effect [OF portfolio False] by blast
    have "row_of (s_rows s) (pos_key p) = Some old"
      using e assms(2) by (simp add: stream_ok_def get_all_rows same_holding_def)
    with e assms(2) show ?thesis
      by (auto simp: same_holding_def intro!: write_row_ok frozen_write)
  qed (use assms in simp)
next
  case (nightly live api today k)
  have "distinct (map fst (s_streaming s))" using assms(2) by (simp add: stream_ok_def dict_wf_def)
  from reseed_step [OF assms(2) this order_refl] nightly assms(2) show ?thesis
    by (auto simp: reseed_streaming_previous_closes_def Let_def split: prod.splits)
next
  case dropped
  have wf: "live_wf (s_rows s)" using assms(2) by (simp add: stream_ok_def)
  have "entry_ok (mark_live_positions_stale (s_rows s)) e" if "entry_ok (s_rows s) e" for e
  proof -
    have "marked q\<lparr>last_price_is_stale := True\<rparr> = q\<lparr>last_price_is_stale := True\<rparr>" for q
      by (simp add: marked_def)
    with that show ?thesis by (auto simp: entry_ok_def row_of_mark [OF wf])
  qed
  with assms(2) dropped wf have "stream_ok s'"
    by (auto simp: stream_ok_def drop_stream_def deregistered list_all_iff)
  moreover have "frozen s s'"
    unfolding dropped by (auto simp: frozen_def drop_stream_def deregistered row_of_mark [OF wf] marked_def
        option.map_comp o_def intro!: option.map_cong)
  ultimately show ?thesis by blast
next
  case (others b ps)
  have wf: "live_wf (s_rows s)" using assms(2) by (simp add: stream_ok_def)
  have other: "row_of (replace_broker (s_rows s) b ps) k = row_of (s_rows s) k" if "fst k = ''IBKR''" for k
    by (rule lp.rows_other_broker [OF wf others(3)]) (use others(2) that in simp)
  then have "frozen s s'" by (simp add: frozen_def others)
  moreover have "entry_ok (replace_broker (s_rows s) b ps) e" if e: "entry_ok (s_rows s) e" for e
  proof -
    obtain cid p c where p: "e = (cid, p, c)" "broker p = ''IBKR''"
      using e by (cases e) (auto simp: entry_ok_def)
    with other [of "pos_key p"] e show ?thesis by (simp add: entry_ok_def pos_key_def)
  qed
  then have "stream_ok s'"
    using assms(2) wf by (auto simp: stream_ok_def others list_all_iff)
  ultimately show ?thesis by blast
qed

lemma stream_run_ok:
  assumes "stream_step\<^sup>*\<^sup>* s s'" "stream_ok s"
  shows "stream_ok s' \<and> frozen s s'"
  using assms
proof (induction rule: rtranclp_induct)
  case (step t u)
  then show ?case using stream_step_ok frozen_trans by blast
qed simp

text \<open>The seed leaves every subscription in step with its row when no two positions share a key.\<close>

definition own_key :: "Position \<Rightarrow> bool" where
  "own_key p = (broker p = ''IBKR''
     \<and> (case py_int_of_str (native_key p) of None \<Rightarrow> True | Some cid \<Rightarrow> native_key p = py_str_int cid))"

lemma seed_all_ok:
  assumes "stream_ok s" "list_all own_key ps" "distinct (map pos_key ps)"
    and "list_all (\<lambda>(cid, p, c). pos_key p \<notin> pos_key ` set ps) (s_streaming s)"
    and "seed_all find_contract req s ps = (s', r)"
  shows "stream_ok s'"
  using assms
proof (induction find_contract req s ps rule: seed_all.induct)
  case (2 find_contract req s p ps)
  let ?l = "set_position (s_rows s) p"
  have old: "entry_ok ?l e" if "e \<in> set (s_streaming s)" for e
    using that "2.prems"(1,4) by (auto simp: stream_ok_def list_all_iff entry_ok_def row_of_set_position)
  have plain: "stream_ok (s\<lparr>s_rows := ?l\<rparr>)"
    using "2.prems"(1) old by (auto simp: stream_ok_def list_all_iff)
  show ?case
  proof (cases "seed_one find_contract req s p")
    case (Inl e)
    with "2.prems"(5) plain show ?thesis by simp
  next
    case (Inr s1)
    have cases: "s1 = s\<lparr>s_rows := ?l\<rparr> \<or> (\<exists>cid c. native_key p = py_str_int cid \<and> broker p = ''IBKR''
        \<and> s1 = s\<lparr>s_rows := ?l, s_streaming := AList.update cid (p, c) (s_streaming s), s_handlers := cid # s_handlers s\<rparr>)"
      using Inr "2.prems"(2)
      by (auto simp: seed_one_def Let_def own_key_def rbind_Inr_iff split: option.splits if_splits)
    have mem: "e \<in> set (s_streaming s) \<or> (\<exists>c. snd e = (p, c))" if "e \<in> set (s_streaming s1)" for e
      using cases that set_AList_update by fastforce
    have "stream_ok s1"
      using cases
    proof
      assume "\<exists>cid c. native_key p = py_str_int cid \<and> broker p = ''IBKR''
        \<and> s1 = s\<lparr>s_rows := ?l, s_streaming := AList.update cid (p, c) (s_streaming s), s_handlers := cid # s_handlers s\<rparr>"
      then obtain cid c where s1: "native_key p = py_str_int cid" "broker p = ''IBKR''"
        "s1 = s\<lparr>s_rows := ?l, s_streaming := AList.update cid (p, c) (s_streaming s), s_handlers := cid # s_handlers s\<rparr>"
        by blast
      have "entry_ok ?l (cid, p, c)" using s1 by (simp add: entry_ok_def row_of_set_position)
      then have "entry_ok ?l e" if "e \<in> set (AList.update cid (p, c) (s_streaming s))" for e
        using that old set_AList_update by fastforce
      with "2.prems"(1) show ?thesis by (simp add: s1(3) stream_ok_def list_all_iff)
    qed (use plain in simp)
    moreover have "list_all (\<lambda>(cid, p, c). pos_key p \<notin> pos_key ` set ps) (s_streaming s1)"
      using mem "2.prems"(3,4) by (fastforce simp: list_all_iff)
    ultimately show ?thesis
      using "2.IH" [OF Inr] "2.prems" Inr by simp
  qed
qed simp

lemma row_after_seed:
  assumes "seed_all find_contract req s ps = (s', Inr ())"
  shows "row_of (s_rows s') = row_of (s_rows s) ++ map_of (rev (keyed ps))"
  using assms
proof (induction find_contract req s ps rule: seed_all.induct)
  case (2 find_contract req s p ps)
  then obtain s1 where s1: "seed_one find_contract req s p = Inr s1" "seed_all find_contract req s1 ps = (s', Inr ())"
    by (auto split: sum.splits)
  have "s_rows s1 = set_position (s_rows s) p"
    using s1(1) by (auto simp: seed_one_def Let_def rbind_Inr_iff split: option.splits if_splits)
  with "2.IH" [OF s1] show ?case by (intro ext) (auto simp: row_of_set_position keyed_def map_add_def split: option.splits)
qed (simp add: keyed_def)

fun run_ticks :: "rate_lookup \<Rightarrow> int \<Rightarrow> IbTicker list \<Rightarrow> Stream \<Rightarrow> Stream" where
  "run_ticks fx cid [] s = s"
| "run_ticks fx cid (t # ts) s =
     run_ticks fx cid ts (case on_ticker_update fx (Some cid) t s of Inl e \<Rightarrow> s | Inr s1 \<Rightarrow> s1)"

lemma run_ticks_other_row:
  assumes "map_of (s_streaming s) cid = Some (q, c)" "k \<noteq> pos_key q"
  shows "row_of (s_rows (run_ticks fx cid ts s)) k = row_of (s_rows s) k"
  using assms
proof (induction ts arbitrary: s q c)
  case (Cons t ts)
  show ?case
  proof (cases "on_ticker_update fx (Some cid) t s")
    case (Inl e)
    with Cons.IH [OF Cons.prems] show ?thesis by simp
  next
    case (Inr s1)
    show ?thesis
    proof (cases "s1 = s")
      case True
      with Inr Cons.IH [OF Cons.prems] show ?thesis by simp
    next
      case False
      obtain p' where p': "s1 = s\<lparr>s_streaming := AList.update cid (p', c) (s_streaming s),
          s_rows := set_position (s_rows s) p'\<rparr>" "same_holding p' q"
        using tick_effect [OF Inr False] Cons.prems(1) by auto
      have "map_of (s_streaming s1) cid = Some (p', c)" "k \<noteq> pos_key p'"
        using p' Cons.prems by (simp_all add: dict_simps same_holding_def)
      from Cons.IH [OF this] p' Inr \<open>k \<noteq> pos_key p'\<close> show ?thesis by (simp add: row_of_set_position)
    qed
  qed
qed simp

section \<open>Properties\<close>

text \<open>C5. A tick shows in its row and nowhere else: a positive price that differs from the last one
  becomes the row's price, the position is valued at it, and the marks of an old price are gone;
  any other tick changes nothing.\<close>
theorem tick_updates_its_row:
  assumes "map_of (s_streaming s) cid = Some (p, c)" "on_ticker_update fx (Some cid) t s = Inr s'"
  shows "if 0 < coerce_last t \<and> \<not> feq (coerce_last t) (last_price p)
     then (\<exists>p'. row_of (s_rows s') = (row_of (s_rows s))(pos_key p \<mapsto> p')
        \<and> last_price p' = coerce_last t \<and> quantity p' = quantity p
        \<and> py_div (quantity p * coerce_last t) (fl_of_int (price_magnifier p)) = Inr (market_value_native p')
        \<and> \<not> last_price_is_stale p' \<and> \<not> last_price_is_broker_mark p' \<and> \<not> last_price_is_previous_close p')
     else s' = s"
proof (cases "0 < coerce_last t \<and> \<not> feq (coerce_last t) (last_price p)")
  case True
  obtain p' where p': "s' = s\<lparr>s_streaming := AList.update cid (p', c) (s_streaming s), s_rows := set_position (s_rows s) p'\<rparr>"
    "same_holding p' p" "last_price p' = coerce_last t" "price_magnifier p' = price_magnifier p"
    "py_div (quantity p' * last_price p') (fl_of_int (price_magnifier p')) = Inr (market_value_native p')"
    "\<not> last_price_is_stale p'" "\<not> last_price_is_broker_mark p'" "\<not> last_price_is_previous_close p'"
    using tick_live [OF assms(2,1)] True by blast
  then have "row_of (s_rows s') = (row_of (s_rows s))(pos_key p \<mapsto> p')" "quantity p' = quantity p"
    by (simp_all add: row_of_set_position same_holding_def)
  with p' True show ?thesis by auto
next
  case False
  then have "s' = s"
    using tick_idle [OF assms(2)] assms(1) coerce_last_not_NaN [of t] by (auto simp: fl_pos_not_le)
  with False show ?thesis by auto
qed

definition demo_ibkr :: "string \<Rightarrow> Position" where
  "demo_ibkr account = (demo_row ''IBKR'' ''BP.US'' 500)\<lparr>account_id := account, native_key := ''7'',
     exchange := ''NYSE'', currency := ''USD'', asset_class := ''STK'', price_magnifier := 1\<rparr>"

definition demo_seed :: "Position list \<Rightarrow> Stream" where
  "demo_seed ps = fst (seed_all (\<lambda>cid. Inr [demo_contract]) (\<lambda>c. Inr ())
     \<lparr>s_rows = lp_new, s_streaming = [], s_handlers = []\<rparr> ps)"

lemma demo_key: "py_int_of_str ''7'' = Some 7" "py_str_int 7 = ''7''" "\<not> is_permission_gated (Some ''NYSE'')"
  by code_simp+

lemma demo_seed_all:
  "seed_all (\<lambda>cid. Inr [demo_contract]) (\<lambda>c. Inr ()) \<lparr>s_rows = lp_new, s_streaming = [], s_handlers = []\<rparr>
     (map demo_ibkr as) = (demo_seed (map demo_ibkr as), Inr ())"
proof -
  have "snd (seed_all (\<lambda>cid. Inr [demo_contract]) (\<lambda>c. Inr ()) s (map demo_ibkr as)) = Inr ()" for s
    by (induction as arbitrary: s)
      (simp_all add: seed_one_def demo_ibkr_def demo_key contract_for_position_def Let_def)
  then show ?thesis by (simp add: demo_seed_def prod_eq_iff)
qed

lemma demo_seed_one:
  "map_of (s_streaming (demo_seed [demo_ibkr a])) 7 = Some (demo_ibkr a, demo_contract)"
  "row_of (s_rows (demo_seed [demo_ibkr a])) = [pos_key (demo_ibkr a) \<mapsto> demo_ibkr a]"
  "s_handlers (demo_seed [demo_ibkr a]) = [7]"
  by (simp_all add: demo_seed_def seed_one_def demo_ibkr_def demo_key contract_for_position_def Let_def
      row_of_set_position dict_simps) (simp_all add: row_of_def lp_new_def)

definition demo_tick :: "fl \<Rightarrow> IbTicker" where
  "demo_tick price = \<lparr>tk_last = VFloat price, tk_close = VNone, tk_market_price = Missing,
     tk_market_data_type = VInt 1\<rparr>"

theorem tick_updates_its_row_witness:
  "\<exists>s' p'. on_ticker_update None (Some 7) (demo_tick 510) (demo_seed [demo_ibkr ''U1'']) = Inr s'
     \<and> row_of (s_rows s') (pos_key (demo_ibkr ''U1'')) = Some p' \<and> last_price p' = 510"
proof -
  have last: "coerce_last (demo_tick 510) = 510"
    by (simp add: coerce_last_def demo_tick_def to_positive_float_def fl_simps)
  have d: "currency (demo_ibkr ''U1'') = ''USD''" "last_price (demo_ibkr ''U1'') = 1"
    "price_magnifier (demo_ibkr ''U1'') = 1" "ticker_is_delayed (demo_tick 510) = Inr False"
    by (simp_all add: demo_ibkr_def demo_row_def demo_tick_def ticker_is_delayed_def)
  have n: "\<not> (510::fl) \<le> 0" "\<not> feq 510 1" "py_div x (fl_of_int 1) = Inr (x / fl_of_int 1)" for x
    by (simp_all add: fl_simps)
  obtain s' where s': "on_ticker_update None (Some 7) (demo_tick 510) (demo_seed [demo_ibkr ''U1'']) = Inr s'"
    by (simp add: on_ticker_update_def demo_seed_one last d n convert_to_usd_def Let_def)
  have "0 < coerce_last (demo_tick 510)" "\<not> feq (coerce_last (demo_tick 510)) (last_price (demo_ibkr ''U1''))"
    using n(2) by (simp_all add: last d) (simp add: fl_simps)
  with tick_updates_its_row [OF demo_seed_one(1) s'] s' show ?thesis by (auto simp: last)
qed

text \<open>Between two connects no event changes what is held: whatever ticks, portfolio values, nightly
  refreshes, disconnects and rows of other brokers come after the seed, no IBKR row is added or
  removed and none changes its quantity, so a trade of the session never shows.\<close>
theorem ibkr_holdings_frozen:
  assumes "live_wf l" "list_all own_key ps" "distinct (map pos_key ps)"
    and "seed_all find_contract req \<lparr>s_rows = l, s_streaming = [], s_handlers = []\<rparr> ps = (s, r)"
    and "stream_step\<^sup>*\<^sup>* s s'" "fst k = ''IBKR''"
  shows "(row_of (s_rows s') k = None) = (row_of (s_rows s) k = None)
    \<and> map_option quantity (row_of (s_rows s') k) = map_option quantity (row_of (s_rows s) k)"
proof -
  have "stream_ok s"
    by (rule seed_all_ok [OF _ assms(2,3) _ assms(4)]) (simp_all add: stream_ok_def assms(1))
  from stream_run_ok [OF assms(5) this] assms(6)
  have *: "map_option (\<lambda>p. (quantity p, native_key p, asset_class p)) (row_of (s_rows s') k)
      = map_option (\<lambda>p. (quantity p, native_key p, asset_class p)) (row_of (s_rows s) k)"
    unfolding frozen_def by blast
  then show ?thesis by (cases "row_of (s_rows s') k"; cases "row_of (s_rows s) k") auto
qed

theorem ibkr_holdings_frozen_witness:
  "map_option quantity (row_of (s_rows (drop_stream (demo_seed [demo_ibkr ''U1'']))) (pos_key (demo_ibkr ''U1'')))
     = Some (quantity (demo_ibkr ''U1''))"
proof -
  have s: "seed_all (\<lambda>cid. Inr [demo_contract]) (\<lambda>c. Inr ()) \<lparr>s_rows = lp_new, s_streaming = [], s_handlers = []\<rparr>
     [demo_ibkr ''U1''] = (demo_seed [demo_ibkr ''U1''], Inr ())"
    using demo_seed_all [of "[''U1'']"] by simp
  have "list_all own_key [demo_ibkr ''U1'']" "distinct (map pos_key [demo_ibkr ''U1''])"
    by (simp_all add: own_key_def demo_ibkr_def demo_row_def demo_key)
  moreover have "stream_step\<^sup>*\<^sup>* (demo_seed [demo_ibkr ''U1'']) (drop_stream (demo_seed [demo_ibkr ''U1'']))"
    by (rule r_into_rtranclp) (rule stream_step.dropped)
  ultimately have "map_option quantity (row_of (s_rows (drop_stream (demo_seed [demo_ibkr ''U1'']))) k)
      = map_option quantity (row_of (s_rows (demo_seed [demo_ibkr ''U1''])) k)" if "fst k = ''IBKR''" for k
    using ibkr_holdings_frozen [OF live_wf_new _ _ s _ that] by blast
  moreover have "fst (pos_key (demo_ibkr ''U1'')) = ''IBKR''" by (simp add: pos_key_def demo_ibkr_def demo_row_def)
  ultimately show ?thesis by (simp add: demo_seed_one)
qed

text \<open>An IBKR disconnect marks the rows of every broker: each stock row of the store is flagged as
  stale, also the ones the polling adapters own and are refreshing; nothing else about them
  changes; and no tick handler stays attached if there was one for each contract.\<close>
theorem disconnect_marks_every_broker:
  assumes "live_wf (s_rows s)" "row_of (s_rows s) (b, a, c) = Some p"
  shows "row_of (s_rows (drop_stream s)) (b, a, c)
      = Some (if asset_class p = ''CASH'' then p else p\<lparr>last_price_is_stale := True\<rparr>)
    \<and> (mset (s_handlers s) = mset (dict_keys (s_streaming s)) \<longrightarrow> s_handlers (drop_stream s) = [])"
proof -
  have "s_handlers (drop_stream s) = []" if "mset (s_handlers s) = mset (dict_keys (s_streaming s))"
    using deregistered(3) [of s] that by (simp add: drop_stream_def)
  with assms show ?thesis by (simp add: drop_stream_def deregistered row_of_mark marked_def)
qed

theorem disconnect_marks_every_broker_witness:
  "\<exists>p. row_of (s_rows (drop_stream \<lparr>s_rows = set_position lp_new (demo_row ''Futu'' ''700.HK'' 300),
       s_streaming = [], s_handlers = []\<rparr>)) (pos_key (demo_row ''Futu'' ''700.HK'' 300)) = Some p
     \<and> last_price_is_stale p"
proof -
  have "live_wf (s_rows \<lparr>s_rows = set_position lp_new (demo_row ''Futu'' ''700.HK'' 300), s_streaming = [], s_handlers = []\<rparr>)"
    by simp
  from disconnect_marks_every_broker [OF this] show ?thesis
    by (simp add: row_of_set_position pos_key_def demo_row_def)
qed

text \<open>C30. Of two accounts that hold the same stock only one is kept current: subscriptions are kept per
  contract, the second replaces the first, and the first account's row keeps the price it was
  seeded with however many ticks arrive.\<close>
theorem second_account_freezes_first:
  assumes "seed_all find_contract req s [p, q] = (s', Inr ())"
    and "py_int_of_str (native_key q) = Some cid" "contract_for_position True find_contract cid \<noteq> None"
    and "\<not> is_permission_gated (Some (exchange q))" "pos_key p \<noteq> pos_key q"
  shows "row_of (s_rows (run_ticks fx cid ts s')) (pos_key p) = Some p"
proof -
  obtain s1 where s1: "seed_one find_contract req s p = Inr s1" "seed_one find_contract req s1 q = Inr s'"
    using assms(1) by (auto split: sum.splits)
  have "\<exists>c. map_of (s_streaming s') cid = Some (q, c)"
    using s1(2) assms(2,3,4)
    by (auto simp: seed_one_def Let_def rbind_Inr_iff dict_simps split: option.splits)
  then obtain c where c: "map_of (s_streaming s') cid = Some (q, c)" by blast
  have "row_of (s_rows s') (pos_key p) = Some p"
    using assms(5) by (simp add: row_after_seed [OF assms(1)] keyed_def map_add_def)
  with run_ticks_other_row [OF c assms(5)] show ?thesis by simp
qed

theorem second_account_freezes_first_witness:
  "row_of (s_rows (run_ticks None 7 [demo_tick 510, demo_tick 520]
     (demo_seed [demo_ibkr ''U1'', demo_ibkr ''U2'']))) (pos_key (demo_ibkr ''U1'')) = Some (demo_ibkr ''U1'')"
proof -
  have s: "seed_all (\<lambda>cid. Inr [demo_contract]) (\<lambda>c. Inr ()) \<lparr>s_rows = lp_new, s_streaming = [], s_handlers = []\<rparr>
     [demo_ibkr ''U1'', demo_ibkr ''U2''] = (demo_seed [demo_ibkr ''U1'', demo_ibkr ''U2''], Inr ())"
    using demo_seed_all [of "[''U1'', ''U2'']"] by simp
  show ?thesis
    by (rule second_account_freezes_first [OF s])
      (simp_all add: demo_ibkr_def demo_row_def demo_key contract_for_position_def pos_key_def)
qed

end
