(* ===== verification/IbkrLink.thy ===== *)
theory IbkrLink
  imports IbkrStream
begin

text \<open>
  \<open>app/adapters/ibkr.py\<close>, the connection: the first connect, the disconnect handler, the reconnect loop
  with its backoff schedule and the operator's retry. The event loop runs one task at a time, so a
  step is what a task does between two awaits. A connect waits twice: for the TCP session
  (\<open>Opening\<close>) and for the seed of the rows (\<open>Streaming\<close>). \<open>l_session\<close> is the IB object the adapter
  holds, with the fact whether its session is up, which only IB knows.
\<close>

datatype phase = Opening | Streaming

datatype loop_pc = NoLoop | Fresh | Sleeping nat | Trying nat phase

record Link =
  l_state :: ConnectionState
  l_session :: "bool option"
  l_boot :: "phase option"
  l_loop :: loop_pc
  l_wakeup :: "bool option"
  l_backoff :: "rat option"
  l_disconnecting :: bool
  l_hooks_fired :: nat
  l_stream :: Stream

definition link_new :: "Stream \<Rightarrow> Link" where
  "link_new s =
     \<lparr>l_state = DISCONNECTED, l_session = None, l_boot = None, l_loop = NoLoop, l_wakeup = None,
      l_backoff = None, l_disconnecting = False, l_hooks_fired = 0, l_stream = s\<rparr>"

text \<open>\<open>_handle_disconnect\<close>: only the first disconnect of an outage does anything.\<close>

definition handle_disconnect :: "Link \<Rightarrow> Link" where
  "handle_disconnect l =
     (if l_disconnecting l then l
      else if l_state l = RECONNECTING then l
      else l\<lparr>l_state := RECONNECTING, l_stream := drop_stream (l_stream l),
             l_loop := (if l_loop l = NoLoop then Fresh else l_loop l)\<rparr>)"

definition retry_now :: "Link \<Rightarrow> Link" where
  "retry_now l =
     (if l_disconnecting l \<or> l_state l = CONNECTED then l
      else (let l1 = l\<lparr>l_wakeup := Some True\<rparr>
            in if l_state l = DISCONNECTED then handle_disconnect l1
               else if l_loop l = NoLoop then l1\<lparr>l_loop := Fresh\<rparr>
               else l1))"

text \<open>The loop ends: its \<open>finally\<close> clears the shown delay and the wakeup event.\<close>

definition loop_finish :: "Link \<Rightarrow> Link" where
  "loop_finish l = l\<lparr>l_loop := NoLoop, l_backoff := None, l_wakeup := None\<rparr>"

text \<open>The head of the loop for attempt \<open>i\<close>, counted from 0: the wait, or exhaustion.\<close>

definition loop_head :: "rat list \<Rightarrow> nat \<Rightarrow> Link \<Rightarrow> Link" where
  "loop_head delays i l =
     (if i < length delays
      then l\<lparr>l_loop := Sleeping i, l_backoff := Some (delays ! i),
             l_wakeup := Some (l_wakeup l = Some True)\<rparr>
      else loop_finish (l\<lparr>l_state := DISCONNECTED\<rparr>))"

text \<open>The wait is over, by its timeout or because the event is set.\<close>

definition loop_wake :: "nat \<Rightarrow> Link \<Rightarrow> Link" where
  "loop_wake i l =
     (if l_state l = CONNECTED then loop_finish l
      else l\<lparr>l_wakeup := Some False, l_session := None, l_loop := Trying i Opening,
             l_stream := (l_stream l)\<lparr>s_streaming := []\<rparr>\<rparr>)"

definition connect_opened :: "Link \<Rightarrow> Link" where
  "connect_opened l = l\<lparr>l_session := Some True\<rparr>"

definition connect_done :: "Stream \<Rightarrow> Link \<Rightarrow> Link" where
  "connect_done s l = l\<lparr>l_state := CONNECTED, l_stream := s\<rparr>"

text \<open>A failed connect: once the session object is held, it is let go again; the rows seeded until then stay.\<close>

definition connect_failed :: "phase \<Rightarrow> Stream \<Rightarrow> Link \<Rightarrow> Link" where
  "connect_failed ph s l = (case ph of Opening \<Rightarrow> l | Streaming \<Rightarrow> l\<lparr>l_session := None, l_stream := s\<rparr>)"

text \<open>\<open>disconnect\<close> of the adapter: the loop is cancelled; a session is stopped and closed, and the
  event it fires finds the flag set.\<close>

definition disconnect_adapter :: "Link \<Rightarrow> Link" where
  "disconnect_adapter l =
     (let l1 = loop_finish (l\<lparr>l_disconnecting := True\<rparr>)
      in (if l_session l = None then l1\<lparr>l_state := DISCONNECTED\<rparr>
          else (handle_disconnect (l1\<lparr>l_stream := stop_streaming (l_stream l)\<rparr>))
                 \<lparr>l_session := None, l_state := DISCONNECTED\<rparr>)
         \<lparr>l_disconnecting := False\<rparr>)"

text \<open>The steps of the reconnect task.\<close>

inductive loop_step :: "rat list \<Rightarrow> Link \<Rightarrow> Link \<Rightarrow> bool" for delays where
  begins: "l_loop l = Fresh \<Longrightarrow> loop_step delays l (loop_head delays 0 l)"
| wakes: "l_loop l = Sleeping i \<Longrightarrow> loop_step delays l (loop_wake i l)"
| opens: "l_loop l = Trying i Opening \<Longrightarrow>
    loop_step delays l ((connect_opened l)\<lparr>l_loop := Trying i Streaming\<rparr>)"
| connects: "l_loop l = Trying i Streaming \<Longrightarrow>
    loop_step delays l
      (loop_finish ((connect_done s l)\<lparr>l_hooks_fired := Suc (l_hooks_fired l)\<rparr>))"
| fails: "l_loop l = Trying i ph \<Longrightarrow>
    loop_step delays l (loop_head delays (Suc i) (connect_failed ph s l))"

text \<open>Everything that can happen; \<open>start\<close> is called on a disconnected adapter, by one caller.\<close>

inductive link_step :: "rat list \<Rightarrow> Link \<Rightarrow> Link \<Rightarrow> bool" for delays where
  looping: "loop_step delays l l' \<Longrightarrow> link_step delays l l'"
| start: "l_state l = DISCONNECTED \<Longrightarrow> l_loop l = NoLoop \<Longrightarrow> l_boot l = None \<Longrightarrow>
    link_step delays l (l\<lparr>l_boot := Some Opening\<rparr>)"
| boot_opens: "l_boot l = Some Opening \<Longrightarrow>
    link_step delays l ((connect_opened l)\<lparr>l_boot := Some Streaming\<rparr>)"
| boot_connects: "l_boot l = Some Streaming \<Longrightarrow>
    link_step delays l ((connect_done s l)\<lparr>l_boot := None\<rparr>)"
| boot_fails: "l_boot l = Some ph \<Longrightarrow>
    link_step delays l (handle_disconnect ((connect_failed ph s l)\<lparr>l_boot := None\<rparr>))"
| drops: "l_session l = Some True \<Longrightarrow>
    link_step delays l (handle_disconnect (l\<lparr>l_session := Some False\<rparr>))"
| retries: "link_step delays l (retry_now l)"
| disconnects: "link_step delays l (disconnect_adapter l)"
| streams: "stream_step (l_stream l) s \<Longrightarrow> link_step delays l (l\<lparr>l_stream := s\<rparr>)"

inductive link_reachable :: "rat list \<Rightarrow> Link \<Rightarrow> bool" for delays where
  new: "link_reachable delays (link_new s)"
| step: "link_reachable delays l \<Longrightarrow> link_step delays l l' \<Longrightarrow> link_reachable delays l'"

section \<open>Lemmas\<close>

lemmas link_defs = handle_disconnect_def retry_now_def loop_finish_def loop_head_def loop_wake_def
  connect_opened_def connect_done_def connect_failed_def disconnect_adapter_def Let_def

fun loop_attempt :: "loop_pc \<Rightarrow> nat option" where
  "loop_attempt (Sleeping i) = Some i"
| "loop_attempt (Trying i ph) = Some i"
| "loop_attempt other = None"

text \<open>An adapter that says it reconnects has a loop at work; the delay shown is that of the attempt the
  loop is at, and is shown only then; no flag stays set.\<close>

definition link_ok :: "rat list \<Rightarrow> Link \<Rightarrow> bool" where
  "link_ok delays l =
     ((l_state l = RECONNECTING \<longrightarrow> l_loop l \<noteq> NoLoop) \<and> \<not> l_disconnecting l
      \<and> l_backoff l = map_option (\<lambda>i. delays ! i) (loop_attempt (l_loop l))
      \<and> (case loop_attempt (l_loop l) of None \<Rightarrow> True | Some i \<Rightarrow> i < length delays))"

lemma link_ok_handle: "link_ok delays l \<Longrightarrow> link_ok delays (handle_disconnect l)"
  by (auto simp: link_ok_def handle_disconnect_def)

lemma link_ok_head: "\<not> l_disconnecting l \<Longrightarrow> link_ok delays (loop_head delays i l)"
  by (auto simp: link_ok_def loop_head_def loop_finish_def)

lemma link_ok_finish: "\<not> l_disconnecting l \<Longrightarrow> l_state l \<noteq> RECONNECTING \<Longrightarrow> link_ok delays (loop_finish l)"
  by (auto simp: link_ok_def loop_finish_def)

lemma link_ok_loop:
  assumes "loop_step delays l l'" "link_ok delays l"
  shows "link_ok delays l'"
  using assms(1)
proof (cases rule: loop_step.cases)
  case begins
  have "\<not> l_disconnecting l" using assms(2) by (simp add: link_ok_def)
  then show ?thesis unfolding begins by (rule link_ok_head)
next
  case (wakes i)
  then show ?thesis using assms(2) by (auto simp: link_ok_def loop_wake_def loop_finish_def)
next
  case (opens i)
  then show ?thesis using assms(2) by (auto simp: link_ok_def connect_opened_def)
next
  case (connects i s)
  then show ?thesis using assms(2) by (auto simp: link_ok_def connect_done_def loop_finish_def)
next
  case (fails i ph s)
  then show ?thesis
    using assms(2) unfolding fails
    by (intro link_ok_head) (cases ph; simp add: link_ok_def connect_failed_def)
qed

lemma link_ok_step:
  assumes "link_step delays l l'" "link_ok delays l"
  shows "link_ok delays l'"
  using assms(1)
proof (cases rule: link_step.cases)
  case looping
  then show ?thesis using assms(2) by (rule link_ok_loop)
next
  case (boot_fails ph s)
  have "link_ok delays ((connect_failed ph s l)\<lparr>l_boot := None\<rparr>)"
    using assms(2) by (cases ph) (simp_all add: link_ok_def connect_failed_def)
  then show ?thesis unfolding boot_fails by (rule link_ok_handle)
next
  case drops
  have "link_ok delays (l\<lparr>l_session := Some False\<rparr>)" using assms(2) by (simp add: link_ok_def)
  then show ?thesis unfolding drops by (rule link_ok_handle)
next
  case retries
  then show ?thesis using assms(2) by (auto simp: link_ok_def retry_now_def handle_disconnect_def Let_def)
next
  case disconnects
  then show ?thesis by (auto simp: link_ok_def disconnect_adapter_def loop_finish_def handle_disconnect_def Let_def)
qed (use assms(2) in \<open>auto simp: link_ok_def connect_opened_def connect_done_def\<close>)

lemma link_reachable_ok: "link_reachable delays l \<Longrightarrow> link_ok delays l"
proof (induction rule: link_reachable.induct)
  case (new s)
  show ?case by (simp add: link_ok_def link_new_def)
next
  case (step l l')
  then show ?case by (blast intro: link_ok_step)
qed

text \<open>How far the loop is from its end.\<close>

fun loop_rank :: "nat \<Rightarrow> loop_pc \<Rightarrow> nat" where
  "loop_rank n NoLoop = 0"
| "loop_rank n Fresh = 3 * n + 1"
| "loop_rank n (Sleeping i) = 3 * (n - i)"
| "loop_rank n (Trying i Opening) = 3 * (n - i) - 1"
| "loop_rank n (Trying i Streaming) = 3 * (n - i) - 2"

lemma loop_step_rank:
  assumes "loop_step delays l l'" "link_ok delays l"
  shows "loop_rank (length delays) (l_loop l') < loop_rank (length delays) (l_loop l)"
  using assms(1)
proof (cases rule: loop_step.cases)
  case (fails i ph s)
  have i: "i < length delays" using assms(2) fails by (simp add: link_ok_def)
  have "l_loop l' = (if Suc i < length delays then Sleeping (Suc i) else NoLoop)"
    by (simp add: fails loop_head_def loop_finish_def)
  then show ?thesis using i fails by (cases ph) auto
qed (use assms(2) in \<open>auto simp: link_ok_def link_defs\<close>)

lemma loop_progress:
  assumes "l_loop l \<noteq> NoLoop"
  shows "\<exists>l'. loop_step delays l l'"
  using assms by (cases "l_loop l") (auto intro: loop_step.intros)

text \<open>A run of the loop task alone, with the outcome of every attempt.\<close>

lemma loop_runs_down:
  assumes "link_ok delays l"
  shows "\<exists>l'. (loop_step delays)\<^sup>*\<^sup>* l l' \<and> l_loop l' = NoLoop"
  using assms
proof (induction "loop_rank (length delays) (l_loop l)" arbitrary: l rule: less_induct)
  case less
  show ?case
  proof (cases "l_loop l = NoLoop")
    case False
    obtain l1 where l1: "loop_step delays l l1" using loop_progress [OF False] by blast
    from less.hyps [OF loop_step_rank [OF l1 less.prems] link_ok_loop [OF l1 less.prems]] l1
    show ?thesis by (meson converse_rtranclp_into_rtranclp)
  qed blast
qed

lemma loop_finishes_somewhere:
  assumes "loop_step delays l l'" "link_ok delays l" "l_loop l' = NoLoop"
  shows "l_state l' \<noteq> RECONNECTING"
  using link_ok_loop [OF assms(1,2)] assms(3) by (auto simp: link_ok_def)

section \<open>Properties\<close>


definition demo_link :: Link where
  "demo_link = link_new \<lparr>s_rows = lp_new, s_streaming = [], s_handlers = []\<rparr>"

lemma demo_link_reachable:
  "link_reachable [5, 15] demo_link" "link_reachable [5, 15] (retry_now demo_link)"
  unfolding demo_link_def
  by (rule link_reachable.new) (rule link_reachable.step [OF link_reachable.new link_step.retries])


text \<open>C9. The reconnect loop always ends: every step of it brings it nearer to its end, whatever the
  attempts give, so it takes at most three steps for each delay of the schedule and one more; it can
  always take a step until it has ended, and it ends CONNECTED or DISCONNECTED.\<close>
theorem reconnect_loop_ends:
  assumes "link_reachable delays l"
  shows "(\<forall>l'. loop_step delays l l' \<longrightarrow>
        loop_rank (length delays) (l_loop l') < loop_rank (length delays) (l_loop l)
        \<and> (l_loop l' = NoLoop \<longrightarrow> l_state l' \<noteq> RECONNECTING))
    \<and> loop_rank (length delays) (l_loop l) \<le> 3 * length delays + 1
    \<and> (l_loop l \<noteq> NoLoop \<longrightarrow> (\<exists>l'. loop_step delays l l'))
    \<and> (\<exists>l'. (loop_step delays)\<^sup>*\<^sup>* l l' \<and> l_loop l' = NoLoop)"
proof -
  have "loop_rank n pc \<le> 3 * n + 1" for n pc
    by (cases "(n, pc)" rule: loop_rank.cases) auto
  with link_reachable_ok [OF assms] loop_step_rank loop_finishes_somewhere loop_progress loop_runs_down
  show ?thesis by blast
qed

theorem reconnect_loop_ends_witness:
  "\<exists>l'. (loop_step [5, 15])\<^sup>*\<^sup>* (retry_now demo_link) l' \<and> l_loop l' = NoLoop"
proof -
  from reconnect_loop_ends [OF demo_link_reachable(2)] show ?thesis by blast
qed

text \<open>A retry by the operator takes effect at once: on a waiting loop it ends the current wait
  without giving up the attempt, a disconnected adapter starts the loop with its first wait already
  over, and a connected one is left alone.\<close>
theorem retry_takes_effect:
  assumes "link_reachable delays l" "delays \<noteq> []"
  shows "case l_state l of
      CONNECTED \<Rightarrow> retry_now l = l
    | RECONNECTING \<Rightarrow> l_wakeup (retry_now l) = Some True \<and> l_loop (retry_now l) = l_loop l
    | DISCONNECTED \<Rightarrow> l_state (retry_now l) = RECONNECTING
        \<and> (l_loop l = NoLoop \<longrightarrow> l_loop (loop_head delays 0 (retry_now l)) = Sleeping 0
             \<and> l_wakeup (loop_head delays 0 (retry_now l)) = Some True)"
  using link_reachable_ok [OF assms(1)] assms(2)
  by (auto simp: link_ok_def retry_now_def handle_disconnect_def loop_head_def Let_def
      split: ConnectionState.splits)

theorem retry_takes_effect_witness:
  "l_loop (loop_head [5, 15] 0 (retry_now demo_link)) = Sleeping 0
   \<and> l_wakeup (loop_head [5, 15] 0 (retry_now demo_link)) = Some True"
proof -
  from retry_takes_effect [OF demo_link_reachable(1)] show ?thesis by (simp add: demo_link_def link_new_def)
qed








end
