(* ===== verification/FillCapture.thy ===== *)
theory FillCapture
  imports Jobs Vendor
begin








section \<open>Lemmas\<close>


definition row_key :: "FillRow \<Rightarrow> (string \<times> string) set" where
  "row_key r = (if fill_storable r then {fill_key r} else {})"

definition row_keys :: "FillRow list \<Rightarrow> (string \<times> string) set" where
  "row_keys rows = (\<Union>r\<in>set rows. row_key r)"

text \<open>The keys a fill is stored under.\<close>

definition fill_row_keys :: "rate_lookup \<Rightarrow> VendorFill \<Rightarrow> (string \<times> string) set" where
  "fill_row_keys fx f = (case build_fill_row fx ''IBKR'' f of Inr (Some r) \<Rightarrow> row_key r | _ \<Rightarrow> {})"

definition keys_of_fills :: "rate_lookup \<Rightarrow> VendorFill list \<Rightarrow> (string \<times> string) set" where
  "keys_of_fills fx fs = (\<Union>f\<in>set fs. fill_row_keys fx f)"

lemma row_keys_simps [simp]:
  "row_keys [] = {}" "row_keys (r # rs) = row_key r \<union> row_keys rs" "row_keys (rs @ rs') = row_keys rs \<union> row_keys rs'"
  by (auto simp: row_keys_def)
















text \<open>The answered fills whose inserts do not raise, and what a reconciliation that returned makes of them.\<close>

definition insertable :: "(string \<Rightarrow> bool) \<Rightarrow> VendorFill list \<Rightarrow> VendorFill list" where
  "insertable db_fails fs = filter (\<lambda>f. \<not> db_fails (vf_exec_id f)) fs"

lemma insertable_simps [simp]:
  "insertable db_fails [] = []"
  "insertable db_fails (f # fs) = (if db_fails (vf_exec_id f) then insertable db_fails fs else f # insertable db_fails fs)"
  by (simp_all add: insertable_def)

lemma keys_of_fills_simps [simp]:
  "keys_of_fills fx [] = {}" "keys_of_fills fx (f # fs) = fill_row_keys fx f \<union> keys_of_fills fx fs"
  by (simp_all add: keys_of_fills_def)





section \<open>Properties\<close>






end
