(* ===== verification/Polling.thy ===== *)
theory Polling
  imports Vendor
begin

text \<open>
  The life cycle the polling adapters share: \<open>app/adapters/futu.py\<close>, \<open>longbridge.py\<close> and \<open>tiger.py\<close> each
  have their own copy of start, connect, disconnect, the poll loop and the reconnect loop. What is
  the same text in each is written once, over the adapter's own \<open>connect\<close>; every adapter then names
  its copy. An attempt to connect is one step here and its outcome a parameter: this is the life of an
  adapter as far as no attempt is interrupted, which serves the rows and the schedule. \<open>PollFlow\<close>
  cuts the attempt at its awaits and proves that an uninterrupted one is the step taken here. Which
  clients and contexts an attempt opens and closes is the matter of \<open>Clients\<close>.
\<close>

datatype poll_pc = NoTask | Created | Asleep nat

text \<open>An exception of the adapter's configuration class, which is not retried, or another one.\<close>

datatype failure = ConfigFailure | OtherFailure

record PollAdapter =
  pa_state :: ConnectionState
  pa_polling :: bool
  pa_loop :: poll_pc
  pa_backoff :: "rat option"
  pa_live :: "LivePositions option"
  pa_interval_positive :: bool

definition adapter_new :: "LivePositions option \<Rightarrow> bool \<Rightarrow> PollAdapter" where
  "adapter_new live interval_positive =
     \<lparr>pa_state = DISCONNECTED, pa_polling = False, pa_loop = NoTask, pa_backoff = None, pa_live = live,
      pa_interval_positive = interval_positive\<rparr>"

definition stop_reconnecting :: "PollAdapter \<Rightarrow> PollAdapter" where
  "stop_reconnecting s = s\<lparr>pa_loop := NoTask, pa_backoff := None\<rparr>"

definition stop_polling :: "PollAdapter \<Rightarrow> PollAdapter" where
  "stop_polling s = s\<lparr>pa_polling := False\<rparr>"

definition poll_disconnect :: "PollAdapter \<Rightarrow> PollAdapter" where
  "poll_disconnect s = (stop_polling (stop_reconnecting s))\<lparr>pa_state := DISCONNECTED\<rparr>"

definition enter_reconnecting :: "rat list \<Rightarrow> PollAdapter \<Rightarrow> PollAdapter" where
  "enter_reconnecting delays s =
     (if pa_state s = RECONNECTING then s
      else if delays = [] then s\<lparr>pa_state := DISCONNECTED\<rparr>
      else s\<lparr>pa_state := RECONNECTING, pa_loop := (if pa_loop s = NoTask then Created else pa_loop s)\<rparr>)"

definition publish :: "string \<Rightarrow> Position list \<Rightarrow> PollAdapter \<Rightarrow> PollAdapter" where
  "publish b ps s = s\<lparr>pa_live := map_option (\<lambda>l. replace_broker l b ps) (pa_live s)\<rparr>"

definition start_poll_task :: "PollAdapter \<Rightarrow> PollAdapter" where
  "start_poll_task s = s\<lparr>pa_polling := (pa_live s \<noteq> None \<and> pa_interval_positive s)\<rparr>"

text \<open>\<open>start\<close> as one step: the start of an adapter that nothing else touches until it returns. A second
  start may overlap it in the program; \<open>start_moves\<close> of \<open>PollFlow\<close> has that.\<close>

type_synonym 'a connect = "bool \<Rightarrow> 'a \<Rightarrow> PollAdapter \<Rightarrow> PollAdapter \<times> failure option"

definition poll_start :: "(PollAdapter \<Rightarrow> PollAdapter) \<Rightarrow> 'a connect \<Rightarrow> 'a \<Rightarrow> PollAdapter \<Rightarrow> PollAdapter" where
  "poll_start enter connect a s =
     (case connect False a s of
        (s1, None) \<Rightarrow> s1
      | (s1, Some ConfigFailure) \<Rightarrow> s1\<lparr>pa_state := DISCONNECTED, pa_backoff := None\<rparr>
      | (s1, Some OtherFailure) \<Rightarrow> enter s1)"

text \<open>The head of the reconnect loop for attempt \<open>i\<close>, counted from 0, and the attempt itself.\<close>

definition reconnect_head :: "rat list \<Rightarrow> nat \<Rightarrow> PollAdapter \<Rightarrow> PollAdapter" where
  "reconnect_head delays i s =
     (if i < length delays then s\<lparr>pa_loop := Asleep i, pa_backoff := Some (delays ! i)\<rparr>
      else s\<lparr>pa_loop := NoTask, pa_state := DISCONNECTED, pa_backoff := None\<rparr>)"

definition reconnect_wake :: "rat list \<Rightarrow> 'a connect \<Rightarrow> nat \<Rightarrow> 'a \<Rightarrow> PollAdapter \<Rightarrow> PollAdapter" where
  "reconnect_wake delays connect i a s =
     (if pa_state s = CONNECTED then s\<lparr>pa_loop := NoTask\<rparr>
      else (case connect True a s of
        (s1, None) \<Rightarrow> s1\<lparr>pa_loop := NoTask, pa_backoff := None\<rparr>
      | (s1, Some ConfigFailure) \<Rightarrow>
          s1\<lparr>pa_loop := NoTask, pa_state := DISCONNECTED, pa_backoff := None\<rparr>
      | (s1, Some OtherFailure) \<Rightarrow> reconnect_head delays (Suc i) (s1\<lparr>pa_state := RECONNECTING\<rparr>)))"

definition refresh_live ::
    "(PollAdapter \<Rightarrow> PollAdapter) \<Rightarrow> string \<Rightarrow> Position list option \<Rightarrow> PollAdapter \<Rightarrow> PollAdapter \<times> bool" where
  "refresh_live enter b fetched s =
     (if pa_live s = None then (s, True)
      else (case fetched of
        None \<Rightarrow> (enter s, False)
      | Some ps \<Rightarrow> (publish b ps s, True)))"

text \<open>One turn of the poll loop; \<open>None\<close> is a fetch that raised.\<close>

definition poll_turn ::
    "(PollAdapter \<Rightarrow> PollAdapter) \<Rightarrow> string \<Rightarrow> Position list option \<Rightarrow> PollAdapter \<Rightarrow> PollAdapter" where
  "poll_turn enter b fetched s =
     (case refresh_live enter b fetched s of
        (s1, True) \<Rightarrow> s1
      | (s1, False) \<Rightarrow> if pa_state s1 = CONNECTED then s1 else s1\<lparr>pa_polling := False\<rparr>)"

section \<open>The three connects\<close>

text \<open>Longbridge and Tiger: building the clients, then one fetch decides.\<close>

datatype attempt = SetupFails failure | FetchFails failure | Fetched "Position list"

definition fetch_connect :: "string \<Rightarrow> attempt connect" where
  "fetch_connect b in_loop a s =
     (let s1 = stop_polling (if in_loop then s else stop_reconnecting s)
      in case a of
           SetupFails e \<Rightarrow> (s1, Some e)
         | FetchFails e \<Rightarrow> (s1\<lparr>pa_state := DISCONNECTED\<rparr>, Some e)
         | Fetched ps \<Rightarrow>
             (start_poll_task (publish b ps (s1\<lparr>pa_state := CONNECTED, pa_backoff := None\<rparr>)), None))"

definition longbridge_connect :: "attempt connect" where
  "longbridge_connect = fetch_connect ''Longbridge''"

definition tiger_connect :: "attempt connect" where
  "tiger_connect = fetch_connect ''Tiger''"

text \<open>Futu counts as connected once its accounts are loaded; the first refresh may then fail, and
  enters the reconnect loop before \<open>connect\<close> itself gives up. As one step this leaves out the time of
  that refresh, CONNECTED without a poll task; \<open>futu_advance\<close> of \<open>PollFlow\<close> has it.\<close>

datatype futu_attempt =
    FutuSetupFails failure
  | FutuLoadFails failure
  | FutuLoaded "failure + Position list"

definition futu_connect :: "rat list \<Rightarrow> futu_attempt connect" where
  "futu_connect delays in_loop a s =
     (let s1 = stop_polling (if in_loop then s else stop_reconnecting s)
      in case a of
           FutuSetupFails e \<Rightarrow> (s1, Some e)
         | FutuLoadFails e \<Rightarrow> (s1\<lparr>pa_state := DISCONNECTED\<rparr>, Some e)
         | FutuLoaded fetched \<Rightarrow>
             (let s2 = s1\<lparr>pa_state := CONNECTED, pa_backoff := None\<rparr>
              in case (pa_live s2, fetched) of
                   (None, _) \<Rightarrow> (start_poll_task s2, None)
                 | (Some l, Inr ps) \<Rightarrow> (start_poll_task (publish ''Futu'' ps s2), None)
                 | (Some l, Inl e) \<Rightarrow>
                     ((enter_reconnecting delays s2)\<lparr>pa_state := DISCONNECTED\<rparr>, Some e)))"

text \<open>The adapters' own copies of the shared text. With an empty schedule Tiger also clears the delay.\<close>

definition tiger_enter_reconnecting :: "rat list \<Rightarrow> PollAdapter \<Rightarrow> PollAdapter" where
  "tiger_enter_reconnecting delays s =
     (if pa_state s = RECONNECTING then s
      else if delays = [] then s\<lparr>pa_state := DISCONNECTED, pa_backoff := None\<rparr>
      else s\<lparr>pa_state := RECONNECTING, pa_loop := (if pa_loop s = NoTask then Created else pa_loop s)\<rparr>)"

definition tiger_start :: "rat list \<Rightarrow> attempt \<Rightarrow> PollAdapter \<Rightarrow> PollAdapter" where
  "tiger_start delays = poll_start (tiger_enter_reconnecting delays) tiger_connect"

definition tiger_reconnect_loop :: "rat list \<Rightarrow> nat \<Rightarrow> attempt \<Rightarrow> PollAdapter \<Rightarrow> PollAdapter" where
  "tiger_reconnect_loop delays = reconnect_wake delays tiger_connect"

definition tiger_poll_loop :: "rat list \<Rightarrow> Position list option \<Rightarrow> PollAdapter \<Rightarrow> PollAdapter" where
  "tiger_poll_loop delays = poll_turn (tiger_enter_reconnecting delays) ''Tiger''"

definition longbridge_start :: "rat list \<Rightarrow> attempt \<Rightarrow> PollAdapter \<Rightarrow> PollAdapter" where
  "longbridge_start delays = poll_start (enter_reconnecting delays) longbridge_connect"

definition longbridge_reconnect_loop :: "rat list \<Rightarrow> nat \<Rightarrow> attempt \<Rightarrow> PollAdapter \<Rightarrow> PollAdapter" where
  "longbridge_reconnect_loop delays = reconnect_wake delays longbridge_connect"

definition longbridge_poll_loop :: "rat list \<Rightarrow> Position list option \<Rightarrow> PollAdapter \<Rightarrow> PollAdapter" where
  "longbridge_poll_loop delays = poll_turn (enter_reconnecting delays) ''Longbridge''"

definition futu_start :: "rat list \<Rightarrow> futu_attempt \<Rightarrow> PollAdapter \<Rightarrow> PollAdapter" where
  "futu_start delays = poll_start (enter_reconnecting delays) (futu_connect delays)"

definition futu_reconnect_loop :: "rat list \<Rightarrow> nat \<Rightarrow> futu_attempt \<Rightarrow> PollAdapter \<Rightarrow> PollAdapter" where
  "futu_reconnect_loop delays = reconnect_wake delays (futu_connect delays)"

text \<open>Futu's refresh also returns at once when it is not connected.\<close>

definition futu_poll_loop :: "rat list \<Rightarrow> Position list option \<Rightarrow> PollAdapter \<Rightarrow> PollAdapter" where
  "futu_poll_loop delays fetched s =
     (if pa_live s \<noteq> None \<and> pa_state s \<noteq> CONNECTED then s
      else poll_turn (enter_reconnecting delays) ''Futu'' fetched s)"

section \<open>The life of an adapter\<close>

text \<open>Its events; callers start only a disconnected adapter.\<close>

datatype 'a life_event = Start 'a | Disconnect | LoopBegins | LoopWakes 'a | Polls "Position list option"

type_synonym 'a starter = "'a \<Rightarrow> PollAdapter \<Rightarrow> PollAdapter"

fun life_step ::
    "rat list \<Rightarrow> 'a starter \<Rightarrow> (nat \<Rightarrow> 'a starter) \<Rightarrow> (Position list option \<Rightarrow> PollAdapter \<Rightarrow> PollAdapter) \<Rightarrow>
       PollAdapter \<Rightarrow> 'a life_event \<Rightarrow> PollAdapter" where
  "life_step delays start wake poll s (Start a) = (if pa_state s = DISCONNECTED then start a s else s)"
| "life_step delays start wake poll s Disconnect = poll_disconnect s"
| "life_step delays start wake poll s LoopBegins =
     (if pa_loop s = Created then reconnect_head delays 0 s else s)"
| "life_step delays start wake poll s (LoopWakes a) =
     (case pa_loop s of Asleep i \<Rightarrow> wake i a s | _ \<Rightarrow> s)"
| "life_step delays start wake poll s (Polls fetched) = (if pa_polling s then poll fetched s else s)"

text \<open>What holds at all times: an adapter that says it reconnects has a task at work and shows that
  task's delay; a connected one polls, if it has a store and an interval; nothing polls or shows a
  delay otherwise.\<close>

definition pa_ok :: "rat list \<Rightarrow> PollAdapter \<Rightarrow> bool" where
  "pa_ok delays s =
     ((pa_state s = RECONNECTING \<longrightarrow> pa_loop s \<noteq> NoTask)
      \<and> (pa_state s = CONNECTED \<longrightarrow> pa_loop s = NoTask)
      \<and> pa_polling s = (pa_state s = CONNECTED \<and> pa_live s \<noteq> None \<and> pa_interval_positive s)
      \<and> pa_backoff s = (case pa_loop s of Asleep i \<Rightarrow> Some (delays ! i) | _ \<Rightarrow> None)
      \<and> (case pa_loop s of Asleep i \<Rightarrow> i < length delays | _ \<Rightarrow> True))"

locale polling_life =
  fixes delays :: "rat list"
    and start :: "'a starter"
    and wake :: "nat \<Rightarrow> 'a starter"
    and poll :: "Position list option \<Rightarrow> PollAdapter \<Rightarrow> PollAdapter"
  assumes start_ok: "pa_ok delays s \<Longrightarrow> pa_state s = DISCONNECTED \<Longrightarrow> pa_ok delays (start a s)"
    and wake_ok: "pa_ok delays s \<Longrightarrow> pa_loop s = Asleep i \<Longrightarrow> pa_ok delays (wake i a s)"
    and poll_ok: "pa_ok delays s \<Longrightarrow> pa_polling s \<Longrightarrow> pa_ok delays (poll fetched s)"
begin

lemma step_ok:
  assumes "pa_ok delays s"
  shows "pa_ok delays (life_step delays start wake poll s e)"
proof (cases e)
  case (LoopWakes a)
  with assms show ?thesis by (cases "pa_loop s") (auto intro: wake_ok)
next
  case LoopBegins
  with assms show ?thesis by (auto simp: pa_ok_def reconnect_head_def)
next
  case Disconnect
  then show ?thesis by (simp add: poll_disconnect_def stop_polling_def stop_reconnecting_def pa_ok_def)
qed (use assms in \<open>simp_all add: start_ok poll_ok\<close>)

lemma life_ok: "pa_ok delays s \<Longrightarrow> pa_ok delays (foldl (life_step delays start wake poll) s es)"
  by (induction es arbitrary: s) (auto intro: step_ok)

end

lemma pa_ok_new [simp]: "pa_ok delays (adapter_new live interval)"
  by (simp add: pa_ok_def adapter_new_def)

text \<open>The laws the shared text needs of a connect and of the way into the reconnect loop.\<close>

locale polling_connect =
  fixes delays :: "rat list"
    and enter :: "PollAdapter \<Rightarrow> PollAdapter"
    and connect :: "'a connect"
  assumes connects: "connect in_loop a s = (s', None) \<Longrightarrow>
      pa_state s' = CONNECTED \<and> pa_backoff s' = None
      \<and> pa_loop s' = (if in_loop then pa_loop s else NoTask)
      \<and> pa_polling s' = (pa_live s' \<noteq> None \<and> pa_interval_positive s')"
    and fails: "connect in_loop a s = (s', Some e) \<Longrightarrow> pa_state s \<noteq> CONNECTED \<Longrightarrow>
      \<not> pa_polling s' \<and> pa_state s' \<noteq> CONNECTED
      \<and> (in_loop \<longrightarrow> pa_loop s \<noteq> NoTask \<longrightarrow> pa_loop s' = pa_loop s)
      \<and> (\<not> in_loop \<longrightarrow> pa_backoff s' = None \<and> pa_loop s' \<in> {NoTask, Created}
           \<and> (pa_state s = DISCONNECTED \<longrightarrow> pa_state s' = DISCONNECTED))"
    and enters: "pa_state s = RECONNECTING \<Longrightarrow> enter s = s"
      "pa_state s \<noteq> RECONNECTING \<Longrightarrow> delays \<noteq> [] \<Longrightarrow>
        enter s = s\<lparr>pa_state := RECONNECTING, pa_loop := (if pa_loop s = NoTask then Created else pa_loop s)\<rparr>"
      "pa_state s \<noteq> RECONNECTING \<Longrightarrow> delays = [] \<Longrightarrow> pa_backoff s = None \<Longrightarrow> enter s = s\<lparr>pa_state := DISCONNECTED\<rparr>"
begin

lemma start_ok:
  assumes "pa_ok delays s" "pa_state s = DISCONNECTED"
  shows "pa_ok delays (poll_start enter connect a s)"
proof (cases "connect False a s")
  case (Pair s1 r)
  show ?thesis
  proof (cases r)
    case None
    with connects [of False a s s1] Pair show ?thesis by (simp add: poll_start_def pa_ok_def)
  next
    case (Some e)
    note f = fails [of False a s s1 e]
    have s1: "\<not> pa_polling s1" "pa_state s1 = DISCONNECTED" "pa_backoff s1 = None" "pa_loop s1 \<in> {NoTask, Created}"
      using f Pair Some assms(2) by auto
    then show ?thesis
      using Pair Some enters(2,3) [of s1]
      by (cases e; cases "delays = []") (auto simp: poll_start_def pa_ok_def)
  qed
qed

lemma wake_ok:
  assumes "pa_ok delays s" "pa_loop s = Asleep i"
  shows "pa_ok delays (reconnect_wake delays connect i a s)"
proof (cases "connect True a s")
  case (Pair s1 r)
  have state: "pa_state s \<noteq> CONNECTED" using assms by (auto simp: pa_ok_def)
  show ?thesis
  proof (cases r)
    case None
    with connects [of True a s s1] Pair state show ?thesis by (simp add: reconnect_wake_def pa_ok_def)
  next
    case (Some e)
    have "\<not> pa_polling s1" using fails [of True a s s1 e] Pair Some state by simp
    with Pair Some state show ?thesis
      by (cases e) (auto simp: reconnect_wake_def pa_ok_def reconnect_head_def)
  qed
qed

lemma poll_ok:
  assumes "pa_ok delays s" "pa_polling s"
  shows "pa_ok delays (poll_turn enter b fetched s)"
proof -
  have s: "pa_state s = CONNECTED" "pa_loop s = NoTask" "pa_backoff s = None" "pa_live s \<noteq> None"
    using assms by (auto simp: pa_ok_def)
  then show ?thesis
    using assms enters(2,3) [of s]
    by (cases fetched; cases "delays = []")
      (auto simp: poll_turn_def refresh_live_def publish_def pa_ok_def)
qed

end

lemmas connect_defs = fetch_connect_def futu_connect_def stop_polling_def stop_reconnecting_def
  start_poll_task_def publish_def enter_reconnecting_def Let_def

interpretation longbridge: polling_connect delays "enter_reconnecting delays" longbridge_connect for delays
  unfolding longbridge_connect_def
  by unfold_locales (auto simp: connect_defs split: attempt.splits if_splits)

interpretation tiger: polling_connect delays "tiger_enter_reconnecting delays" tiger_connect for delays
  unfolding tiger_connect_def
  by unfold_locales (auto simp: connect_defs tiger_enter_reconnecting_def split: attempt.splits if_splits)

interpretation futu: polling_connect delays "enter_reconnecting delays" "futu_connect delays" for delays
  by unfold_locales
    (auto simp: connect_defs split: futu_attempt.splits if_splits option.splits sum.splits)

interpretation longbridge_life: polling_life delays "longbridge_start delays"
  "longbridge_reconnect_loop delays" "longbridge_poll_loop delays" for delays
  unfolding longbridge_start_def longbridge_reconnect_loop_def longbridge_poll_loop_def
  by unfold_locales (auto intro: longbridge.start_ok longbridge.wake_ok longbridge.poll_ok)

interpretation tiger_life: polling_life delays "tiger_start delays"
  "tiger_reconnect_loop delays" "tiger_poll_loop delays" for delays
  unfolding tiger_start_def tiger_reconnect_loop_def tiger_poll_loop_def
  by unfold_locales (auto intro: tiger.start_ok tiger.wake_ok tiger.poll_ok)

interpretation futu_life: polling_life delays "futu_start delays"
  "futu_reconnect_loop delays" "futu_poll_loop delays" for delays
  unfolding futu_start_def futu_reconnect_loop_def futu_poll_loop_def
  by unfold_locales (auto intro: futu.start_ok futu.wake_ok futu.poll_ok)

definition tiger_life_of :: "rat list \<Rightarrow> PollAdapter \<Rightarrow> attempt life_event list \<Rightarrow> PollAdapter" where
  "tiger_life_of delays =
     foldl (life_step delays (tiger_start delays) (tiger_reconnect_loop delays) (tiger_poll_loop delays))"

definition longbridge_life_of :: "rat list \<Rightarrow> PollAdapter \<Rightarrow> attempt life_event list \<Rightarrow> PollAdapter" where
  "longbridge_life_of delays =
     foldl (life_step delays (longbridge_start delays) (longbridge_reconnect_loop delays)
       (longbridge_poll_loop delays))"

definition futu_life_of :: "rat list \<Rightarrow> PollAdapter \<Rightarrow> futu_attempt life_event list \<Rightarrow> PollAdapter" where
  "futu_life_of delays =
     foldl (life_step delays (futu_start delays) (futu_reconnect_loop delays) (futu_poll_loop delays))"

definition transient :: "attempt \<Rightarrow> bool" where
  "transient a = (a = SetupFails OtherFailure \<or> a = FetchFails OtherFailure)"

lemma head_after_failure:
  assumes "transient a" "pa_state s = RECONNECTING"
  shows "reconnect_wake delays (fetch_connect b) i a s
    = reconnect_head delays (Suc i) (s\<lparr>pa_polling := False, pa_state := RECONNECTING\<rparr>)"
  using assms
  by (auto simp: transient_def reconnect_wake_def fetch_connect_def stop_polling_def)

lemma failures_in_a_row:
  assumes "list_all transient as" "pa_state s = RECONNECTING" "pa_loop s = Asleep i"
    and "pa_backoff s = Some (delays ! i)" "i < length delays"
    and s': "s' = foldl (life_step delays start (reconnect_wake delays (fetch_connect b)) poll) s (map LoopWakes as)"
  shows "if i + length as < length delays
     then pa_state s' = RECONNECTING \<and> pa_loop s' = Asleep (i + length as)
       \<and> pa_backoff s' = Some (delays ! (i + length as)) \<and> pa_live s' = pa_live s
     else pa_state s' = DISCONNECTED \<and> pa_loop s' = NoTask \<and> pa_backoff s' = None \<and> pa_live s' = pa_live s"
  using assms(1-5) unfolding s'
proof (induction as arbitrary: s i)
  case (Cons a as)
  let ?s1 = "reconnect_head delays (Suc i) (s\<lparr>pa_polling := False, pa_state := RECONNECTING\<rparr>)"
  have step: "life_step delays start (reconnect_wake delays (fetch_connect b)) poll s (LoopWakes a) = ?s1"
    using Cons.prems by (simp add: head_after_failure)
  show ?case
  proof (cases "Suc i < length delays")
    case True
    have "pa_state ?s1 = RECONNECTING" "pa_loop ?s1 = Asleep (Suc i)" "pa_backoff ?s1 = Some (delays ! Suc i)"
      "pa_live ?s1 = pa_live s"
      using True by (simp_all add: reconnect_head_def)
    with Cons.IH [of ?s1 "Suc i"] Cons.prems True step show ?thesis by simp
  next
    case False
    have idle: "foldl (life_step delays start (reconnect_wake delays (fetch_connect b)) poll) t (map LoopWakes as) = t"
      if "pa_loop t = NoTask" for t
      using that by (induction as) simp_all
    have "pa_loop ?s1 = NoTask" using False by (simp add: reconnect_head_def)
    from idle [OF this] step False show ?thesis by (simp add: reconnect_head_def)
  qed
qed simp

lemma idle_run:
  assumes "pa_state s = DISCONNECTED" "pa_loop s = NoTask" "pa_backoff s = None" "\<not> pa_polling s"
    and "list_all (\<lambda>e. case e of Start a \<Rightarrow> False | _ \<Rightarrow> True) es"
  shows "foldl (life_step delays start wake poll) s es = s"
  using assms(5)
proof (induction es)
  case (Cons e es)
  have "life_step delays start wake poll s e = s"
    using Cons.prems assms(1-4)
    by (cases e) (simp_all add: poll_disconnect_def stop_polling_def stop_reconnecting_def)
  with Cons show ?case by simp
qed simp

section \<open>Properties\<close>

text \<open>Between attempts a polling adapter is consistent: in every run of Tiger, Longbridge and Futu whose
  attempts are not interrupted, RECONNECTING means that a reconnect task is at work, CONNECTED that
  the rows are polled and no reconnect task is left, and the delay shown is that of the attempt the
  task waits for and is shown only then. \<open>PollFlow\<close> has the same inside an attempt.\<close>
theorem whole_attempts_consistent:
  "pa_ok delays (tiger_life_of delays (adapter_new live interval) es)
   \<and> pa_ok delays (longbridge_life_of delays (adapter_new live interval) es)
   \<and> pa_ok delays (futu_life_of delays (adapter_new live interval) fes)"
  unfolding tiger_life_of_def longbridge_life_of_def futu_life_of_def
  by (intro conjI tiger_life.life_ok longbridge_life.life_ok futu_life.life_ok pa_ok_new)

text \<open>C36. The backoff schedule is followed exactly: after as many failed attempts in a row as there are
  delays the adapter is DISCONNECTED with no task and no delay shown, not earlier and not later;
  before that it waits with the delay of the next attempt, and its rows stay as they were.\<close>
theorem reconnect_schedule_exact:
  assumes "pa_state s = RECONNECTING" "pa_loop s = Created" "list_all transient as" "delays \<noteq> []"
    and s': "s' = tiger_life_of delays s (LoopBegins # map LoopWakes as)
      \<or> s' = longbridge_life_of delays s (LoopBegins # map LoopWakes as)"
  shows "(if length as < length delays
     then pa_state s' = RECONNECTING \<and> pa_loop s' = Asleep (length as)
       \<and> pa_backoff s' = Some (delays ! length as)
     else pa_state s' = DISCONNECTED \<and> pa_loop s' = NoTask \<and> pa_backoff s' = None)
    \<and> pa_live s' = pa_live s"
proof -
  let ?h = "reconnect_head delays 0 s"
  have h: "pa_state ?h = RECONNECTING" "pa_loop ?h = Asleep 0" "pa_backoff ?h = Some (delays ! 0)"
    "pa_live ?h = pa_live s" "0 < length delays"
    using assms(1,4) by (simp_all add: reconnect_head_def)
  have "s' = foldl (life_step delays (tiger_start delays) (reconnect_wake delays (fetch_connect ''Tiger'')) (tiger_poll_loop delays)) ?h (map LoopWakes as)
    \<or> s' = foldl (life_step delays (longbridge_start delays) (reconnect_wake delays (fetch_connect ''Longbridge'')) (longbridge_poll_loop delays)) ?h (map LoopWakes as)"
    using s' assms(2) by (simp add: tiger_life_of_def longbridge_life_of_def tiger_reconnect_loop_def
        longbridge_reconnect_loop_def tiger_connect_def longbridge_connect_def)
  then show ?thesis
  proof
    assume "s' = foldl (life_step delays (tiger_start delays) (reconnect_wake delays (fetch_connect ''Tiger'')) (tiger_poll_loop delays)) ?h (map LoopWakes as)"
    from failures_in_a_row [OF assms(3) h(1-3,5) this] h(4) show ?thesis by simp
  next
    assume "s' = foldl (life_step delays (longbridge_start delays) (reconnect_wake delays (fetch_connect ''Longbridge'')) (longbridge_poll_loop delays)) ?h (map LoopWakes as)"
    from failures_in_a_row [OF assms(3) h(1-3,5) this] h(4) show ?thesis by simp
  qed
qed

theorem reconnect_schedule_exact_witness:
  "pa_state (tiger_life_of [5, 15] ((adapter_new None True)\<lparr>pa_state := RECONNECTING, pa_loop := Created\<rparr>)
     (LoopBegins # map LoopWakes [FetchFails OtherFailure, SetupFails OtherFailure])) = DISCONNECTED"
  using reconnect_schedule_exact [OF _ _ _ _ disjI1 [OF refl],
      of "(adapter_new None True)\<lparr>pa_state := RECONNECTING, pa_loop := Created\<rparr>"
        "[FetchFails OtherFailure, SetupFails OtherFailure]" "[5, 15]"]
  by (simp add: transient_def)

text \<open>A poll replaces exactly the adapter's own rows by the fetched ones and touches no other
  broker's; a poll that fails leaves every row as it was, unmarked, and the adapter goes over to
  reconnecting.\<close>
theorem poll_publishes_own_rows:
  assumes "pa_ok delays s" "pa_polling s" "pa_live s = Some l" "live_wf l" "delays \<noteq> []"
    and s': "(b, s') \<in> {(''Tiger'', tiger_poll_loop delays fetched s),
      (''Longbridge'', longbridge_poll_loop delays fetched s), (''Futu'', futu_poll_loop delays fetched s)}"
  shows "case fetched of
      None \<Rightarrow> pa_live s' = Some l \<and> pa_state s' = RECONNECTING
    | Some ps \<Rightarrow> pa_state s' = CONNECTED \<and> (\<exists>l'. pa_live s' = Some l'
        \<and> row_of l' = (\<lambda>k. case map_of (rev (keyed ps)) k of Some p \<Rightarrow> Some p
            | None \<Rightarrow> if fst k = b then None else row_of l k))"
proof -
  have st: "pa_state s = CONNECTED" using assms(1,2) by (simp add: pa_ok_def)
  have enter: "pa_state (enter_reconnecting delays s) = RECONNECTING" "pa_live (enter_reconnecting delays s) = Some l"
    "tiger_enter_reconnecting delays s = enter_reconnecting delays s"
    using st assms(3,5) by (simp_all add: enter_reconnecting_def tiger_enter_reconnecting_def)
  have "s' = poll_turn (enter_reconnecting delays) b fetched s \<or> s' = poll_turn (tiger_enter_reconnecting delays) b fetched s"
    using s' st by (auto simp: tiger_poll_loop_def longbridge_poll_loop_def futu_poll_loop_def)
  with enter have "s' = (case fetched of None \<Rightarrow> (enter_reconnecting delays s)\<lparr>pa_polling := False\<rparr> | Some ps \<Rightarrow> publish b ps s)"
    using assms(3) by (cases fetched) (auto simp: poll_turn_def refresh_live_def)
  with enter st assms(3,4) show ?thesis
    by (cases fetched) (auto simp: publish_def lp.row_replace)
qed

definition demo_polling :: PollAdapter where
  "demo_polling = (adapter_new (Some lp_new) True)\<lparr>pa_state := CONNECTED, pa_polling := True\<rparr>"

theorem poll_publishes_own_rows_witness:
  "pa_state (tiger_poll_loop [5] None demo_polling) = RECONNECTING
   \<and> pa_live (tiger_poll_loop [5] None demo_polling) = Some lp_new"
proof -
  have "pa_ok [5] demo_polling" "pa_polling demo_polling" "pa_live demo_polling = Some lp_new"
    by (simp_all add: demo_polling_def adapter_new_def pa_ok_def)
  from poll_publishes_own_rows [OF this live_wf_new, of "''Tiger''" "tiger_poll_loop [5] None demo_polling" None]
  show ?thesis by simp
qed

text \<open>A configuration error disables Tiger and Longbridge: after a start that fails with one, nothing
  but another start ever changes the adapter.\<close>
theorem config_error_disables:
  assumes "pa_state s = DISCONNECTED" "a = SetupFails ConfigFailure \<or> a = FetchFails ConfigFailure"
    and "list_all (\<lambda>e. case e of Start a \<Rightarrow> False | _ \<Rightarrow> True) es"
  shows "tiger_life_of delays (tiger_start delays a s) es = tiger_start delays a s
    \<and> longbridge_life_of delays (longbridge_start delays a s) es = longbridge_start delays a s
    \<and> pa_state (tiger_start delays a s) = DISCONNECTED \<and> pa_state (longbridge_start delays a s) = DISCONNECTED"
proof -
  let ?t = "tiger_start delays a s" and ?l = "longbridge_start delays a s"
  have t: "pa_state ?t = DISCONNECTED" "pa_loop ?t = NoTask" "pa_backoff ?t = None" "\<not> pa_polling ?t"
    using assms(1,2) by (auto simp: tiger_start_def tiger_connect_def poll_start_def connect_defs)
  have l: "pa_state ?l = DISCONNECTED" "pa_loop ?l = NoTask" "pa_backoff ?l = None" "\<not> pa_polling ?l"
    using assms(1,2) by (auto simp: longbridge_start_def longbridge_connect_def poll_start_def connect_defs)
  show ?thesis
    using t(1) l(1) idle_run [OF t assms(3)] idle_run [OF l assms(3)]
    by (simp add: tiger_life_of_def longbridge_life_of_def)
qed

theorem config_error_disables_witness:
  "tiger_life_of [5] (tiger_start [5] (SetupFails ConfigFailure) (adapter_new None True)) [LoopBegins, Disconnect]
     = tiger_start [5] (SetupFails ConfigFailure) (adapter_new None True)"
  by (rule conjunct1 [OF config_error_disables]) (simp_all add: adapter_new_def)

text \<open>Futu's disabled adapter does not stay disabled: a ValueError from the first refresh makes the
  start report DISCONNECTED and the adapter disabled, but the reconnect task that refresh created is
  still there, shows a delay on a disconnected adapter, and connects it again.\<close>
theorem futu_disabled_reconnects:
  defines "s1 \<equiv> futu_life_of [5] (adapter_new (Some lp_new) True) [Start (FutuLoaded (Inl ConfigFailure))]"
  shows "pa_state s1 = DISCONNECTED \<and> pa_loop s1 = Created
    \<and> pa_state (futu_life_of [5] s1 [LoopBegins]) = DISCONNECTED
    \<and> pa_backoff (futu_life_of [5] s1 [LoopBegins]) = Some 5
    \<and> pa_state (futu_life_of [5] s1 [LoopBegins, LoopWakes (FutuLoaded (Inr []))]) = CONNECTED"
  unfolding s1_def
  by (simp add: futu_life_of_def futu_start_def futu_reconnect_loop_def poll_start_def reconnect_wake_def
      reconnect_head_def adapter_new_def connect_defs)

end
