(* ===== verification/Futu.thy ===== *)
theory Futu
  imports Polling
begin

text \<open>
  \<open>app/adapters/futu.py\<close>: the configuration, the contexts and accounts of a connection, the mapping
  of position and account rows, and the two fetches the dashboard makes. The SDK is a parameter: its
  enumerations, the return code that means success, and what a context answers. A context is known
  by its identity. A row is a dictionary of values; \<open>rt\<close> gives the text of a float, list or enum member.
\<close>

section \<open>Values of the SDK\<close>

type_synonym row = "(string, pyval) dict"

definition row_get :: "row \<Rightarrow> string \<Rightarrow> pyval" where
  "row_get r k = (case map_of r k of None \<Rightarrow> VNone | Some v \<Rightarrow> v)"

datatype VendorData = NoData | Frame "row list" | Items "row list" | OtherData

definition records_of :: "VendorData \<Rightarrow> row list" where
  "records_of d = (case d of NoData \<Rightarrow> [] | Frame rows \<Rightarrow> rows | Items rows \<Rightarrow> rows | OtherData \<Rightarrow> [])"

record FutuSdk =
  sdk_enums :: "string \<Rightarrow> (string \<Rightarrow> pyval option) option"
  sdk_ret_ok :: "int option"

definition enum_value :: "FutuSdk \<Rightarrow> string \<Rightarrow> string \<Rightarrow> bool \<Rightarrow> pyval result" where
  "enum_value sdk container name strict =
     (case sdk_enums sdk container of
        None \<Rightarrow> Inr (VStr name)
      | Some members \<Rightarrow>
          (case members name of
             Some v \<Rightarrow> Inr v
           | None \<Rightarrow> if strict then Inl (ValueError ''unknown Futu enum value'') else Inr (VStr name)))"

definition optional_enum_value :: "FutuSdk \<Rightarrow> string \<Rightarrow> string \<Rightarrow> pyval option" where
  "optional_enum_value sdk container name =
     (case sdk_enums sdk container of None \<Rightarrow> None | Some members \<Rightarrow> members name)"

definition is_ret_ok :: "FutuSdk \<Rightarrow> int \<Rightarrow> bool" where
  "is_ret_ok sdk ret = (ret = (case sdk_ret_ok sdk of None \<Rightarrow> 0 | Some ok \<Rightarrow> ok))"

definition first_float :: "row \<Rightarrow> string list \<Rightarrow> fl" where
  "first_float r ks = first_number (map (row_get r) ks)"

text \<open>\<open>str(row.get(k) or d)\<close>.\<close>

definition row_text :: "(pyval \<Rightarrow> string) \<Rightarrow> row \<Rightarrow> string \<Rightarrow> string \<Rightarrow> string" where
  "row_text rt r k d = (if py_truthy (row_get r k) then py_str rt (row_get r k) else d)"

definition normalise_enum_text :: "(pyval \<Rightarrow> string) \<Rightarrow> pyval \<Rightarrow> string" where
  "normalise_enum_text rt v =
     (case v of
        VNone \<Rightarrow> []
      | VEnum name \<Rightarrow> if name \<noteq> [] then py_upper name else py_upper (py_strip (py_str rt v))
      | _ \<Rightarrow> py_upper (py_strip (py_str rt v)))"

definition account_is_usable :: "(pyval \<Rightarrow> string) \<Rightarrow> row \<Rightarrow> string \<Rightarrow> bool" where
  "account_is_usable rt r trd_env =
     (let env = normalise_enum_text rt (row_get r ''trd_env'')
      in if env \<noteq> [] \<and> env \<noteq> trd_env then False
         else normalise_enum_text rt (row_get r ''acc_status'') \<in> {[], ''ACTIVE''})"

text \<open>\<open>s.strip("[]")\<close>.\<close>

definition strip_brackets :: "string \<Rightarrow> string" where
  "strip_brackets s =
     (let p = (\<lambda>c. c \<in> set ''[]'') in rev (dropWhile p (rev (dropWhile p s))))"

definition account_has_market_authority :: "(pyval \<Rightarrow> string) \<Rightarrow> row \<Rightarrow> string \<Rightarrow> bool" where
  "account_has_market_authority rt r market =
     (let raw = row_get r ''trdmarket_auth''
      in if blank raw then True
         else (let values = (case raw of
                   VStr s \<Rightarrow> map (\<lambda>t. VStr (py_strip t)) (split_on comma (strip_brackets s))
                 | VList xs \<Rightarrow> xs
                 | _ \<Rightarrow> [raw]);
               authorised = map (normalise_enum_text rt) (filter (\<lambda>v. v \<noteq> VNone \<and> v \<noteq> VStr []) values)
           in authorised = [] \<or> market \<in> set authorised))"

definition clean_account_id :: "(pyval \<Rightarrow> string) \<Rightarrow> pyval \<Rightarrow> string" where
  "clean_account_id rt v =
     (case v of
        VNone \<Rightarrow> []
      | VFloat (Fin r) \<Rightarrow> if r = of_int \<lfloor>r\<rfloor> then py_str_int \<lfloor>r\<rfloor> else py_strip (py_str rt v)
      | _ \<Rightarrow> py_strip (py_str rt v))"

section \<open>Symbols\<close>

definition FUTU_EXCHANGE_TO_IB :: "(string, string) dict" where
  "FUTU_EXCHANGE_TO_IB = [
     (''HK'', ''SEHK''), (''US'', ''NYSE''), (''SG'', ''SGX''), (''SH'', ''SSE''),
     (''SZ'', ''SZSE''), (''JP'', ''TSEJ''), (''AU'', ''ASX''), (''CA'', ''TSX'')]"

definition FUTU_SUFFIX :: "(string, string) dict" where
  "FUTU_SUFFIX = [
     (''HK'', ''HK''), (''US'', ''US''), (''SG'', ''SG''), (''SH'', ''SH''),
     (''SZ'', ''SZ''), (''JP'', ''JP''), (''AU'', ''AU''), (''CA'', ''CA'')]"

definition normalise_code :: "string \<Rightarrow> string \<Rightarrow> (string \<times> string \<times> string) result" where
  "normalise_code code market_hint =
     (case (case split_first dot code of Some (p, s) \<Rightarrow> (p, s) | None \<Rightarrow> (market_hint, code)) of
        (prefix_text, raw_symbol) \<Rightarrow>
        (let m = py_upper (if prefix_text \<noteq> [] then prefix_text else market_hint);
             market = (if m = ''CN''
                       then (if take 1 raw_symbol = ''6'' then ''SH'' else ''SZ'') else m)
         in case (map_of FUTU_EXCHANGE_TO_IB market, map_of FUTU_SUFFIX market) of
              (Some exch, Some suffix) \<Rightarrow>
                (let stripped = (if market = ''HK'' then lstrip_zeros raw_symbol else raw_symbol);
                     native = (if stripped \<noteq> [] then stripped else ''0'')
                 in Inr (native, native @ dot # suffix, exch))
            | _ \<Rightarrow> Inl (ValueError ''unknown Futu market'')))"

section \<open>Rows\<close>

definition futu_convert_to_usd :: "rate_lookup \<Rightarrow> string \<Rightarrow> fl \<Rightarrow> fl \<Rightarrow> FxConversion result" where
  "futu_convert_to_usd = convert_to_usd"

definition futu_to_usd :: "rate_lookup \<Rightarrow> fl \<Rightarrow> string \<Rightarrow> fl result" where
  "futu_to_usd = to_usd"

definition futu_price_and_value :: "row \<Rightarrow> fl \<Rightarrow> fl \<times> fl" where
  "futu_price_and_value r qty =
     (let last0 = first_float r [''nominal_price'', ''last_price''];
          mv0 = first_float r [''market_val'', ''market_value''];
          mv = (if mv0 = 0 \<and> last0 \<noteq> 0 then qty * last0 else mv0)
      in (if last0 = 0 \<and> qty \<noteq> 0 then mv / qty else last0, mv))"

definition futu_position_from_row ::
    "(pyval \<Rightarrow> string) \<Rightarrow> rate_lookup \<Rightarrow> string \<Rightarrow> row \<Rightarrow> Position option result" where
  "futu_position_from_row rt fx account r =
     (let code = py_strip (row_text rt r ''code'' []);
          qty = safe_float (row_get r ''qty'')
      in if code = [] \<or> qty = 0 then Inr None
         else (case normalise_code code (row_text rt r ''position_market'' []) of
             Inl e \<Rightarrow> Inr None
           | Inr ident \<Rightarrow>
               (case futu_price_and_value r qty of
                  (last_p, mv) \<Rightarrow>
                  (let c = py_upper (row_text rt r ''currency'' ''USD'');
                       cost = first_float r [''average_cost'', ''cost_price'', ''diluted_cost''];
                       pnl0 = first_float r [''unrealized_pl'', ''pl_val''];
                       pnl = (if pnl0 = 0 \<and> cost \<noteq> 0 \<and> last_p \<noteq> 0 then (last_p - cost) * qty else pnl0)
                   in rbind (stock_row fx ''Futu'' account code ident c (row_text rt r ''stock_name'' code)
                               qty cost last_p mv pnl 0) (\<lambda>p. Inr (Some p))))))"

definition futu_cash_position_from_account_row ::
    "(pyval \<Rightarrow> string) \<Rightarrow> rate_lookup \<Rightarrow> string \<Rightarrow> row \<Rightarrow> Position option result" where
  "futu_cash_position_from_account_row rt fx account r =
     (let c = py_upper (row_text rt r ''currency'' ''USD'');
          qty = first_float r [''cash'', ''us_cash'']
      in if qty = 0 then Inr None
         else rbind (cash_row fx ''Futu'' account c qty) (\<lambda>p. Inr (Some p)))"

definition futu_summary_from_row ::
    "(pyval \<Rightarrow> string) \<Rightarrow> rate_lookup \<Rightarrow> string \<Rightarrow> row \<Rightarrow> AccountSummary result" where
  "futu_summary_from_row rt fx account r =
     (let c = py_upper (row_text rt r ''currency'' ''USD'');
          nlv = first_float r [''total_assets'', ''net_assets''];
          cash = first_float r [''cash'', ''us_cash''];
          power = first_float r [''power'', ''max_power''];
          mv = first_float r [''market_val'', ''securities_assets'']
      in rbind (futu_to_usd fx nlv c) (\<lambda>nlv_usd.
         rbind (futu_to_usd fx cash c) (\<lambda>cash_usd.
         rbind (futu_to_usd fx power c) (\<lambda>power_usd.
         rbind (futu_to_usd fx mv c) (\<lambda>mv_usd.
           Inr \<lparr>as_broker = ''Futu'', as_account_id = account, base_currency = c,
             net_liquidation_usd = nlv_usd, cash_usd = cash_usd, buying_power_usd = power_usd,
             net_liquidation_native = nlv, gross_position_value_usd = mv_usd\<rparr>)))))"

section \<open>Configuration and connection\<close>

record FutuConfig =
  fc_markets :: "string list"
  fc_security_firm :: string
  fc_trd_env :: string
  fc_is_encrypt :: "bool option"
  fc_refresh_cache :: bool

definition futu_config :: "string list \<Rightarrow> string \<Rightarrow> string \<Rightarrow> bool option \<Rightarrow> bool \<Rightarrow> FutuConfig" where
  "futu_config markets firm env encrypt refresh =
     \<lparr>fc_markets = dict_keys (dict_of (map (\<lambda>m. (py_upper (py_strip m), ())) (filter (\<lambda>m. py_strip m \<noteq> []) markets))),
      fc_security_firm = py_upper (py_strip firm), fc_trd_env = py_upper (py_strip env),
      fc_is_encrypt = encrypt, fc_refresh_cache = refresh\<rparr>"

text \<open>The calls of the SDK, with the keywords the adapter builds for each.\<close>

record ContextRequest =
  cr_filter_trdmarket :: pyval
  cr_security_firm :: pyval
  cr_is_encrypt :: "bool option"

record PositionQuery =
  pq_trd_env :: pyval
  pq_acc_id :: int
  pq_refresh_cache :: bool
  pq_position_market :: "pyval option"

record InfoQuery =
  iq_trd_env :: pyval
  iq_acc_id :: int
  iq_currency :: "pyval option"

record FutuApi =
  fa_open :: "ContextRequest \<Rightarrow> nat result"
  fa_acc_list :: "nat \<Rightarrow> (int \<times> VendorData) result"
  fa_position_list :: "nat \<Rightarrow> PositionQuery \<Rightarrow> (int \<times> VendorData) result"
  fa_accinfo :: "nat \<Rightarrow> InfoQuery \<Rightarrow> (int \<times> VendorData) result"

record FutuSession =
  fs_contexts :: "nat list"
  fs_context_markets :: "(nat, string) dict"
  fs_account_contexts :: "(string, nat list) dict"

definition no_session :: FutuSession where
  "no_session = \<lparr>fs_contexts = [], fs_context_markets = [], fs_account_contexts = []\<rparr>"

definition futu_validate_config :: "FutuConfig \<Rightarrow> FutuSdk \<Rightarrow> unit result" where
  "futu_validate_config cfg sdk =
     rbind (enum_value sdk ''TrdEnv'' (fc_trd_env cfg) True) (\<lambda>_.
     rbind (enum_value sdk ''SecurityFirm'' (fc_security_firm cfg) True) (\<lambda>_.
     rbind (rmap_list (\<lambda>m. enum_value sdk ''TrdMarket'' m True) (fc_markets cfg)) (\<lambda>_. Inr ())))"

definition futu_build_context :: "FutuConfig \<Rightarrow> FutuSdk \<Rightarrow> FutuApi \<Rightarrow> string \<Rightarrow> nat result" where
  "futu_build_context cfg sdk api market =
     rbind (enum_value sdk ''TrdMarket'' market True) (\<lambda>m.
     rbind (enum_value sdk ''SecurityFirm'' (fc_security_firm cfg) True) (\<lambda>firm.
       fa_open api \<lparr>cr_filter_trdmarket = m, cr_security_firm = firm, cr_is_encrypt = fc_is_encrypt cfg\<rparr>))"

fun futu_open_contexts ::
    "FutuConfig \<Rightarrow> FutuSdk \<Rightarrow> FutuApi \<Rightarrow> string list \<Rightarrow> FutuSession \<Rightarrow> FutuSession result" where
  "futu_open_contexts cfg sdk api [] s = Inr s"
| "futu_open_contexts cfg sdk api (m # ms) s =
     rbind (futu_build_context cfg sdk api m) (\<lambda>ctx.
       futu_open_contexts cfg sdk api ms
         (s\<lparr>fs_contexts := fs_contexts s @ [ctx],
            fs_context_markets := AList.update ctx m (fs_context_markets s)\<rparr>))"

definition futu_note_account ::
    "FutuConfig \<Rightarrow> (pyval \<Rightarrow> string) \<Rightarrow> nat \<Rightarrow> FutuSession \<Rightarrow> row \<Rightarrow> FutuSession" where
  "futu_note_account cfg rt ctx s r =
     (let market = (case map_of (fs_context_markets s) ctx of None \<Rightarrow> [] | Some m \<Rightarrow> m);
          account = clean_account_id rt (row_get r ''acc_id'')
      in if \<not> account_is_usable rt r (fc_trd_env cfg) then s
         else if market \<noteq> [] \<and> \<not> account_has_market_authority rt r market then s
         else if account = [] then s
         else (let ctxs = (case map_of (fs_account_contexts s) account of None \<Rightarrow> [] | Some cs \<Rightarrow> cs)
               in s\<lparr>fs_account_contexts := AList.update account
                      (if ctx \<in> set ctxs then ctxs else ctxs @ [ctx]) (fs_account_contexts s)\<rparr>))"

definition futu_load_accounts_from_context ::
    "FutuConfig \<Rightarrow> (pyval \<Rightarrow> string) \<Rightarrow> FutuSdk \<Rightarrow> FutuApi \<Rightarrow> nat \<Rightarrow> FutuSession \<Rightarrow> FutuSession result" where
  "futu_load_accounts_from_context cfg rt sdk api ctx s =
     rbind (fa_acc_list api ctx) (\<lambda>(ret, data).
       if \<not> is_ret_ok sdk ret then Inl (RuntimeError ''Futu get_acc_list failed'')
       else Inr (foldl (futu_note_account cfg rt ctx) s (records_of data)))"

fun futu_load_accounts ::
    "FutuConfig \<Rightarrow> (pyval \<Rightarrow> string) \<Rightarrow> FutuSdk \<Rightarrow> FutuApi \<Rightarrow> nat list \<Rightarrow> FutuSession \<Rightarrow> FutuSession result" where
  "futu_load_accounts cfg rt sdk api [] s = Inr s"
| "futu_load_accounts cfg rt sdk api (c # cs) s =
     rbind (futu_load_accounts_from_context cfg rt sdk api c s) (futu_load_accounts cfg rt sdk api cs)"

definition py_int_text :: "string \<Rightarrow> int result" where
  "py_int_text s = py_int (VStr s)"

section \<open>Fetching\<close>

definition futu_position_rows ::
    "FutuConfig \<Rightarrow> FutuSdk \<Rightarrow> FutuApi \<Rightarrow> FutuSession \<Rightarrow> string \<Rightarrow> nat \<Rightarrow> row list option result" where
  "futu_position_rows cfg sdk api s account ctx =
     rbind (enum_value sdk ''TrdEnv'' (fc_trd_env cfg) True) (\<lambda>env.
     rbind (py_int_text account) (\<lambda>acc.
     rbind (case map_of (fs_context_markets s) ctx of
              None \<Rightarrow> Inr None
            | Some m \<Rightarrow> if m = [] then Inr None
                        else rbind (enum_value sdk ''TrdMarket'' m True) (\<lambda>v. Inr (Some v))) (\<lambda>market.
     rbind (fa_position_list api ctx \<lparr>pq_trd_env = env, pq_acc_id = acc,
              pq_refresh_cache = fc_refresh_cache cfg, pq_position_market = market\<rparr>) (\<lambda>(ret, data).
       Inr (if is_ret_ok sdk ret then Some (records_of data) else None)))))"

definition futu_account_info_row ::
    "FutuConfig \<Rightarrow> FutuSdk \<Rightarrow> FutuApi \<Rightarrow> string \<Rightarrow> nat \<Rightarrow> row option result" where
  "futu_account_info_row cfg sdk api account ctx =
     rbind (enum_value sdk ''TrdEnv'' (fc_trd_env cfg) True) (\<lambda>env.
     rbind (py_int_text account) (\<lambda>acc.
     rbind (fa_accinfo api ctx \<lparr>iq_trd_env = env, iq_acc_id = acc,
              iq_currency = optional_enum_value sdk ''Currency'' ''USD''\<rparr>) (\<lambda>(ret, data).
       Inr (if is_ret_ok sdk ret
            then (case records_of data of [] \<Rightarrow> None | r # rs \<Rightarrow> Some r) else None))))"

type_synonym futu_key = "string \<times> string \<times> string"

definition futu_key_of :: "Position \<Rightarrow> futu_key" where
  "futu_key_of p = (broker p, account_id p, native_key p)"

fun futu_add_rows ::
    "(row \<Rightarrow> Position option result) \<Rightarrow> row list \<Rightarrow> (futu_key, Position) dict \<Rightarrow> (futu_key, Position) dict result" where
  "futu_add_rows build [] d = Inr d"
| "futu_add_rows build (r # rs) d =
     rbind (build r) (\<lambda>p.
       futu_add_rows build rs (case p of None \<Rightarrow> d | Some p \<Rightarrow> AList.update (futu_key_of p) p d))"

text \<open>A context whose query failed is counted and passed over; what raises ends the loop.\<close>

fun futu_gather ::
    "(string \<Rightarrow> nat \<Rightarrow> row list option result) \<Rightarrow> (string \<Rightarrow> row \<Rightarrow> Position option result) \<Rightarrow>
       (string \<times> nat) list \<Rightarrow> (futu_key, Position) dict \<times> nat \<Rightarrow> ((futu_key, Position) dict \<times> nat) result" where
  "futu_gather fetch build [] acc = Inr acc"
| "futu_gather fetch build ((a, c) # pairs) (d, n) =
     rbind (fetch a c) (\<lambda>r.
       case r of
         None \<Rightarrow> futu_gather fetch build pairs (d, Suc n)
       | Some rows \<Rightarrow> rbind (futu_add_rows (build a) rows d) (\<lambda>d'. futu_gather fetch build pairs (d', n)))"

fun some_values :: "'a option list \<Rightarrow> 'a list" where
  "some_values [] = []"
| "some_values (None # xs) = some_values xs"
| "some_values (Some x # xs) = x # some_values xs"

text \<open>One call per account, to the first of its contexts; an account whose query fails is left out.\<close>

definition futu_per_account ::
    "(string \<Rightarrow> nat \<Rightarrow> row option result) \<Rightarrow> (string \<Rightarrow> row \<Rightarrow> 'a option result) \<Rightarrow> FutuSession \<Rightarrow> 'a list result" where
  "futu_per_account fetch build s =
     rbind (rmap_list (\<lambda>(a, ctxs).
         case ctxs of
           [] \<Rightarrow> Inr None
         | c # cs \<Rightarrow> rbind (fetch a c) (\<lambda>r. case r of None \<Rightarrow> Inr None | Some row \<Rightarrow> build a row))
       (fs_account_contexts s)) (\<lambda>xs. Inr (some_values xs))"

definition futu_account_cash_positions ::
    "FutuConfig \<Rightarrow> (pyval \<Rightarrow> string) \<Rightarrow> FutuSdk \<Rightarrow> FutuApi \<Rightarrow> rate_lookup \<Rightarrow> FutuSession \<Rightarrow> Position list result" where
  "futu_account_cash_positions cfg rt sdk api fx s =
     futu_per_account (futu_account_info_row cfg sdk api) (futu_cash_position_from_account_row rt fx) s"

definition account_pairs :: "FutuSession \<Rightarrow> (string \<times> nat) list" where
  "account_pairs s = concat (map (\<lambda>(a, ctxs). map (Pair a) ctxs) (fs_account_contexts s))"

definition futu_get_positions ::
    "FutuConfig \<Rightarrow> (pyval \<Rightarrow> string) \<Rightarrow> FutuSdk \<Rightarrow> FutuApi \<Rightarrow> rate_lookup \<Rightarrow> ConnectionState \<Rightarrow> FutuSession \<Rightarrow>
       Position list result" where
  "futu_get_positions cfg rt sdk api fx state s =
     (if state \<noteq> CONNECTED then Inr []
      else rbind (futu_gather (futu_position_rows cfg sdk api s) (futu_position_from_row rt fx)
                    (account_pairs s) ([], 0)) (\<lambda>(d, n).
           if n \<noteq> 0 then Inl (RuntimeError ''Futu position_list_query failed'')
           else rbind (futu_account_cash_positions cfg rt sdk api fx s) (\<lambda>cash.
                Inr (dict_values d @ cash))))"

definition futu_get_account_summary ::
    "FutuConfig \<Rightarrow> (pyval \<Rightarrow> string) \<Rightarrow> FutuSdk \<Rightarrow> FutuApi \<Rightarrow> rate_lookup \<Rightarrow> ConnectionState \<Rightarrow> FutuSession \<Rightarrow>
       AccountSummary list result" where
  "futu_get_account_summary cfg rt sdk api fx state s =
     (if state \<noteq> CONNECTED then Inr []
      else futu_per_account (futu_account_info_row cfg sdk api)
             (\<lambda>a r. rbind (futu_summary_from_row rt fx a r) (\<lambda>x. Inr (Some x))) s)"

text \<open>What one \<open>connect\<close> meets, in the terms of the life cycle: a \<open>ValueError\<close> counts as invalid
  configuration wherever it comes from.\<close>

definition failure_of :: "py_exc \<Rightarrow> failure" where
  "failure_of e = (case e of ValueError m \<Rightarrow> ConfigFailure | _ \<Rightarrow> OtherFailure)"

definition futu_connect_outcome ::
    "FutuConfig \<Rightarrow> (pyval \<Rightarrow> string) \<Rightarrow> FutuSdk option \<Rightarrow> FutuApi \<Rightarrow> rate_lookup \<Rightarrow> FutuSession \<times> futu_attempt" where
  "futu_connect_outcome cfg rt installed api fx =
     (case installed of
        None \<Rightarrow> (no_session, FutuSetupFails OtherFailure)
      | Some sdk \<Rightarrow>
          (case futu_validate_config cfg sdk of
             Inl e \<Rightarrow> (no_session, FutuSetupFails (failure_of e))
           | Inr _ \<Rightarrow>
               (case rbind (futu_open_contexts cfg sdk api (fc_markets cfg) no_session)
                       (\<lambda>s. futu_load_accounts cfg rt sdk api (fs_contexts s) s) of
                  Inl e \<Rightarrow> (no_session, FutuLoadFails (failure_of e))
                | Inr s \<Rightarrow>
                    (case futu_get_positions cfg rt sdk api fx CONNECTED s of
                       Inl e \<Rightarrow> (no_session, FutuLoaded (Inl (failure_of e)))
                     | Inr ps \<Rightarrow> (s, FutuLoaded (Inr ps))))))"

section \<open>Lemmas\<close>

lemma stripped_or_zero_nonempty: "(if t \<noteq> [] then t else ''0'') \<noteq> []"
  by simp

lemma futu_market_cases:
  assumes "map_of FUTU_EXCHANGE_TO_IB m = Some exch" "map_of FUTU_SUFFIX m = Some suffix"
  shows "map_of IB_EXCHANGE_TO_SUFFIX exch = Some suffix \<and> suffix = m"
proof -
  have "list_all (\<lambda>(m, e). map_of FUTU_SUFFIX m = Some m \<and> map_of IB_EXCHANGE_TO_SUFFIX e = Some m) FUTU_EXCHANGE_TO_IB"
    by code_simp
  from list_all_map_of [OF this assms(1)] assms(2) show ?thesis by simp
qed

lemma futu_row_fields:
  assumes "futu_position_from_row rt fx a r = Inr (Some p)"
  obtains qty last_p mv where "qty = safe_float (row_get r ''qty'')" "futu_price_and_value r qty = (last_p, mv)"
    "qty \<noteq> 0" "broker p = ''Futu''" "account_id p = a" "asset_class p = ''STK''"
    "quantity p = qty" "last_price p = last_p" "market_value_native p = mv"
    "normalise_code (native_key p) (row_text rt r ''position_market'' [])
       = Inr (native_symbol p, canonical_symbol p, exchange p)"
proof -
  let ?code = "py_strip (row_text rt r ''code'' [])" and ?qty = "safe_float (row_get r ''qty'')"
  have some: "?code \<noteq> []" "?qty \<noteq> 0"
    using assms by (auto simp: futu_position_from_row_def Let_def split: if_splits)
  obtain ident where ident: "normalise_code ?code (row_text rt r ''position_market'' []) = Inr ident"
    using assms some by (auto simp: futu_position_from_row_def Let_def split: sum.splits)
  obtain last_p mv where lm: "futu_price_and_value r ?qty = (last_p, mv)" by fastforce
  obtain c name cost pnl where "stock_row fx ''Futu'' a ?code ident c name ?qty cost last_p mv pnl 0 = Inr p"
    using assms some ident lm by (auto simp: futu_position_from_row_def Let_def rbind_Inr_iff)
  from stock_row_fields [OF this] that [OF refl lm some(2)] ident show thesis by simp
qed

lemma futu_cash_fields:
  "futu_cash_position_from_account_row rt fx a r = Inr (Some p) \<Longrightarrow>
     asset_class p = ''CASH'' \<and> account_id p = a \<and> broker p = ''Futu'' \<and> quantity p \<noteq> 0"
  by (auto simp: futu_cash_position_from_account_row_def Let_def rbind_Inr_iff dest: cash_row_fields split: if_splits)

text \<open>What the loop over rows and the loop over contexts collect.\<close>

definition holds_rows :: "(row \<Rightarrow> Position option result) \<Rightarrow> row list \<Rightarrow> (futu_key, Position) dict \<Rightarrow> bool" where
  "holds_rows build rows d =
     list_all (\<lambda>r. case build r of Inl e \<Rightarrow> False | Inr None \<Rightarrow> True | Inr (Some p) \<Rightarrow> futu_key_of p \<in> fst ` set d) rows"

lemma holds_rows_mono: "holds_rows build rows d \<Longrightarrow> fst ` set d \<subseteq> fst ` set d' \<Longrightarrow> holds_rows build rows d'"
  by (fastforce simp: holds_rows_def list_all_iff split: sum.splits option.splits)

lemma holds_rowsD:
  "holds_rows build rows d \<Longrightarrow> \<forall>r p. r \<in> set rows \<longrightarrow> build r = Inr (Some p) \<longrightarrow> futu_key_of p \<in> fst ` set d"
  by (auto simp: holds_rows_def list_all_iff)

definition keyed_by :: "(futu_key, Position) dict \<Rightarrow> bool" where
  "keyed_by d = (dict_wf d \<and> list_all (\<lambda>(k, p). k = futu_key_of p) d)"

lemma AList_update_values: "(k', v') \<in> set (AList.update k v d) \<Longrightarrow> v' = v \<or> (k', v') \<in> set d"
  by (induction d) (auto split: if_splits)

lemma add_rows_collects:
  "futu_add_rows build rows d = Inr d' \<Longrightarrow> keyed_by d \<Longrightarrow>
     keyed_by d' \<and> fst ` set d \<subseteq> fst ` set d' \<and> holds_rows build rows d'
     \<and> snd ` set d' \<subseteq> snd ` set d \<union> {p. \<exists>r\<in>set rows. build r = Inr (Some p)}"
proof (induction build rows d rule: futu_add_rows.induct)
  case (2 build r rs d)
  then obtain x where x: "build r = Inr x" by (cases "build r") auto
  let ?d = "case x of None \<Rightarrow> d | Some p \<Rightarrow> AList.update (futu_key_of p) p d"
  have keys: "fst ` set d \<subseteq> fst ` set ?d" "x = Some p \<Longrightarrow> futu_key_of p \<in> fst ` set ?d" for p
    by (auto simp: dom_update split: option.splits simp flip: dom_map_of_conv_image_fst simp: map_of_AList_update)
  have "keyed_by ?d"
    using 2(3) by (cases x) (auto simp: keyed_by_def intro: list_all_AList_update)
  moreover have "snd ` set ?d \<subseteq> snd ` set d \<union> {p. x = Some p}"
    by (cases x) (auto simp: image_iff dest!: AList_update_values)
  moreover have "futu_add_rows build rs ?d = Inr d'" using 2(2) x by simp
  ultimately have rest: "keyed_by d'" "fst ` set ?d \<subseteq> fst ` set d'" "holds_rows build rs d'"
    "snd ` set d' \<subseteq> snd ` set d \<union> {p. x = Some p} \<union> {p. \<exists>r\<in>set rs. build r = Inr (Some p)}"
    using 2(1) [of x] by blast+
  moreover have "fst ` set d \<subseteq> fst ` set d'" using keys(1) rest(2) by (rule subset_trans)
  moreover have "holds_rows build (r # rs) d'"
    using rest(2,3) keys(2) x by (auto simp: holds_rows_def split: option.splits)
  ultimately show ?case using x by auto
qed (auto simp: holds_rows_def)

definition built ::
    "(string \<Rightarrow> nat \<Rightarrow> row list option result) \<Rightarrow> (string \<Rightarrow> row \<Rightarrow> Position option result) \<Rightarrow>
       (string \<times> nat) list \<Rightarrow> Position set" where
  "built fetch build pairs =
     {p. \<exists>a c rows r. (a, c) \<in> set pairs \<and> fetch a c = Inr (Some rows) \<and> r \<in> set rows \<and> build a r = Inr (Some p)}"

lemma subset_Un_chain: "A \<subseteq> B \<union> C \<Longrightarrow> B \<subseteq> D \<union> E \<Longrightarrow> E \<subseteq> F \<Longrightarrow> C \<subseteq> F \<Longrightarrow> A \<subseteq> D \<union> F"
  by blast

lemma built_mono: "built fetch build pairs \<subseteq> built fetch build (ac # pairs)"
  unfolding built_def by auto

lemma gather_collects:
  "futu_gather fetch build pairs (d, n) = Inr (d', m) \<Longrightarrow> keyed_by d \<Longrightarrow>
     keyed_by d' \<and> fst ` set d \<subseteq> fst ` set d' \<and> n \<le> m
     \<and> (m = n \<longrightarrow> (\<forall>(a, c)\<in>set pairs. \<exists>rows. fetch a c = Inr (Some rows) \<and> holds_rows (build a) rows d'))
     \<and> snd ` set d' \<subseteq> snd ` set d \<union> built fetch build pairs"
proof (induction pairs arbitrary: d n)
  case (Cons ac pairs)
  obtain a c where ac: "ac = (a, c)" by (cases ac)
  then obtain x where x: "fetch a c = Inr x" using Cons.prems by (cases "fetch a c") auto
  show ?case
  proof (cases x)
    case None
    then have "futu_gather fetch build pairs (d, Suc n) = Inr (d', m)" using Cons.prems(1) x ac by simp
    note ih = Cons.IH [OF this Cons.prems(2)]
    then have "snd ` set d' \<subseteq> snd ` set d \<union> built fetch build (ac # pairs)"
      using built_mono [of fetch build pairs ac] by blast
    moreover have "n \<le> m" "m \<noteq> n" using ih by auto
    ultimately show ?thesis using ih by blast
  next
    case (Some rows)
    then obtain d1 where d1: "futu_add_rows (build a) rows d = Inr d1" "futu_gather fetch build pairs (d1, n) = Inr (d', m)"
      using Cons.prems(1) x ac by (auto simp: rbind_Inr_iff)
    note first = add_rows_collects [OF d1(1) Cons.prems(2)]
    have f: "keyed_by d1" "fst ` set d \<subseteq> fst ` set d1" "holds_rows (build a) rows d1"
      "snd ` set d1 \<subseteq> snd ` set d \<union> {p. \<exists>r\<in>set rows. build a r = Inr (Some p)}"
      subgoal using first by (elim conjE)
      subgoal using first by (elim conjE)
      subgoal using first by (elim conjE)
      subgoal using first by (elim conjE)
      done
    note ih = Cons.IH [OF d1(2) f(1)]
    have rest: "fst ` set d1 \<subseteq> fst ` set d'" "keyed_by d'" "n \<le> m"
      "m = n \<longrightarrow> (\<forall>(a, c)\<in>set pairs. \<exists>rows. fetch a c = Inr (Some rows) \<and> holds_rows (build a) rows d')"
      "snd ` set d' \<subseteq> snd ` set d1 \<union> built fetch build pairs"
      subgoal using ih by (elim conjE)
      subgoal using ih by (elim conjE)
      subgoal using ih by (elim conjE)
      subgoal using ih by (elim conjE)
      subgoal using ih by (elim conjE)
      done
    have "holds_rows (build a) rows d'" by (rule holds_rows_mono [OF f(3) rest(1)])
    moreover have "fst ` set d \<subseteq> fst ` set d'" by (rule subset_trans [OF f(2) rest(1)])
    moreover have "snd ` set d' \<subseteq> snd ` set d \<union> built fetch build (ac # pairs)"
    proof -
      have "{p. \<exists>r\<in>set rows. build a r = Inr (Some p)} \<subseteq> built fetch build (ac # pairs)"
        using x Some unfolding built_def ac by auto
      from subset_Un_chain [OF rest(5) f(4) this built_mono] show ?thesis .
    qed
    moreover have "m = n \<longrightarrow> (\<forall>(a, c)\<in>set (ac # pairs). \<exists>rows. fetch a c = Inr (Some rows) \<and> holds_rows (build a) rows d')"
      using rest(4) calculation(1) x Some unfolding ac by simp
    ultimately show ?thesis using rest(2,3) by (intro conjI)
  qed
qed simp


lemma some_values_set: "set (some_values xs) = {x. Some x \<in> set xs}"
  by (induction xs rule: some_values.induct) auto

lemma per_account_all:
  assumes "futu_per_account fetch build s = Inr xs" "\<And>a r x. build a r = Inr (Some x) \<Longrightarrow> P x"
  shows "list_all P xs"
proof -
  obtain ys where ys: "rmap_list (\<lambda>(a, ctxs). case ctxs of [] \<Rightarrow> Inr None
      | c # cs \<Rightarrow> rbind (fetch a c) (\<lambda>r. case r of None \<Rightarrow> Inr None | Some row \<Rightarrow> build a row)) (fs_account_contexts s) = Inr ys"
    "xs = some_values ys"
    using assms(1) by (auto simp: futu_per_account_def rbind_Inr_iff)
  have "P x" if "Some x \<in> set ys" for x
    using rmap_list_mem [OF ys(1) that] assms(2)
    by (auto simp: rbind_Inr_iff split: list.splits option.splits)
  then show ?thesis by (simp add: ys(2) some_values_set list_all_iff)
qed

lemma per_account_answers:
  assumes "\<And>a ctxs. (a, ctxs) \<in> set (fs_account_contexts s) \<Longrightarrow>
      (case ctxs of [] \<Rightarrow> Inr None
       | c # cs \<Rightarrow> rbind (fetch a c) (\<lambda>r. case r of None \<Rightarrow> Inr None | Some row \<Rightarrow> build a row)) = Inr (g a)"
  shows "futu_per_account fetch build s = Inr (some_values (map (\<lambda>(a, ctxs). g a) (fs_account_contexts s)))"
proof -
  have "rmap_list (\<lambda>(a, ctxs). case ctxs of [] \<Rightarrow> Inr None
      | c # cs \<Rightarrow> rbind (fetch a c) (\<lambda>r. case r of None \<Rightarrow> Inr None | Some row \<Rightarrow> build a row)) (fs_account_contexts s)
    = Inr (map (\<lambda>(a, ctxs). g a) (fs_account_contexts s))"
    using assms by (intro rmap_list_Inr_map) auto
  then show ?thesis by (simp add: futu_per_account_def)
qed

lemma gathered:
  assumes "futu_get_positions cfg rt sdk api fx CONNECTED s = Inr ps"
  obtains d cash where "futu_gather (futu_position_rows cfg sdk api s) (futu_position_from_row rt fx) (account_pairs s) ([], 0) = Inr (d, 0)"
    "futu_account_cash_positions cfg rt sdk api fx s = Inr cash" "ps = dict_values d @ cash"
  using assms by (auto simp: futu_get_positions_def rbind_Inr_iff split: if_splits)

lemma keyed_by_values:
  assumes "keyed_by d"
  shows "distinct (map futu_key_of (dict_values d))" "set (map futu_key_of (dict_values d)) = fst ` set d"
proof -
  have "map futu_key_of (dict_values d) = map fst d"
    using assms by (auto simp: keyed_by_def dict_values_def list_all_iff)
  with assms show "distinct (map futu_key_of (dict_values d))" "set (map futu_key_of (dict_values d)) = fst ` set d"
    by (simp_all add: keyed_by_def dict_wf_def)
qed

section \<open>A small instance\<close>

definition demo_sdk :: FutuSdk where
  "demo_sdk = \<lparr>sdk_enums = (\<lambda>_. None), sdk_ret_ok = None\<rparr>"

definition demo_futu_api :: "int \<Rightarrow> FutuApi" where
  "demo_futu_api info_ret =
     \<lparr>fa_open = (\<lambda>_. Inr 0),
      fa_acc_list = (\<lambda>c. Inr (0, Items [[(''acc_id'', VInt 7), (''trdmarket_auth'', VStr ''[HK, US]'')]])),
      fa_position_list = (\<lambda>c q. Inr (0, Items [[(''code'', VStr ''HK.00700''), (''qty'', VInt 100),
         (''nominal_price'', VInt 320), (''currency'', VStr ''USD''), (''stock_name'', VStr ''TENCENT'')]])),
      fa_accinfo = (\<lambda>c q. Inr (info_ret, Items [[(''cash'', VInt 5)]]))\<rparr>"

definition demo_futu_cfg :: FutuConfig where
  "demo_futu_cfg = \<lparr>fc_markets = [''HK''], fc_security_firm = ''FUTUSG'', fc_trd_env = ''REAL'',
     fc_is_encrypt = None, fc_refresh_cache = False\<rparr>"

definition demo_futu_session :: FutuSession where
  "demo_futu_session = \<lparr>fs_contexts = [0], fs_context_markets = [(0, ''HK'')], fs_account_contexts = [(''7'', [0])]\<rparr>"

lemma demo_futu_connects:
  "fst (futu_connect_outcome demo_futu_cfg (\<lambda>_. []) (Some demo_sdk) (demo_futu_api 0) None) = demo_futu_session"
  by code_simp

lemma demo_futu_fetch:
  obtains ps where "futu_get_positions demo_futu_cfg (\<lambda>_. []) demo_sdk (demo_futu_api 0) None CONNECTED demo_futu_session = Inr ps"
    "map canonical_symbol ps = [''700.HK'', ''USD'']"
proof (cases "futu_get_positions demo_futu_cfg (\<lambda>_. []) demo_sdk (demo_futu_api 0) None CONNECTED demo_futu_session")
  case (Inl e)
  have "(case futu_get_positions demo_futu_cfg (\<lambda>_. []) demo_sdk (demo_futu_api 0) None CONNECTED demo_futu_session of Inr ps \<Rightarrow> True | Inl e \<Rightarrow> False)" by code_simp
  with Inl show thesis by simp
next
  case (Inr ps)
  have "(case futu_get_positions demo_futu_cfg (\<lambda>_. []) demo_sdk (demo_futu_api 0) None CONNECTED demo_futu_session of Inr ps \<Rightarrow> map canonical_symbol ps | Inl e \<Rightarrow> []) = [''700.HK'', ''USD'']"
    by code_simp
  with Inr that show thesis by simp
qed

section \<open>Properties\<close>

text \<open>C18. Futu's holdings are all or nothing: when positions are returned, the query of every account in
  every market context succeeded, each of their rows that is a holding is there under its own key, no
  key is there twice, and no holding comes from anywhere else. One failed query and nothing is returned.\<close>
theorem futu_positions_complete:
  assumes "futu_get_positions cfg rt sdk api fx CONNECTED s = Inr ps"
  shows "\<exists>stocks cash. ps = stocks @ cash \<and> distinct (map futu_key_of stocks)
    \<and> (\<forall>(a, c) \<in> set (account_pairs s). \<exists>rows. futu_position_rows cfg sdk api s a c = Inr (Some rows)
        \<and> (\<forall>r p. r \<in> set rows \<longrightarrow> futu_position_from_row rt fx a r = Inr (Some p)
             \<longrightarrow> futu_key_of p \<in> set (map futu_key_of stocks)))
    \<and> (\<forall>p\<in>set stocks. \<exists>a c rows r. (a, c) \<in> set (account_pairs s)
        \<and> futu_position_rows cfg sdk api s a c = Inr (Some rows) \<and> r \<in> set rows
        \<and> futu_position_from_row rt fx a r = Inr (Some p))
    \<and> list_all (\<lambda>p. asset_class p = ''CASH'') cash"
proof -
  let ?rows = "futu_position_rows cfg sdk api s" and ?build = "futu_position_from_row rt fx"
  obtain d cash where d: "futu_gather ?rows ?build (account_pairs s) ([], 0) = Inr (d, 0)"
    and cash: "futu_account_cash_positions cfg rt sdk api fx s = Inr cash" and ps: "ps = dict_values d @ cash"
    using gathered [OF assms] .
  have "keyed_by []" by (simp add: keyed_by_def)
  note all = gather_collects [OF d this]
  then have keyed: "keyed_by d"
    and each: "\<forall>(a, c)\<in>set (account_pairs s). \<exists>rows. ?rows a c = Inr (Some rows) \<and> holds_rows (?build a) rows d"
    and src: "set (dict_values d) \<subseteq> built ?rows ?build (account_pairs s)"
    by (simp_all add: dict_values_def)
  have "list_all (\<lambda>p. asset_class p = ''CASH'') cash"
    using cash unfolding futu_account_cash_positions_def by (rule per_account_all) (auto dest: futu_cash_fields)
  moreover have "\<forall>(a, c) \<in> set (account_pairs s). \<exists>rows. ?rows a c = Inr (Some rows)
      \<and> (\<forall>r p. r \<in> set rows \<longrightarrow> ?build a r = Inr (Some p) \<longrightarrow> futu_key_of p \<in> set (map futu_key_of (dict_values d)))"
    unfolding keyed_by_values(2) [OF keyed]
  proof (clarify)
    fix a c assume "(a, c) \<in> set (account_pairs s)"
    with each obtain rows where "?rows a c = Inr (Some rows)" "holds_rows (?build a) rows d" by fast
    with holds_rowsD show "\<exists>rows. ?rows a c = Inr (Some rows)
      \<and> (\<forall>r p. r \<in> set rows \<longrightarrow> ?build a r = Inr (Some p) \<longrightarrow> futu_key_of p \<in> fst ` set d)" by metis
  qed
  moreover have "\<forall>p\<in>set (dict_values d). \<exists>a c rows r. (a, c) \<in> set (account_pairs s)
      \<and> ?rows a c = Inr (Some rows) \<and> r \<in> set rows \<and> ?build a r = Inr (Some p)"
    using src unfolding built_def by auto
  ultimately show ?thesis
    using keyed_by_values(1) [OF keyed] by (intro exI [of _ "dict_values d"] exI [of _ cash] conjI ps)
qed

theorem futu_positions_complete_witness:
  "\<exists>ps stocks cash. futu_get_positions demo_futu_cfg (\<lambda>_. []) demo_sdk (demo_futu_api 0) None CONNECTED demo_futu_session = Inr ps
     \<and> map canonical_symbol ps = [''700.HK'', ''USD''] \<and> ps = stocks @ cash \<and> distinct (map futu_key_of stocks)"
proof -
  obtain ps where ps: "futu_get_positions demo_futu_cfg (\<lambda>_. []) demo_sdk (demo_futu_api 0) None CONNECTED demo_futu_session = Inr ps"
    "map canonical_symbol ps = [''700.HK'', ''USD'']"
    by (rule demo_futu_fetch)
  obtain stocks cash where "ps = stocks @ cash" "distinct (map futu_key_of stocks)"
    using futu_positions_complete [OF ps(1)] by (elim exE conjE)
  with ps show ?thesis by (intro exI [of _ ps] exI [of _ stocks] exI [of _ cash] conjI)
qed

text \<open>A Futu row's price and value agree: when the vendor gives only one of them, the other is filled in
  so that the value is the quantity times the price, and nothing is made up when it gives both.\<close>
theorem futu_row_price_value:
  assumes "futu_position_from_row rt fx a r = Inr (Some p)"
    and "is_finite (quantity p)" "is_finite (first_float r [''nominal_price'', ''last_price''])"
      "is_finite (first_float r [''market_val'', ''market_value''])"
  shows "if first_float r [''nominal_price'', ''last_price''] = 0 \<or> first_float r [''market_val'', ''market_value''] = 0
    then market_value_native p = quantity p * last_price p
    else last_price p = first_float r [''nominal_price'', ''last_price'']
      \<and> market_value_native p = first_float r [''market_val'', ''market_value'']"
proof -
  obtain lp mv where pv: "futu_price_and_value r (quantity p) = (lp, mv)" "quantity p \<noteq> 0"
    "last_price p = lp" "market_value_native p = mv"
    using futu_row_fields [OF assms(1)] by metis
  obtain q x y where "quantity p = Fin q" "first_float r [''nominal_price'', ''last_price''] = Fin x"
    "first_float r [''market_val'', ''market_value''] = Fin y"
    using assms(2-4) by (auto simp: is_finite_iff)
  note v = this
  have "q \<noteq> 0" using pv(2) v(1) by (simp add: zero_fl_def)
  have "market_value_native p = Fin (if y = 0 \<and> x \<noteq> 0 then q * x else y)"
    "last_price p = Fin (if x = 0 then (if y = 0 \<and> x \<noteq> 0 then q * x else y) / q else x)"
    using pv(1,3,4) \<open>q \<noteq> 0\<close>
    by (auto simp: v futu_price_and_value_def Let_def zero_fl_def divide_fl_def inverse_fl_def times_fl_def divide_inverse split: if_splits)
  with v \<open>q \<noteq> 0\<close> show ?thesis by (simp add: zero_fl_def)
qed

theorem futu_row_price_value_witness:
  "\<exists>p. futu_position_from_row (\<lambda>_. []) None ''7'' [(''code'', VStr ''US.AAPL''), (''qty'', VInt 4), (''market_val'', VInt 10)] = Inr (Some p)
     \<and> market_value_native p = quantity p * last_price p \<and> market_value_native p = 10"
proof -
  let ?r = "[(''code'', VStr ''US.AAPL''), (''qty'', VInt 4), (''market_val'', VInt 10)]"
  let ?get = "futu_position_from_row (\<lambda>_. []) None ''7'' ?r"
  have "(case ?get of Inr (Some p) \<Rightarrow> quantity p = 4 \<and> market_value_native p = 10 | _ \<Rightarrow> False)" by code_simp
  then obtain p where p: "?get = Inr (Some p)" "quantity p = 4" "market_value_native p = 10"
    by (auto split: sum.splits option.splits)
  have f: "first_float ?r [''nominal_price'', ''last_price''] = 0" "first_float ?r [''market_val'', ''market_value''] = 10"
    by code_simp+
  from futu_row_price_value [OF p(1)] p f show ?thesis by (simp add: fl_simps)
qed

text \<open>C32. A failing funds query is not treated like a failing position query. When the positions of every
  account were read, they are returned, followed by one cash row for each account whose funds query
  was answered with cash, and nothing for one whose query failed or came back empty; publishing them
  takes the cash of each of these accounts off the dashboard, whatever was shown before.\<close>
theorem futu_cash_outage_hides_cash:
  assumes "futu_gather (futu_position_rows cfg sdk api s) (futu_position_from_row rt fx) (account_pairs s) ([], 0) = Inr (d, 0)"
    and "\<forall>(a, ctxs) \<in> set (fs_account_contexts s). \<exists>c cs. ctxs = c # cs
          \<and> futu_account_info_row cfg sdk api a c = Inr (funds a)
          \<and> (case funds a of None \<Rightarrow> cash a = None
             | Some r \<Rightarrow> futu_cash_position_from_account_row rt fx a r = Inr (cash a))"
    and "live_wf l"
  shows "\<exists>ps. futu_get_positions cfg rt sdk api fx CONNECTED s = Inr ps
    \<and> ps = dict_values d @ some_values (map (\<lambda>(a, ctxs). cash a) (fs_account_contexts s))
    \<and> list_all (\<lambda>p. asset_class p = ''STK'') (dict_values d)
    \<and> (\<forall>a c p. funds a = None \<longrightarrow> row_of (replace_broker l ''Futu'' ps) (''Futu'', a, c) = Some p
         \<longrightarrow> asset_class p \<noteq> ''CASH'')"
proof -
  let ?cash = "some_values (map (\<lambda>(a, ctxs). cash a) (fs_account_contexts s))" and ?ps = "dict_values d @ some_values (map (\<lambda>(a, ctxs). cash a) (fs_account_contexts s))"
  have answers: "\<exists>c cs. ctxs = c # cs \<and> futu_account_info_row cfg sdk api a c = Inr (funds a)
      \<and> (case funds a of None \<Rightarrow> cash a = None | Some r \<Rightarrow> futu_cash_position_from_account_row rt fx a r = Inr (cash a))"
    if "(a, ctxs) \<in> set (fs_account_contexts s)" for a ctxs
    using assms(2) that by blast
  have "futu_account_cash_positions cfg rt sdk api fx s = Inr ?cash"
    unfolding futu_account_cash_positions_def
    by (rule per_account_answers) (auto dest!: answers split: option.splits)
  then have ps: "futu_get_positions cfg rt sdk api fx CONNECTED s = Inr ?ps"
    by (simp add: futu_get_positions_def assms(1))
  have "keyed_by []" by (simp add: keyed_by_def)
  from gather_collects [OF assms(1) this]
  have "set (dict_values d) \<subseteq> built (futu_position_rows cfg sdk api s) (futu_position_from_row rt fx) (account_pairs s)"
    by (simp add: dict_values_def)
  then have stk: "list_all (\<lambda>p. asset_class p = ''STK'') (dict_values d)"
    unfolding built_def list_all_iff using futu_row_fields by blast
  have "asset_class p \<noteq> ''CASH''"
    if "row_of (replace_broker l ''Futu'' ?ps) (''Futu'', a, c) = Some p" "funds a = None" for a c p
  proof -
    from that(1) have "map_of (rev (keyed ?ps)) (''Futu'', a, c) = Some p"
      by (simp add: lp.rows_own_broker [OF assms(3)])
    then have p: "p \<in> set ?ps" "account_id p = a" by (auto simp: keyed_def pos_key_def dest!: map_of_SomeD)
    have "p \<notin> set ?cash"
    proof
      assume "p \<in> set ?cash"
      then obtain a' ctxs where cash: "(a', ctxs) \<in> set (fs_account_contexts s)" "cash a' = Some p"
        by (auto simp: some_values_set)
      from answers [OF cash(1)] cash(2) have "funds a' \<noteq> None" "account_id p = a'"
        by (auto dest: futu_cash_fields split: option.splits)
      with p(2) that(2) show False by simp
    qed
    with p(1) stk show ?thesis by (auto simp: list_all_iff)
  qed
  with ps stk show ?thesis by blast
qed

definition demo_two_accounts :: FutuSession where
  "demo_two_accounts = demo_futu_session\<lparr>fs_account_contexts := [(''7'', [0]), (''8'', [0])]\<rparr>"

definition demo_half_api :: FutuApi where
  "demo_half_api = (demo_futu_api 0)\<lparr>fa_accinfo :=
     (\<lambda>c q. Inr (if iq_acc_id q = 7 then (- 1) else 0, Items [[(''cash'', VInt 5)]]))\<rparr>"

lemma demo_half_gather:
  obtains d where "futu_gather (futu_position_rows demo_futu_cfg demo_sdk demo_half_api demo_two_accounts)
      (futu_position_from_row (\<lambda>_. []) None) (account_pairs demo_two_accounts) ([], 0) = Inr (d, 0)"
    "map canonical_symbol (dict_values d) = [''700.HK'', ''700.HK'']"
proof -
  have "(case futu_gather (futu_position_rows demo_futu_cfg demo_sdk demo_half_api demo_two_accounts)
      (futu_position_from_row (\<lambda>_. []) None) (account_pairs demo_two_accounts) ([], 0) of
    Inl e \<Rightarrow> False | Inr (d, n) \<Rightarrow> n = 0 \<and> map canonical_symbol (dict_values d) = [''700.HK'', ''700.HK''])" by code_simp
  then show thesis using that by (auto split: sum.splits)
qed

lemma demo_half_funds:
  "futu_account_info_row demo_futu_cfg demo_sdk demo_half_api ''7'' 0 = Inr None"
  "futu_account_info_row demo_futu_cfg demo_sdk demo_half_api ''8'' 0 = Inr (Some [(''cash'', VInt 5)])"
  by code_simp+

lemma demo_half_cash:
  obtains p where "futu_cash_position_from_account_row (\<lambda>_. []) None ''8'' [(''cash'', VInt 5)] = Inr (Some p)"
    "canonical_symbol p = ''USD''"
proof -
  have "(case futu_cash_position_from_account_row (\<lambda>_. []) None ''8'' [(''cash'', VInt 5)] of
    Inr (Some p) \<Rightarrow> canonical_symbol p = ''USD'' | _ \<Rightarrow> False)" by code_simp
  then show thesis using that by (auto split: sum.splits option.splits)
qed

text \<open>Two accounts, of which the funds query of the first fails: its position is shown and its cash is not.\<close>
theorem futu_cash_outage_hides_cash_witness:
  "\<exists>ps. futu_get_positions demo_futu_cfg (\<lambda>_. []) demo_sdk demo_half_api None CONNECTED demo_two_accounts = Inr ps
     \<and> map canonical_symbol ps = [''700.HK'', ''700.HK'', ''USD'']
     \<and> (\<forall>c p. row_of (replace_broker lp_new ''Futu'' ps) (''Futu'', ''7'', c) = Some p \<longrightarrow> asset_class p \<noteq> ''CASH'')"
proof -
  obtain d where d: "futu_gather (futu_position_rows demo_futu_cfg demo_sdk demo_half_api demo_two_accounts)
      (futu_position_from_row (\<lambda>_. []) None) (account_pairs demo_two_accounts) ([], 0) = Inr (d, 0)"
    "map canonical_symbol (dict_values d) = [''700.HK'', ''700.HK'']" by (rule demo_half_gather)
  obtain p where p: "futu_cash_position_from_account_row (\<lambda>_. []) None ''8'' [(''cash'', VInt 5)] = Inr (Some p)"
    "canonical_symbol p = ''USD''" by (rule demo_half_cash)
  let ?funds = "\<lambda>a. if a = ''8'' then Some [(''cash'', VInt 5)] else None" and ?cash = "\<lambda>a. if a = ''8'' then Some p else None"
  have "\<forall>(a, ctxs) \<in> set (fs_account_contexts demo_two_accounts). \<exists>c cs. ctxs = c # cs
          \<and> futu_account_info_row demo_futu_cfg demo_sdk demo_half_api a c = Inr (?funds a)
          \<and> (case ?funds a of None \<Rightarrow> ?cash a = None
             | Some r \<Rightarrow> futu_cash_position_from_account_row (\<lambda>_. []) None a r = Inr (?cash a))"
    by (simp add: demo_two_accounts_def demo_futu_session_def demo_half_funds p(1))
  from futu_cash_outage_hides_cash [OF d(1) this live_wf_new] obtain ps where
    ps: "futu_get_positions demo_futu_cfg (\<lambda>_. []) demo_sdk demo_half_api None CONNECTED demo_two_accounts = Inr ps"
      "ps = dict_values d @ some_values (map (\<lambda>(a, ctxs). ?cash a) (fs_account_contexts demo_two_accounts))"
    and gone: "\<forall>a c p. ?funds a = None \<longrightarrow> row_of (replace_broker lp_new ''Futu'' ps) (''Futu'', a, c) = Some p
      \<longrightarrow> asset_class p \<noteq> ''CASH''" by blast
  have "map canonical_symbol ps = [''700.HK'', ''700.HK'', ''USD'']"
    by (simp add: ps(2) d(2) p(2) demo_two_accounts_def demo_futu_session_def)
  moreover have "\<forall>c p. row_of (replace_broker lp_new ''Futu'' ps) (''Futu'', ''7'', c) = Some p \<longrightarrow> asset_class p \<noteq> ''CASH''"
    using gone [rule_format, of "''7''"] by simp
  ultimately show ?thesis using ps(1)
    by - (intro exI [of _ ps] conjI; assumption)
qed

end
