(* ===== verification/Longbridge.thy ===== *)
theory Longbridge
  imports Polling
begin

text \<open>
  \<open>app/adapters/longbridge.py\<close>: symbols, position channels, quote and static lookups with their fallback to
  one symbol at a time, the mapping of stock rows and cash balances, and the fetches the dashboard
  makes. The SDK's answers are parameters; what a payload object lacks is \<open>None\<close> or \<open>VNone\<close>, and a
  symbol is the text \<open>str\<close> gives, empty when it is missing.
\<close>

section \<open>Payloads\<close>

record LbStock =
  ls_symbol :: string
  ls_quantity :: pyval
  ls_currency :: "string option"
  ls_symbol_name :: "string option"
  ls_cost_price :: pyval

record LbQuote =
  lq_symbol :: string
  lq_last_done :: pyval
  lq_prev_close :: pyval

record LbStatic =
  lx_symbol :: string
  lx_exchange :: "string option"
  lx_currency :: "string option"
  lx_name_en :: "string option"

text \<open>The attributes a channel may be named by, in the order they are tried, and its rows.\<close>

record LbChannel =
  lc_names :: "string option list"
  lc_positions :: "LbStock list"

record LbCash =
  lh_currency :: "string option"
  lh_available :: pyval
  lh_frozen :: pyval
  lh_settling :: pyval

record LbBalance =
  lb_currency :: "string option"
  lb_net_assets :: pyval
  lb_total_cash :: pyval
  lb_buy_power :: pyval
  lb_cash_infos :: "LbCash list"

record LbApi =
  la_stock_positions :: "LbChannel list result"
  la_quote :: "string list \<Rightarrow> LbQuote list result"
  la_static_info :: "string list \<Rightarrow> LbStatic list result"
  la_account_balance :: "string \<Rightarrow> LbBalance list result"

definition longbridge_config_error :: py_exc where
  "longbridge_config_error = OtherError ''LongbridgeConfigError''"

definition longbridge_data_error :: py_exc where
  "longbridge_data_error = OtherError ''LongbridgeDataError''"

section \<open>Symbols and channels\<close>

definition SUFFIX_TO_EXCHANGE :: "(string, string) dict" where
  "SUFFIX_TO_EXCHANGE = [
     (''HK'', ''SEHK''), (''US'', ''NASDAQ''), (''SG'', ''SGX''), (''SH'', ''SSE''),
     (''SZ'', ''SZSE''), (''JP'', ''TSEJ''), (''AU'', ''ASX''), (''UK'', ''LSE'')]"

definition normalise_symbol :: "string \<Rightarrow> string \<Rightarrow> (string \<times> string \<times> string) result" where
  "normalise_symbol symbol exchange_hint =
     (case split_last dot (py_strip symbol) of
        None \<Rightarrow> Inl longbridge_data_error
      | Some (raw_symbol, suffix_text) \<Rightarrow>
          (let suffix = py_upper suffix_text;
               stripped = (if suffix = ''HK'' then lstrip_zeros raw_symbol else raw_symbol);
               native = (if stripped \<noteq> [] then stripped else ''0'');
               canonical = native @ dot # suffix;
               exch = py_upper (py_strip exchange_hint)
           in if exch \<noteq> [] then Inr (native, canonical, exch)
              else (case map_of SUFFIX_TO_EXCHANGE suffix of
                      None \<Rightarrow> Inl longbridge_data_error
                    | Some e \<Rightarrow> Inr (native, canonical, e))))"

definition validate_symbol_for_lookup :: "string \<Rightarrow> unit result" where
  "validate_symbol_for_lookup symbol =
     (case split_last dot (py_strip symbol) of
        None \<Rightarrow> Inl longbridge_data_error
      | Some (raw_symbol, suffix) \<Rightarrow>
          if py_strip raw_symbol = [] \<or> py_strip suffix = [] then Inl longbridge_data_error
          else if map_of SUFFIX_TO_EXCHANGE (py_upper suffix) = None then Inl longbridge_data_error
          else Inr ())"

definition rows_by_symbol :: "('a \<Rightarrow> string) \<Rightarrow> 'a list \<Rightarrow> (string, 'a) dict" where
  "rows_by_symbol symf rows = dict_of (map (\<lambda>r. (py_strip (symf r), r)) rows)"

definition normalise_channel :: "string \<Rightarrow> string" where
  "normalise_channel v = py_upper (py_strip v)"

fun first_text :: "string option list \<Rightarrow> string" where
  "first_text [] = []"
| "first_text (None # vs) = first_text vs"
| "first_text (Some s # vs) = (if py_strip s \<noteq> [] then py_strip s else first_text vs)"

definition channel_name :: "LbChannel \<Rightarrow> string" where
  "channel_name ch = first_text (lc_names ch)"

record LbConfig =
  lb_account_id :: string
  lb_position_channel :: string
  lb_base_currency :: string

definition longbridge_config :: "string \<Rightarrow> string option \<Rightarrow> string \<Rightarrow> LbConfig" where
  "longbridge_config account channel base =
     \<lparr>lb_account_id = (if py_strip account \<noteq> [] then py_strip account else ''Longbridge''),
      lb_position_channel = py_strip (case channel of None \<Rightarrow> [] | Some c \<Rightarrow> c),
      lb_base_currency = (if py_strip base \<noteq> [] then py_upper (py_strip base) else ''USD'')\<rparr>"

text \<open>The rows of the one channel that counts: the selected one, or the only one.\<close>

definition stock_position_rows :: "LbConfig \<Rightarrow> LbApi \<Rightarrow> LbStock list result" where
  "stock_position_rows cfg api =
     rbind (la_stock_positions api) (\<lambda>channels.
       if channels = [] then Inr []
       else (let key = normalise_channel (lb_position_channel cfg);
                 matches = (if key \<noteq> [] then filter (\<lambda>ch. normalise_channel (channel_name ch) = key) channels else channels)
             in if key \<noteq> [] \<and> length matches \<noteq> 1 then Inl longbridge_config_error
                else if 1 < length matches then Inl longbridge_config_error
                else Inr (filter (\<lambda>r. safe_float (ls_quantity r) \<noteq> 0) (lc_positions (hd matches)))))"

section \<open>Lookups\<close>

text \<open>One symbol at a time: what was found, and the symbols whose lookup raised.\<close>

fun lookup_each ::
    "('a \<Rightarrow> string) \<Rightarrow> (string list \<Rightarrow> 'a list result) \<Rightarrow> string list \<Rightarrow>
       (string, 'a) dict \<times> string list \<Rightarrow> (string, 'a) dict \<times> string list" where
  "lookup_each symf ask [] acc = acc"
| "lookup_each symf ask (s # ss) (out, failed) =
     (case ask [s] of
        Inl e \<Rightarrow> lookup_each symf ask ss (out, failed @ [s])
      | Inr rows \<Rightarrow> lookup_each symf ask ss (dict_update out (rows_by_symbol symf rows), failed))"

definition quotes_by_symbol_individually ::
    "LbApi \<Rightarrow> string list \<Rightarrow> py_exc \<Rightarrow> ((string, LbQuote) dict \<times> string list) result" where
  "quotes_by_symbol_individually api symbols batch_exc =
     (case lookup_each lq_symbol (la_quote api) symbols ([], []) of
        (out, failed) \<Rightarrow> if set failed = set symbols then Inl batch_exc else Inr (out, failed))"

definition quotes_by_symbol :: "LbApi \<Rightarrow> string list \<Rightarrow> ((string, LbQuote) dict \<times> string list) result" where
  "quotes_by_symbol api symbols =
     (if symbols = [] then Inr ([], [])
      else (case la_quote api symbols of
              Inr quotes \<Rightarrow> Inr (rows_by_symbol lq_symbol quotes, [])
            | Inl e \<Rightarrow> quotes_by_symbol_individually api symbols e))"

definition static_by_symbol :: "LbApi \<Rightarrow> string list \<Rightarrow> (string, LbStatic) dict" where
  "static_by_symbol api symbols =
     (if symbols = [] then []
      else (case la_static_info api symbols of
              Inr infos \<Rightarrow> rows_by_symbol lx_symbol infos
            | Inl e \<Rightarrow> fst (lookup_each lx_symbol (la_static_info api) symbols ([], []))))"

section \<open>Rows\<close>

definition longbridge_convert_to_usd :: "rate_lookup \<Rightarrow> string \<Rightarrow> fl \<Rightarrow> fl \<Rightarrow> FxConversion result" where
  "longbridge_convert_to_usd = convert_to_usd"

definition longbridge_to_usd :: "rate_lookup \<Rightarrow> fl \<Rightarrow> string \<Rightarrow> fl result" where
  "longbridge_to_usd = to_usd"

text \<open>\<open>_text(getattr(static, a, None), d)\<close>, where there may be no static row at all.\<close>

definition opt_text :: "('a \<Rightarrow> string option) \<Rightarrow> 'a option \<Rightarrow> string \<Rightarrow> string" where
  "opt_text field v d = text_or (case v of None \<Rightarrow> None | Some x \<Rightarrow> field x) d"

definition position_from_stock_row ::
    "LbConfig \<Rightarrow> rate_lookup \<Rightarrow> LbStock \<Rightarrow> LbQuote option \<Rightarrow> LbStatic option \<Rightarrow> Position option result" where
  "position_from_stock_row cfg fx r q st =
     (let key = py_strip (ls_symbol r); qty = safe_float (ls_quantity r)
      in if key = [] \<or> qty = 0 then Inr None
         else rbind (normalise_symbol key (opt_text lx_exchange st [])) (\<lambda>ident.
           (let c = py_upper (opt_text lx_currency st (text_or (ls_currency r) ''USD''));
                name = opt_text lx_name_en st (text_or (ls_symbol_name r) key);
                cost = safe_float (ls_cost_price r);
                last_p = (case q of None \<Rightarrow> 0 | Some q \<Rightarrow> safe_float (lq_last_done q));
                prev = (case q of None \<Rightarrow> 0 | Some q \<Rightarrow> safe_float (lq_prev_close q));
                pnl = (if last_p \<noteq> 0 then (last_p - cost) * qty else 0)
            in rbind (stock_row fx ''Longbridge'' (lb_account_id cfg) key ident c name
                        qty cost last_p (qty * last_p) pnl prev) (\<lambda>p. Inr (Some p)))))"

definition account_balance_rows :: "LbConfig \<Rightarrow> LbApi \<Rightarrow> LbBalance list result" where
  "account_balance_rows cfg api = la_account_balance api (lb_base_currency cfg)"

definition cash_amount :: "LbCash \<Rightarrow> fl" where
  "cash_amount h = safe_float (lh_available h) + safe_float (lh_frozen h) + safe_float (lh_settling h)"

definition cash_code :: "LbCash \<Rightarrow> string" where
  "cash_code h = py_upper (text_or (lh_currency h) [])"

definition add_cash :: "(string, fl) dict \<Rightarrow> LbCash \<Rightarrow> (string, fl) dict" where
  "add_cash amounts h =
     (if cash_code h = [] \<or> cash_amount h = 0 then amounts
      else AList.update (cash_code h)
             ((case map_of amounts (cash_code h) of None \<Rightarrow> 0 | Some a \<Rightarrow> a) + cash_amount h) amounts)"

definition cash_amounts_of :: "LbBalance list \<Rightarrow> (string, fl) dict" where
  "cash_amounts_of balances = foldl add_cash [] (concat (map lb_cash_infos balances))"

definition sorted_items :: "(string, fl) dict \<Rightarrow> (string \<times> fl) list" where
  "sorted_items d = map (\<lambda>k. (k, the (map_of d k))) (order_by text_le (dict_keys d))"

definition cash_positions :: "LbConfig \<Rightarrow> LbApi \<Rightarrow> rate_lookup \<Rightarrow> Position list result" where
  "cash_positions cfg api fx =
     rbind (account_balance_rows cfg api) (\<lambda>balances.
       rmap_list (\<lambda>(c, amount). cash_row fx ''Longbridge'' (lb_account_id cfg) c amount)
         (sorted_items (cash_amounts_of balances)))"

definition base_balance :: "LbConfig \<Rightarrow> LbApi \<Rightarrow> LbBalance option result" where
  "base_balance cfg api =
     rbind (account_balance_rows cfg api) (\<lambda>balances.
       Inr (case find (\<lambda>b. py_upper (text_or (lb_currency b) []) = lb_base_currency cfg) balances of
              Some b \<Rightarrow> Some b
            | None \<Rightarrow> (case balances of [] \<Rightarrow> None | b # bs \<Rightarrow> Some b)))"

section \<open>Fetching\<close>

definition lookup_ok :: "LbStock \<Rightarrow> bool" where
  "lookup_ok r = (case validate_symbol_for_lookup (py_strip (ls_symbol r)) of Inl e \<Rightarrow> False | Inr u \<Rightarrow> True)"

text \<open>The rows in order; one whose quote lookup raised is skipped, and so is one that cannot be mapped.\<close>

fun stock_positions ::
    "LbConfig \<Rightarrow> rate_lookup \<Rightarrow> (string, LbQuote) dict \<Rightarrow> string list \<Rightarrow> (string, LbStatic) dict \<Rightarrow> LbStock list \<Rightarrow>
       Position list result" where
  "stock_positions cfg fx quotes failed statics [] = Inr []"
| "stock_positions cfg fx quotes failed statics (r # rs) =
     (let sym = py_strip (ls_symbol r)
      in if sym \<in> set failed then stock_positions cfg fx quotes failed statics rs
         else (case position_from_stock_row cfg fx r (map_of quotes sym) (map_of statics sym) of
                 Inl e \<Rightarrow> if e = longbridge_data_error then stock_positions cfg fx quotes failed statics rs else Inl e
               | Inr None \<Rightarrow> stock_positions cfg fx quotes failed statics rs
               | Inr (Some p) \<Rightarrow> rbind (stock_positions cfg fx quotes failed statics rs) (\<lambda>ps. Inr (p # ps))))"

definition longbridge_fetch_positions :: "LbConfig \<Rightarrow> LbApi \<Rightarrow> rate_lookup \<Rightarrow> Position list result" where
  "longbridge_fetch_positions cfg api fx =
     rbind (stock_position_rows cfg api) (\<lambda>rows.
       (let stocks = filter lookup_ok rows; symbols = map (\<lambda>r. py_strip (ls_symbol r)) stocks
        in rbind (quotes_by_symbol api symbols) (\<lambda>(quotes, failed).
           rbind (stock_positions cfg fx quotes failed (static_by_symbol api symbols) stocks) (\<lambda>ps.
           rbind (cash_positions cfg api fx) (\<lambda>cash. Inr (ps @ cash))))))"

definition longbridge_get_positions ::
    "LbConfig \<Rightarrow> LbApi \<Rightarrow> rate_lookup \<Rightarrow> ConnectionState \<Rightarrow> Position list result" where
  "longbridge_get_positions cfg api fx state =
     (if state \<noteq> CONNECTED then Inr [] else longbridge_fetch_positions cfg api fx)"

definition longbridge_get_account_summary ::
    "LbConfig \<Rightarrow> LbApi \<Rightarrow> rate_lookup \<Rightarrow> ConnectionState \<Rightarrow> AccountSummary list result" where
  "longbridge_get_account_summary cfg api fx state =
     (if state \<noteq> CONNECTED then Inr []
      else rbind (base_balance cfg api) (\<lambda>found.
        case found of
          None \<Rightarrow> Inr []
        | Some b \<Rightarrow>
           (let c = py_upper (text_or (lb_currency b) (lb_base_currency cfg));
                nlv = safe_float (lb_net_assets b); cash = safe_float (lb_total_cash b);
                power = safe_float (lb_buy_power b);
                gross = (if 0 < nlv - cash then nlv - cash else 0)
            in rbind (longbridge_to_usd fx nlv c) (\<lambda>nlv_usd.
               rbind (longbridge_to_usd fx cash c) (\<lambda>cash_usd.
               rbind (longbridge_to_usd fx power c) (\<lambda>power_usd.
               rbind (longbridge_to_usd fx gross c) (\<lambda>gross_usd.
                 Inr [\<lparr>as_broker = ''Longbridge'', as_account_id = lb_account_id cfg, base_currency = c,
                   net_liquidation_usd = nlv_usd, cash_usd = cash_usd, buying_power_usd = power_usd,
                   net_liquidation_native = nlv, gross_position_value_usd = gross_usd\<rparr>])))))))"

text \<open>What one \<open>connect\<close> meets once its clients are built, in the terms of the life cycle.\<close>

definition longbridge_connect_outcome :: "LbConfig \<Rightarrow> LbApi \<Rightarrow> rate_lookup \<Rightarrow> attempt" where
  "longbridge_connect_outcome cfg api fx =
     (case longbridge_fetch_positions cfg api fx of
        Inl e \<Rightarrow> FetchFails (if e = longbridge_config_error then ConfigFailure else OtherFailure)
      | Inr ps \<Rightarrow> Fetched ps)"

section \<open>Lemmas\<close>

lemma lookup_ok_normalises:
  assumes "lookup_ok r"
  shows "\<exists>ident. normalise_symbol (py_strip (ls_symbol r)) hint = Inr ident \<and> py_strip (ls_symbol r) \<noteq> []"
  using assms
  by (auto simp: lookup_ok_def validate_symbol_for_lookup_def normalise_symbol_def Let_def split_last_def
      split: option.splits sum.splits if_splits)

lemma lookup_each_failed:
  "snd (lookup_each symf ask ss (out, failed)) = failed @ filter (\<lambda>s. isl (ask [s])) ss"
  by (induction ss arbitrary: out failed) (auto split: sum.splits)

definition failed_lookups :: "LbApi \<Rightarrow> string list \<Rightarrow> string list" where
  "failed_lookups api symbols =
     (if symbols = [] \<or> \<not> isl (la_quote api symbols) then []
      else filter (\<lambda>s. isl (la_quote api [s])) symbols)"

lemma quotes_failed: "quotes_by_symbol api symbols = Inr (quotes, failed) \<Longrightarrow> failed = failed_lookups api symbols"
  using lookup_each_failed [of lq_symbol "la_quote api" symbols "[]" "[]"]
  by (auto simp: quotes_by_symbol_def failed_lookups_def quotes_by_symbol_individually_def
      split: if_splits sum.splits prod.splits)

lemma stock_row_built:
  assumes "lookup_ok r" "safe_float (ls_quantity r) \<noteq> 0" "rates_ok fx"
  shows "\<exists>p. position_from_stock_row cfg fx r q st = Inr (Some p) \<and> native_key p = py_strip (ls_symbol r)
    \<and> asset_class p = ''STK'' \<and> last_price p = (case q of None \<Rightarrow> 0 | Some q \<Rightarrow> safe_float (lq_last_done q))"
proof -
  let ?key = "py_strip (ls_symbol r)"
  obtain ident where ident: "normalise_symbol ?key (opt_text lx_exchange st []) = Inr ident" "?key \<noteq> []"
    using lookup_ok_normalises [OF assms(1)] by blast
  then obtain c n co pnl pr where row: "position_from_stock_row cfg fx r q st
      = rbind (stock_row fx ''Longbridge'' (lb_account_id cfg) ?key ident c n (safe_float (ls_quantity r)) co
          (case q of None \<Rightarrow> 0 | Some q \<Rightarrow> safe_float (lq_last_done q))
          (safe_float (ls_quantity r) * (case q of None \<Rightarrow> 0 | Some q \<Rightarrow> safe_float (lq_last_done q))) pnl pr)
        (\<lambda>p. Inr (Some p))"
    using assms(2) by (simp add: position_from_stock_row_def Let_def)
  obtain p where p: "stock_row fx ''Longbridge'' (lb_account_id cfg) ?key ident c n (safe_float (ls_quantity r)) co
          (case q of None \<Rightarrow> 0 | Some q \<Rightarrow> safe_float (lq_last_done q))
          (safe_float (ls_quantity r) * (case q of None \<Rightarrow> 0 | Some q \<Rightarrow> safe_float (lq_last_done q))) pnl pr = Inr p"
    by (rule stock_row_returns [OF assms(3)])
  from stock_row_fields [OF p] p row show ?thesis by simp
qed

lemma stock_positions_keys:
  assumes "list_all (\<lambda>r. lookup_ok r \<and> safe_float (ls_quantity r) \<noteq> 0) rs" "rates_ok fx"
  shows "\<exists>ps. stock_positions cfg fx quotes failed statics rs = Inr ps
    \<and> map native_key ps = filter (\<lambda>s. s \<notin> set failed) (map (\<lambda>r. py_strip (ls_symbol r)) rs)
    \<and> list_all (\<lambda>p. asset_class p = ''STK'' \<and> last_price p =
        (case map_of quotes (native_key p) of None \<Rightarrow> 0 | Some q \<Rightarrow> safe_float (lq_last_done q))) ps"
  using assms(1)
proof (induction rs)
  case (Cons r rs)
  let ?sym = "py_strip (ls_symbol r)"
  obtain ps where ps: "stock_positions cfg fx quotes failed statics rs = Inr ps"
    "map native_key ps = filter (\<lambda>s. s \<notin> set failed) (map (\<lambda>r. py_strip (ls_symbol r)) rs)"
    "list_all (\<lambda>p. asset_class p = ''STK'' \<and> last_price p =
        (case map_of quotes (native_key p) of None \<Rightarrow> 0 | Some q \<Rightarrow> safe_float (lq_last_done q))) ps"
    using Cons by auto
  obtain p where p: "position_from_stock_row cfg fx r (map_of quotes ?sym) (map_of statics ?sym) = Inr (Some p)"
    "native_key p = ?sym" "asset_class p = ''STK''"
    "last_price p = (case map_of quotes ?sym of None \<Rightarrow> 0 | Some q \<Rightarrow> safe_float (lq_last_done q))"
    using stock_row_built [of r fx cfg "map_of quotes ?sym" "map_of statics ?sym"] Cons.prems assms(2) by auto
  show ?case
  proof (cases "?sym \<in> set failed")
    case True
    with ps show ?thesis by simp
  next
    case False
    with ps p show ?thesis by (intro exI [of _ "p # ps"]) (simp add: Let_def)
  qed
qed simp

lemma cash_positions_class:
  "cash_positions cfg api fx = Inr ps \<Longrightarrow> list_all (\<lambda>p. asset_class p = ''CASH'') ps"
  unfolding cash_positions_def rbind_Inr_iff list_all_iff
  by (auto dest!: rmap_list_mem dest: cash_row_fields)

lemma stock_position_rows_nonzero:
  "stock_position_rows cfg api = Inr rows \<Longrightarrow> list_all (\<lambda>r. safe_float (ls_quantity r) \<noteq> 0) rows"
  by (auto simp: stock_position_rows_def rbind_Inr_iff Let_def list_all_iff split: if_splits)

lemma add_cash_get:
  "map_of (add_cash d h) c = (if c \<noteq> [] \<and> cash_code h = c \<and> cash_amount h \<noteq> 0
     then Some ((case map_of d c of None \<Rightarrow> 0 | Some a \<Rightarrow> a) + cash_amount h) else map_of d c)"
  by (auto simp: add_cash_def dict_simps)

lemma add_cash_total:
  "map_of (foldl add_cash d hs) c =
     (let xs = filter (\<lambda>h. cash_code h = c \<and> cash_amount h \<noteq> 0) hs
      in if c = [] \<or> xs = [] then map_of d c
         else Some ((case map_of d c of None \<Rightarrow> 0 | Some a \<Rightarrow> a) + sum_list (map cash_amount xs)))"
proof (induction hs arbitrary: d)
  case (Cons h hs)
  show ?case
    by (simp add: Cons.IH add_cash_get Let_def add.assoc split: option.splits)
qed simp

lemma add_cash_wf: "dict_wf d \<Longrightarrow> dict_wf (foldl add_cash d hs)"
  by (induction hs arbitrary: d) (auto simp: add_cash_def)

lemma sorted_items_keys: "map fst (sorted_items d) = order_by text_le (dict_keys d)"
  by (simp add: sorted_items_def comp_def)

section \<open>Properties\<close>

text \<open>C19. Longbridge publishes every row whose symbol it can look up, in the order given, except exactly
  those whose own quote lookup raised after the batch had raised; each is priced with its quote, or
  with zero when the answer lacks it. The rows it cannot look up are left out before any call.\<close>
theorem longbridge_rows_published:
  assumes "longbridge_fetch_positions cfg api fx = Inr ps" "stock_position_rows cfg api = Inr rows" "rates_ok fx"
    and symbols: "symbols = map (\<lambda>r. py_strip (ls_symbol r)) (filter lookup_ok rows)"
  shows "map native_key (filter (\<lambda>p. asset_class p = ''STK'') ps)
      = filter (\<lambda>s. s \<notin> set (failed_lookups api symbols)) symbols
    \<and> (\<exists>quotes failed. quotes_by_symbol api symbols = Inr (quotes, failed)
        \<and> list_all (\<lambda>p. asset_class p = ''STK'' \<longrightarrow> last_price p =
             (case map_of quotes (native_key p) of None \<Rightarrow> 0 | Some q \<Rightarrow> safe_float (lq_last_done q))) ps)"
proof -
  let ?stocks = "filter lookup_ok rows"
  obtain quotes failed stk cash where q: "quotes_by_symbol api symbols = Inr (quotes, failed)"
    and stk: "stock_positions cfg fx quotes failed (static_by_symbol api symbols) ?stocks = Inr stk"
    and cash: "cash_positions cfg api fx = Inr cash" and ps: "ps = stk @ cash"
    using assms(1,2) unfolding longbridge_fetch_positions_def symbols by (auto simp: rbind_Inr_iff Let_def)
  have "list_all (\<lambda>r. lookup_ok r \<and> safe_float (ls_quantity r) \<noteq> 0) ?stocks"
    using stock_position_rows_nonzero [OF assms(2)] by (auto simp: list_all_iff)
  from stock_positions_keys [OF this assms(3), of cfg quotes failed "static_by_symbol api symbols"] stk
  have keys: "map native_key stk = filter (\<lambda>s. s \<notin> set failed) symbols"
    and price: "list_all (\<lambda>p. asset_class p = ''STK'' \<and> last_price p =
        (case map_of quotes (native_key p) of None \<Rightarrow> 0 | Some q \<Rightarrow> safe_float (lq_last_done q))) stk"
    by (simp_all add: symbols)
  have cls: "list_all (\<lambda>p. asset_class p = ''CASH'') cash" by (rule cash_positions_class [OF cash])
  have "filter (\<lambda>p. asset_class p = ''STK'') stk = stk" "filter (\<lambda>p. asset_class p = ''STK'') cash = []"
    using price cls by (auto simp: filter_id_conv filter_empty_conv list_all_iff)
  then have "map native_key (filter (\<lambda>p. asset_class p = ''STK'') ps)
      = filter (\<lambda>s. s \<notin> set (failed_lookups api symbols)) symbols"
    using keys quotes_failed [OF q] by (simp add: ps)
  moreover have "list_all (\<lambda>p. asset_class p = ''STK'' \<longrightarrow> last_price p =
      (case map_of quotes (native_key p) of None \<Rightarrow> 0 | Some q \<Rightarrow> safe_float (lq_last_done q))) ps"
    using price cls by (auto simp: ps list_all_iff)
  ultimately show ?thesis using q by blast
qed

definition demo_lb_row :: "string \<Rightarrow> LbStock" where
  "demo_lb_row s = \<lparr>ls_symbol = s, ls_quantity = VInt 100, ls_currency = Some ''USD'', ls_symbol_name = None, ls_cost_price = VInt 1\<rparr>"

text \<open>A batch that raises, one of two symbols whose own lookup raises too, and a row with no market.\<close>

definition demo_lb_api :: LbApi where
  "demo_lb_api =
     \<lparr>la_stock_positions = Inr [\<lparr>lc_names = [Some ''lb''], lc_positions = map demo_lb_row [''700.HK'', ''AAPL.US'', ''XYZ'']\<rparr>],
      la_quote = (\<lambda>ss. if ss = [''700.HK''] then Inr [\<lparr>lq_symbol = ''700.HK'', lq_last_done = VInt 320, lq_prev_close = VNone\<rparr>]
                       else Inl TimeoutError),
      la_static_info = (\<lambda>ss. Inr []),
      la_account_balance = (\<lambda>c. Inr [\<lparr>lb_currency = Some c, lb_net_assets = VInt 9, lb_total_cash = VInt 4, lb_buy_power = VNone,
         lb_cash_infos = [\<lparr>lh_currency = Some ''hkd'', lh_available = VInt 3, lh_frozen = VInt 1, lh_settling = VNone\<rparr>,
           \<lparr>lh_currency = Some ''HKD'', lh_available = VInt 2, lh_frozen = VNone, lh_settling = VNone\<rparr>]\<rparr>])\<rparr>"

definition demo_lb_cfg :: LbConfig where
  "demo_lb_cfg = longbridge_config ''A1'' None ''usd''"

lemma demo_lb_fetch:
  obtains ps where "longbridge_fetch_positions demo_lb_cfg demo_lb_api None = Inr ps"
    "map canonical_symbol ps = [''700.HK'', ''HKD'']"
proof (cases "longbridge_fetch_positions demo_lb_cfg demo_lb_api None")
  case (Inl e)
  have "(case longbridge_fetch_positions demo_lb_cfg demo_lb_api None of Inr ps \<Rightarrow> True | Inl e \<Rightarrow> False)" by code_simp
  with Inl show thesis by simp
next
  case (Inr ps)
  have "(case longbridge_fetch_positions demo_lb_cfg demo_lb_api None of Inr ps \<Rightarrow> map canonical_symbol ps | Inl e \<Rightarrow> [])
      = [''700.HK'', ''HKD'']"
    by code_simp
  with Inr that show thesis by simp
qed

lemma demo_lb_cash:
  obtains ps where "cash_positions demo_lb_cfg demo_lb_api None = Inr ps"
proof (cases "cash_positions demo_lb_cfg demo_lb_api None")
  case (Inl e)
  have "(case cash_positions demo_lb_cfg demo_lb_api None of Inr ps \<Rightarrow> True | Inl e \<Rightarrow> False)" by code_simp
  with Inl show thesis by simp
qed (rule that)

theorem longbridge_rows_published_witness:
  "\<exists>ps. longbridge_fetch_positions demo_lb_cfg demo_lb_api None = Inr ps
     \<and> map native_key (filter (\<lambda>p. asset_class p = ''STK'') ps) = [''700.HK'']"
proof -
  obtain ps where ps: "longbridge_fetch_positions demo_lb_cfg demo_lb_api None = Inr ps"
    by (rule demo_lb_fetch)
  have rows: "stock_position_rows demo_lb_cfg demo_lb_api = Inr (map demo_lb_row [''700.HK'', ''AAPL.US'', ''XYZ''])"
    by code_simp
  have symbols: "map (\<lambda>r. py_strip (ls_symbol r)) (filter lookup_ok (map demo_lb_row [''700.HK'', ''AAPL.US'', ''XYZ'']))
      = [''700.HK'', ''AAPL.US'']"
    "filter (\<lambda>s. s \<notin> set (failed_lookups demo_lb_api [''700.HK'', ''AAPL.US''])) [''700.HK'', ''AAPL.US''] = [''700.HK'']"
    by code_simp+
  from longbridge_rows_published [OF ps rows rates_ok_none refl, THEN conjunct1] ps symbols show ?thesis by auto
qed

text \<open>C34. The cash shown is the cash there is: one row per currency with a nonzero entry in any balance, in
  order of currency, holding the sum of available, frozen and settling cash over all of them.\<close>
theorem longbridge_cash_totals:
  assumes "cash_positions cfg api fx = Inr ps" "account_balance_rows cfg api = Inr balances"
    and entries: "entries = filter (\<lambda>h. cash_code h \<noteq> [] \<and> cash_amount h \<noteq> 0) (concat (map lb_cash_infos balances))"
  shows "distinct (map currency ps) \<and> sorted_wrt text_le (map currency ps)
    \<and> set (map currency ps) = set (map cash_code entries)
    \<and> list_all (\<lambda>p. quantity p = sum_list (map cash_amount (filter (\<lambda>h. cash_code h = currency p) entries))) ps"
proof -
  let ?d = "cash_amounts_of balances" and ?hs = "concat (map lb_cash_infos balances)"
  have get: "map_of ?d c = (if c \<notin> set (map cash_code entries) then None
      else Some (sum_list (map cash_amount (filter (\<lambda>h. cash_code h = c) entries))))" for c
  proof -
    have e: "filter (\<lambda>h. cash_code h = c) entries
        = (if c = [] then [] else filter (\<lambda>h. cash_code h = c \<and> cash_amount h \<noteq> 0) ?hs)"
      unfolding entries by (auto simp: filter_empty_conv intro: filter_cong)
    have "c \<in> set (map cash_code entries) \<longleftrightarrow> filter (\<lambda>h. cash_code h = c) entries \<noteq> []"
      by (auto simp: filter_empty_conv)
    with e add_cash_total [of "[]" ?hs c] show ?thesis
      by (simp add: cash_amounts_of_def Let_def split: if_splits)
  qed
  have wf: "dict_wf ?d" by (simp add: cash_amounts_of_def add_cash_wf)
  have rows: "rmap_list (\<lambda>(c, amount). cash_row fx ''Longbridge'' (lb_account_id cfg) c amount) (sorted_items ?d) = Inr ps"
    using assms(1,2) by (simp add: cash_positions_def)
  have "map (\<lambda>p. (currency p, quantity p)) ps = map (\<lambda>x. x) (sorted_items ?d)"
    by (rule rmap_list_map_eq [OF rows]) (auto dest: cash_row_fields)
  then have items: "map (\<lambda>p. (currency p, quantity p)) ps = sorted_items ?d" by simp
  then have "map currency ps = map fst (sorted_items ?d)" by (metis (no_types, lifting) comp_apply fst_conv list.map_cong0 map_map)
  then have cur: "map currency ps = order_by text_le (dict_keys ?d)" by (simp add: sorted_items_keys)
  have keys: "set (dict_keys ?d) = set (map cash_code entries)"
    using get by (auto simp: dict_keys_def dom_map_of_conv_image_fst [symmetric] domIff split: if_splits)
  have "quantity p = sum_list (map cash_amount (filter (\<lambda>h. cash_code h = currency p) entries))" if "p \<in> set ps" for p
  proof -
    have "(currency p, quantity p) \<in> set (sorted_items ?d)" using that unfolding items [symmetric] by force
    then have "quantity p = the (map_of ?d (currency p))" "currency p \<in> set (dict_keys ?d)"
      by (auto simp: sorted_items_def)
    with keys get show ?thesis by simp
  qed
  moreover have "sorted_wrt text_le (order_by text_le (dict_keys ?d))"
    by (intro sorted_order_by text_le_total) (auto intro: text_le_trans)
  moreover have "distinct (dict_keys ?d)" using wf by (simp add: dict_wf_def dict_keys_def)
  ultimately show ?thesis unfolding cur by (simp add: keys list_all_iff)
qed

theorem longbridge_cash_totals_witness:
  "\<exists>ps. cash_positions demo_lb_cfg demo_lb_api None = Inr ps \<and> set (map currency ps) = {''HKD''}"
proof -
  obtain ps where ps: "cash_positions demo_lb_cfg demo_lb_api None = Inr ps"
    by (rule demo_lb_cash)
  obtain balances where b: "account_balance_rows demo_lb_cfg demo_lb_api = Inr balances"
    by (simp add: account_balance_rows_def demo_lb_api_def)
  have "(case account_balance_rows demo_lb_cfg demo_lb_api of Inl e \<Rightarrow> [] | Inr balances \<Rightarrow>
      map cash_code (filter (\<lambda>h. cash_code h \<noteq> [] \<and> cash_amount h \<noteq> 0) (concat (map lb_cash_infos balances)))) = [''HKD'', ''HKD'']"
    by code_simp
  then have "set (map cash_code (filter (\<lambda>h. cash_code h \<noteq> [] \<and> cash_amount h \<noteq> 0) (concat (map lb_cash_infos balances)))) = {''HKD''}"
    by (simp add: b)
  with longbridge_cash_totals [OF ps b refl] ps show ?thesis by auto
qed

text \<open>With several position channels and none selected, or a selector that fits none or several of
  them, Longbridge is disabled and not retried: a start ends disconnected with no reconnect task, and
  a reconnect attempt ends the loop.\<close>
theorem longbridge_ambiguous_channel_disables:
  assumes "la_stock_positions api = Inr channels" "channels \<noteq> []"
    and "if normalise_channel (lb_position_channel cfg) = [] then 1 < length channels
      else length (filter (\<lambda>ch. normalise_channel (channel_name ch) = normalise_channel (lb_position_channel cfg)) channels) \<noteq> 1"
    and "pa_state s \<noteq> CONNECTED"
  shows "\<forall>s' \<in> {longbridge_start delays (longbridge_connect_outcome cfg api fx) s,
      longbridge_reconnect_loop delays i (longbridge_connect_outcome cfg api fx) s}.
    pa_state s' = DISCONNECTED \<and> pa_loop s' = NoTask \<and> pa_backoff s' = None \<and> pa_live s' = pa_live s"
proof -
  have "stock_position_rows cfg api = Inl longbridge_config_error"
    using assms(1-3) by (auto simp: stock_position_rows_def Let_def)
  then have "longbridge_connect_outcome cfg api fx = FetchFails ConfigFailure"
    by (simp add: longbridge_connect_outcome_def longbridge_fetch_positions_def)
  then show ?thesis
    using assms(4)
    by (simp add: longbridge_start_def longbridge_reconnect_loop_def poll_start_def reconnect_wake_def
        longbridge_connect_def connect_defs)
qed

theorem longbridge_ambiguous_channel_disables_witness:
  "pa_state (longbridge_start [5] (longbridge_connect_outcome demo_lb_cfg
      (demo_lb_api\<lparr>la_stock_positions := Inr [\<lparr>lc_names = [], lc_positions = []\<rparr>, \<lparr>lc_names = [], lc_positions = []\<rparr>]\<rparr>) None)
    (adapter_new None True)) = DISCONNECTED"
proof -
  have "normalise_channel (lb_position_channel demo_lb_cfg) = []" by code_simp
  with longbridge_ambiguous_channel_disables [of "demo_lb_api\<lparr>la_stock_positions := Inr [\<lparr>lc_names = [], lc_positions = []\<rparr>,
      \<lparr>lc_names = [], lc_positions = []\<rparr>]\<rparr>" "[\<lparr>lc_names = [], lc_positions = []\<rparr>, \<lparr>lc_names = [], lc_positions = []\<rparr>]"
      demo_lb_cfg "adapter_new None True" "[5]" None]
  show ?thesis by (simp add: adapter_new_def)
qed

end
