(* ===== verification/Tiger.thy ===== *)
theory Tiger
  imports Futu Longbridge
begin

text \<open>
  \<open>app/adapters/tiger.py\<close>, \<open>tiger_mapping.py\<close> and \<open>tiger_config.py\<close>: the settings read from the
  environment, the accounts, the mapping of positions, quotes and assets, and the fetches the
  dashboard makes. The SDK's answers are parameters; what a payload object lacks is \<open>None\<close> or \<open>VNone\<close>.
  The rows of a quote answer are dictionaries, as Futu's rows are.
\<close>

section \<open>Settings\<close>

type_synonym env = "string \<Rightarrow> string option"

record TigerSettings =
  ts_config_dir :: "string option"
  ts_tiger_id :: "string option"
  ts_account :: "string option"
  ts_private_key :: "string option"
  ts_private_key_path :: "string option"
  ts_base_currency :: string
  ts_markets :: "string list"
  ts_poll_interval_s :: fl

definition env_text :: "env \<Rightarrow> string \<Rightarrow> string option" where
  "env_text env name =
     (let v = py_strip (case env name of None \<Rightarrow> [] | Some s \<Rightarrow> s) in if v = [] then None else Some v)"

definition env_or :: "env \<Rightarrow> string \<Rightarrow> string \<Rightarrow> string" where
  "env_or env name d = (case env name of None \<Rightarrow> d | Some s \<Rightarrow> if s = [] then d else s)"

definition upper_parts :: "string list \<Rightarrow> string list" where
  "upper_parts parts = map (\<lambda>p. py_upper (py_strip p)) (filter (\<lambda>p. py_strip p \<noteq> []) parts)"

definition env_list :: "env \<Rightarrow> string \<Rightarrow> string \<Rightarrow> string list" where
  "env_list env name d = upper_parts (split_on comma (env_or env name d))"

text \<open>\<open>str(Path(text).expanduser())\<close> is \<open>expand\<close>, which raises a RuntimeError where a home directory
  cannot be found.\<close>

definition clean_path :: "(string \<Rightarrow> string result) \<Rightarrow> string option \<Rightarrow> string option result" where
  "clean_path expand v =
     (let t = py_strip (case v of None \<Rightarrow> [] | Some s \<Rightarrow> s)
      in if t = [] then Inr None else rbind (expand t) (\<lambda>path. Inr (Some path)))"

definition base_currency_or_usd :: "string \<Rightarrow> string" where
  "base_currency_or_usd s = (if py_strip s = [] then ''USD'' else py_upper (py_strip s))"

definition tiger_settings_from_env :: "(string \<Rightarrow> string result) \<Rightarrow> env \<Rightarrow> TigerSettings result" where
  "tiger_settings_from_env expand env =
     rbind (clean_path expand (env_text env ''TIGER_CONFIG_DIR'')) (\<lambda>dir.
     rbind (py_float (VStr (env_or env ''TIGER_POLL_INTERVAL_S'' ''30''))) (\<lambda>interval.
       Inr \<lparr>ts_config_dir = dir,
         ts_tiger_id = env_text env ''TIGER_ID'', ts_account = env_text env ''TIGER_ACCOUNT'',
         ts_private_key = env_text env ''TIGER_PRIVATE_KEY'',
         ts_private_key_path = env_text env ''TIGER_PRIVATE_KEY_PATH'',
         ts_base_currency = base_currency_or_usd (env_or env ''TIGER_BASE_CURRENCY'' ''USD''),
         ts_markets = env_list env ''TIGER_MARKETS'' ''US,HK,SG,AU,CN'',
         ts_poll_interval_s = interval\<rparr>))"

text \<open>What the constructor keeps of them.\<close>

record TigerConfig =
  tc_account :: "string option"
  tc_base_currency :: string
  tc_markets :: "string list"

definition tiger_config :: "string option \<Rightarrow> string \<Rightarrow> string list \<Rightarrow> TigerConfig" where
  "tiger_config account base markets =
     \<lparr>tc_account = (let a = py_strip (case account of None \<Rightarrow> [] | Some s \<Rightarrow> s) in if a = [] then None else Some a),
      tc_base_currency = base_currency_or_usd base,
      tc_markets = dict_keys (dict_of (map (\<lambda>m. (m, ())) (upper_parts markets)))\<rparr>"

definition tiger_config_error :: py_exc where
  "tiger_config_error = OtherError ''TigerConfigError''"

definition tiger_data_error :: py_exc where
  "tiger_data_error = OtherError ''TigerDataError''"

section \<open>Accounts\<close>

record TigerProfile =
  tp_account :: "string option"
  tp_status :: pyval
  tp_account_type :: pyval

record TigerAccountRef =
  tr_account_id :: string
  tr_account_type :: string

definition SUPPORTED_ACCOUNT_TYPES :: "string list" where
  "SUPPORTED_ACCOUNT_TYPES = [''GLOBAL'', ''STANDARD'', ''PAPER'']"

definition tiger_normalise_enum_text :: "(pyval \<Rightarrow> string) \<Rightarrow> pyval \<Rightarrow> string" where
  "tiger_normalise_enum_text = normalise_enum_text"

definition account_is_active :: "(pyval \<Rightarrow> string) \<Rightarrow> TigerProfile \<Rightarrow> bool" where
  "account_is_active rt p = (tiger_normalise_enum_text rt (tp_status p) \<in> {[], ''FUNDED'', ''OPEN''})"

definition account_type :: "(pyval \<Rightarrow> string) \<Rightarrow> TigerProfile \<Rightarrow> string result" where
  "account_type rt p =
     (let v = tiger_normalise_enum_text rt (tp_account_type p)
      in if v = [] \<or> v \<notin> set SUPPORTED_ACCOUNT_TYPES then Inl tiger_config_error else Inr v)"

fun note_profiles ::
    "TigerConfig \<Rightarrow> (pyval \<Rightarrow> string) \<Rightarrow> TigerProfile list \<Rightarrow> (string, TigerAccountRef) dict \<Rightarrow>
       (string, TigerAccountRef) dict result" where
  "note_profiles cfg rt [] out = Inr out"
| "note_profiles cfg rt (p # ps) out =
     (let a = text_or (tp_account p) []
      in if a = [] then note_profiles cfg rt ps out
         else if tc_account cfg = None \<and> \<not> account_is_active rt p then note_profiles cfg rt ps out
         else rbind (account_type rt p) (\<lambda>t.
           note_profiles cfg rt ps (AList.update a \<lparr>tr_account_id = a, tr_account_type = t\<rparr> out)))"

definition tiger_load_accounts ::
    "TigerConfig \<Rightarrow> (pyval \<Rightarrow> string) \<Rightarrow> TigerProfile list result \<Rightarrow> (string, TigerAccountRef) dict result" where
  "tiger_load_accounts cfg rt profiles =
     rbind profiles (\<lambda>ps.
     rbind (note_profiles cfg rt ps []) (\<lambda>out.
       case tc_account cfg of
         Some a \<Rightarrow> if a \<notin> set (dict_keys out) then Inl tiger_config_error
                   else if out = [] then Inl tiger_config_error else Inr out
       | None \<Rightarrow> if out = [] then Inl tiger_config_error else Inr out))"

section \<open>Symbols\<close>

definition MARKET_TO_EXCHANGE :: "(string, string) dict" where
  "MARKET_TO_EXCHANGE = [(''US'', ''NYSE''), (''HK'', ''SEHK''), (''SG'', ''SGX''), (''AU'', ''ASX'')]"

definition primary_exchange_for_contract :: "string \<Rightarrow> string \<Rightarrow> string \<Rightarrow> string result" where
  "primary_exchange_for_contract raw_symbol market exchange_hint =
     (let exch = py_upper (py_strip exchange_hint)
      in if map_of IB_EXCHANGE_TO_SUFFIX exch \<noteq> None then Inr exch
         else if market = ''CN'' then Inr (if take 1 raw_symbol = ''6'' then ''SSE'' else ''SZSE'')
         else (case map_of MARKET_TO_EXCHANGE market of
                 None \<Rightarrow> Inl tiger_data_error | Some e \<Rightarrow> Inr e))"

definition normalise_contract_symbol :: "string \<Rightarrow> string \<Rightarrow> string \<Rightarrow> (string \<times> string \<times> string) result" where
  "normalise_contract_symbol symbol market exchange_hint =
     (let raw_symbol = py_strip symbol
      in if raw_symbol = [] then Inl tiger_data_error
         else rbind (primary_exchange_for_contract raw_symbol market exchange_hint) (\<lambda>exch.
           case map_of IB_EXCHANGE_TO_SUFFIX exch of
             None \<Rightarrow> Inl KeyError
           | Some suffix \<Rightarrow>
              (let stripped = (if suffix = ''HK'' then lstrip_zeros raw_symbol else raw_symbol);
                   native = (if stripped \<noteq> [] then stripped else ''0'')
               in case canonical_symbol_of native exch of
                    Inl e \<Rightarrow> Inl tiger_data_error
                  | Inr canonical \<Rightarrow> Inr (native, canonical, exch))))"

section \<open>Assets\<close>

record TigerCash =
  tg_currency :: "string option"
  tg_cash_balance :: pyval

record TigerAssets =
  ta_currency :: "string option"
  ta_net_liquidation :: pyval
  ta_cash :: pyval
  ta_buying_power :: "pyval list"
  ta_gross_position_value :: pyval
  ta_currency_assets :: "(string, TigerCash) dict"

record TigerAssetSnapshot =
  tn_account :: TigerAccountRef
  tn_currency :: string
  tn_net_liquidation :: fl
  tn_cash :: fl
  tn_buying_power :: fl
  tn_gross_position_value :: fl
  tn_cash_amounts :: "(string, fl) dict"

text \<open>\<open>ta_cash\<close> is the \<open>cash_balance\<close> of a segment and the \<open>cash\<close> of a summary; the buying powers are
  \<open>buying_power\<close> and then \<open>cash_available_for_trade\<close>.

  The amounts by currency: of a segment's \<open>currency_assets\<close>, and of the \<open>market_values\<close> of a global
  account, which may be spelled in the singular. The key is the currency where the entry has none.\<close>

definition add_amount :: "(string, fl) dict \<Rightarrow> string \<times> TigerCash \<Rightarrow> (string, fl) dict" where
  "add_amount out entry =
     (case entry of (key, a) \<Rightarrow>
        (let code = py_upper (text_or (tg_currency a) key)
         in AList.update code ((case map_of out code of None \<Rightarrow> 0 | Some v \<Rightarrow> v) + safe_float (tg_cash_balance a)) out))"

definition prime_cash_amounts :: "(string, TigerCash) dict \<Rightarrow> (string, fl) dict" where
  "prime_cash_amounts currency_assets = foldl add_amount [] currency_assets"

definition global_cash_amounts :: "(string, TigerCash) dict \<Rightarrow> (string, TigerCash) dict \<Rightarrow> (string, fl) dict" where
  "global_cash_amounts market_values market_value =
     foldl add_amount [] (if market_values \<noteq> [] then market_values else market_value)"

text \<open>A prime account's segments by key; \<open>None\<close> where there are no segments to look into. A global
  account has a summary and its market values.\<close>

record PrimeAssets =
  tpa_segments :: "(string, TigerAssets option) dict option"

record GlobalAssets =
  tga_summary :: "TigerAssets option"
  tga_market_values :: "(string, TigerCash) dict"
  tga_market_value :: "(string, TigerCash) dict"

definition security_segment :: "PrimeAssets option \<Rightarrow> TigerAssets option" where
  "security_segment assets =
     (case assets of
        None \<Rightarrow> None
      | Some a \<Rightarrow>
          (case tpa_segments a of
             None \<Rightarrow> None
           | Some segs \<Rightarrow>
               (case map_of segs ''S'' of
                  Some (Some s) \<Rightarrow> Some s
                | _ \<Rightarrow> (case map_of segs ''SEC'' of Some (Some s) \<Rightarrow> Some s | _ \<Rightarrow> None))))"

definition prime_asset_snapshot ::
    "TigerConfig \<Rightarrow> TigerAccountRef \<Rightarrow> PrimeAssets option \<Rightarrow> TigerAssetSnapshot option" where
  "prime_asset_snapshot cfg ref assets =
     (case security_segment assets of
        None \<Rightarrow> None
      | Some s \<Rightarrow>
          Some \<lparr>tn_account = ref, tn_currency = py_upper (text_or (ta_currency s) (tc_base_currency cfg)),
            tn_net_liquidation = safe_float (ta_net_liquidation s), tn_cash = safe_float (ta_cash s),
            tn_buying_power = first_number (ta_buying_power s),
            tn_gross_position_value = safe_float (ta_gross_position_value s),
            tn_cash_amounts = prime_cash_amounts (ta_currency_assets s)\<rparr>)"

definition global_asset_snapshot ::
    "TigerConfig \<Rightarrow> TigerAccountRef \<Rightarrow> GlobalAssets option \<Rightarrow> TigerAssetSnapshot option" where
  "global_asset_snapshot cfg ref assets =
     (case assets of
        None \<Rightarrow> None
      | Some a \<Rightarrow>
          (case tga_summary a of
             None \<Rightarrow> None
           | Some s \<Rightarrow>
               Some \<lparr>tn_account = ref, tn_currency = py_upper (text_or (ta_currency s) (tc_base_currency cfg)),
                 tn_net_liquidation = safe_float (ta_net_liquidation s), tn_cash = safe_float (ta_cash s),
                 tn_buying_power = safe_float (case ta_buying_power s of [] \<Rightarrow> VNone | v # vs \<Rightarrow> v),
                 tn_gross_position_value = safe_float (ta_gross_position_value s),
                 tn_cash_amounts = global_cash_amounts (tga_market_values a) (tga_market_value a)\<rparr>))"

section \<open>Positions\<close>

record TigerContract =
  tk_symbol :: "string option"
  tk_market :: "string option"
  tk_primary_exchange :: "string option"
  tk_currency :: "string option"
  tk_identifier :: "string option"
  tk_name :: "string option"

text \<open>The costs are \<open>average_cost\<close>, \<open>average_cost_by_average\<close> and \<open>average_cost_of_carry\<close>.\<close>

record TigerRow =
  tw_contract :: "TigerContract option"
  tw_quantity :: pyval
  tw_account :: "string option"
  tw_market_price :: pyval
  tw_costs :: "pyval list"
  tw_market_value :: pyval
  tw_unrealized_pnl :: pyval

text \<open>An asset call answers one object or a list, whose first element counts.\<close>

datatype 'a answer = OneAnswer "'a option" | ListAnswer "'a list"

definition first_answer :: "'a answer \<Rightarrow> 'a option" where
  "first_answer a = (case a of OneAnswer x \<Rightarrow> x | ListAnswer [] \<Rightarrow> None | ListAnswer (x # xs) \<Rightarrow> Some x)"

record TigerApi =
  tg_managed_accounts :: "TigerProfile list result"
  tg_positions :: "string \<Rightarrow> TigerRow list result"
  tg_stock_briefs :: "string list \<Rightarrow> VendorData result"
  tg_prime_assets :: "string \<Rightarrow> string \<Rightarrow> PrimeAssets answer result"
  tg_assets :: "string \<Rightarrow> GlobalAssets answer result"

definition tiger_convert_to_usd :: "rate_lookup \<Rightarrow> string \<Rightarrow> fl \<Rightarrow> fl \<Rightarrow> FxConversion result" where
  "tiger_convert_to_usd = convert_to_usd"

definition tiger_to_usd :: "rate_lookup \<Rightarrow> fl \<Rightarrow> string \<Rightarrow> fl result" where
  "tiger_to_usd = to_usd"

definition tiger_first_float :: "row \<Rightarrow> string list \<Rightarrow> fl" where
  "tiger_first_float = first_float"

definition tiger_records :: "VendorData \<Rightarrow> row list" where
  "tiger_records = records_of"

definition tiger_position_rows :: "TigerApi \<Rightarrow> string \<Rightarrow> (string \<times> TigerRow list) result" where
  "tiger_position_rows api account =
     rbind (tg_positions api account) (\<lambda>rows.
       Inr (account, filter (\<lambda>r. safe_float (tw_quantity r) \<noteq> 0) rows))"

definition QUOTE_BATCH_SIZE :: nat where
  "QUOTE_BATCH_SIZE = 50"

fun batches :: "nat \<Rightarrow> 'a list \<Rightarrow> 'a list list" where
  "batches n [] = []"
| "batches n (x # xs) = (if n = 0 then [] else take n (x # xs) # batches n (drop (n - 1) xs))"

definition add_quote :: "(pyval \<Rightarrow> string) \<Rightarrow> (string, row) dict \<Rightarrow> row \<Rightarrow> (string, row) dict" where
  "add_quote rt out r =
     (let s = py_strip (row_text rt r ''symbol'' []) in if s = [] then out else AList.update s r out)"

text \<open>A batch that raises is passed over.\<close>

definition add_batch :: "(pyval \<Rightarrow> string) \<Rightarrow> TigerApi \<Rightarrow> (string, row) dict \<Rightarrow> string list \<Rightarrow> (string, row) dict" where
  "add_batch rt api out batch =
     (case tg_stock_briefs api batch of
        Inl e \<Rightarrow> out
      | Inr d \<Rightarrow> foldl (add_quote rt) out (tiger_records d))"

definition unique_texts :: "string list \<Rightarrow> string list" where
  "unique_texts xs = dict_keys (dict_of (map (\<lambda>x. (x, ())) xs))"

definition tiger_quotes_by_symbol :: "(pyval \<Rightarrow> string) \<Rightarrow> TigerApi \<Rightarrow> string list \<Rightarrow> (string, row) dict" where
  "tiger_quotes_by_symbol rt api symbols = foldl (add_batch rt api) [] (batches QUOTE_BATCH_SIZE (unique_texts symbols))"

definition tiger_position_from_row ::
    "TigerConfig \<Rightarrow> rate_lookup \<Rightarrow> string \<Rightarrow> TigerRow \<Rightarrow> (string, row) dict \<Rightarrow> Position option result" where
  "tiger_position_from_row cfg fx account r quotes =
     (case tw_contract r of
        None \<Rightarrow> Inl tiger_data_error
      | Some k \<Rightarrow>
         (let symbol = text_or (tk_symbol k) []; market = py_upper (text_or (tk_market k) []);
              qty = safe_float (tw_quantity r); row_account = text_or (tw_account r) []
          in if tc_markets cfg \<noteq> [] \<and> market \<noteq> [] \<and> market \<notin> set (tc_markets cfg) then Inr None
             else if qty = 0 then Inr None
             else if row_account \<noteq> [] \<and> row_account \<noteq> account then Inl tiger_data_error
             else rbind (normalise_contract_symbol symbol market (text_or (tk_primary_exchange k) [])) (\<lambda>ident.
              (let c = py_upper (text_or (tk_currency k) ''USD'');
                   quote = (case map_of quotes symbol of None \<Rightarrow> [] | Some q \<Rightarrow> q);
                   quote_last = tiger_first_float quote [''latest_price'', ''close''];
                   last_p = (if quote_last \<noteq> 0 then quote_last else safe_float (tw_market_price r));
                   prev = tiger_first_float quote [''pre_close'', ''adj_pre_close''];
                   cost = first_number (tw_costs r);
                   mv = (if last_p \<noteq> 0 then qty * last_p else safe_float (tw_market_value r));
                   pnl = (if last_p \<noteq> 0 \<and> cost \<noteq> 0 then (last_p - cost) * qty else safe_float (tw_unrealized_pnl r));
                   key = (let t = text_or (tk_identifier k) [] in if t \<noteq> [] then t else market @ CHR '':'' # symbol)
               in rbind (stock_row fx ''Tiger'' account key ident c (text_or (tk_name k) symbol)
                           qty cost last_p mv pnl prev) (\<lambda>p. Inr (Some p))))))"

section \<open>Fetching\<close>

definition asset_snapshot_for_account ::
    "TigerConfig \<Rightarrow> TigerApi \<Rightarrow> TigerAccountRef \<Rightarrow> TigerAssetSnapshot option result" where
  "asset_snapshot_for_account cfg api ref =
     (if tr_account_type ref = ''GLOBAL''
      then rbind (tg_assets api (tr_account_id ref)) (\<lambda>a. Inr (global_asset_snapshot cfg ref (first_answer a)))
      else rbind (tg_prime_assets api (tr_account_id ref) (tc_base_currency cfg)) (\<lambda>a.
             Inr (prime_asset_snapshot cfg ref (first_answer a))))"

definition fetch_asset_snapshots ::
    "TigerConfig \<Rightarrow> TigerApi \<Rightarrow> (string, TigerAccountRef) dict \<Rightarrow> (string, TigerAssetSnapshot) dict result" where
  "fetch_asset_snapshots cfg api refs =
     rbind (rmap_list (asset_snapshot_for_account cfg api) (dict_values refs)) (\<lambda>found.
       Inr (dict_of (map (\<lambda>n. (tr_account_id (tn_account n), n)) (some_values found))))"

definition cash_rows_of_snapshot :: "rate_lookup \<Rightarrow> TigerAssetSnapshot \<Rightarrow> Position list result" where
  "cash_rows_of_snapshot fx n =
     rmap_list (\<lambda>(c, amount). cash_row fx ''Tiger'' (tr_account_id (tn_account n)) c amount)
       (filter (\<lambda>(c, amount). amount \<noteq> 0) (sorted_items (tn_cash_amounts n)))"

definition cash_positions_from_snapshots :: "rate_lookup \<Rightarrow> TigerAssetSnapshot list \<Rightarrow> Position list result" where
  "cash_positions_from_snapshots fx ns =
     rbind (rmap_list (cash_rows_of_snapshot fx) ns) (\<lambda>rs. Inr (concat rs))"

fun tiger_stock_positions ::
    "TigerConfig \<Rightarrow> rate_lookup \<Rightarrow> (string, row) dict \<Rightarrow> (string \<times> TigerRow) list \<Rightarrow> Position list result" where
  "tiger_stock_positions cfg fx quotes [] = Inr []"
| "tiger_stock_positions cfg fx quotes ((a, r) # rs) =
     (case tiger_position_from_row cfg fx a r quotes of
        Inl e \<Rightarrow> if e = tiger_data_error then tiger_stock_positions cfg fx quotes rs else Inl e
      | Inr None \<Rightarrow> tiger_stock_positions cfg fx quotes rs
      | Inr (Some p) \<Rightarrow> rbind (tiger_stock_positions cfg fx quotes rs) (\<lambda>ps. Inr (p # ps)))"

definition quote_symbols :: "(string \<times> TigerRow) list \<Rightarrow> string list" where
  "quote_symbols rows =
     filter (\<lambda>s. s \<noteq> []) (map (\<lambda>(a, r). case tw_contract r of None \<Rightarrow> [] | Some k \<Rightarrow> text_or (tk_symbol k) []) rows)"

definition tiger_account_rows :: "TigerApi \<Rightarrow> (string, TigerAccountRef) dict \<Rightarrow> (string \<times> TigerRow) list result" where
  "tiger_account_rows api refs =
     rbind (rmap_list (tiger_position_rows api) (dict_keys refs)) (\<lambda>results.
       Inr (concat (map (\<lambda>(a, rs). map (Pair a) rs) results)))"

definition tiger_fetch_positions ::
    "TigerConfig \<Rightarrow> (pyval \<Rightarrow> string) \<Rightarrow> TigerApi \<Rightarrow> rate_lookup \<Rightarrow> (string, TigerAccountRef) dict \<Rightarrow> Position list result" where
  "tiger_fetch_positions cfg rt api fx refs =
     rbind (tiger_account_rows api refs) (\<lambda>rows.
       (let quotes = tiger_quotes_by_symbol rt api (quote_symbols rows)
        in rbind (fetch_asset_snapshots cfg api refs) (\<lambda>snapshots.
           rbind (tiger_stock_positions cfg fx quotes rows) (\<lambda>stocks.
           rbind (cash_positions_from_snapshots fx (dict_values snapshots)) (\<lambda>cash. Inr (stocks @ cash))))))"

definition tiger_get_positions ::
    "TigerConfig \<Rightarrow> (pyval \<Rightarrow> string) \<Rightarrow> TigerApi \<Rightarrow> rate_lookup \<Rightarrow> ConnectionState \<Rightarrow> (string, TigerAccountRef) dict \<Rightarrow>
       Position list result" where
  "tiger_get_positions cfg rt api fx state refs =
     (if state \<noteq> CONNECTED then Inr [] else tiger_fetch_positions cfg rt api fx refs)"

definition summary_from_snapshot :: "rate_lookup \<Rightarrow> TigerAssetSnapshot \<Rightarrow> AccountSummary result" where
  "summary_from_snapshot fx n =
     (let c = tn_currency n
      in rbind (tiger_to_usd fx (tn_net_liquidation n) c) (\<lambda>nlv_usd.
         rbind (tiger_to_usd fx (tn_cash n) c) (\<lambda>cash_usd.
         rbind (tiger_to_usd fx (tn_buying_power n) c) (\<lambda>power_usd.
         rbind (tiger_to_usd fx (tn_gross_position_value n) c) (\<lambda>gross_usd.
           Inr \<lparr>as_broker = ''Tiger'', as_account_id = tr_account_id (tn_account n), base_currency = c,
             net_liquidation_usd = nlv_usd, cash_usd = cash_usd, buying_power_usd = power_usd,
             net_liquidation_native = tn_net_liquidation n, gross_position_value_usd = gross_usd\<rparr>)))))"

definition tiger_get_account_summary ::
    "TigerConfig \<Rightarrow> TigerApi \<Rightarrow> rate_lookup \<Rightarrow> ConnectionState \<Rightarrow> (string, TigerAccountRef) dict \<Rightarrow> AccountSummary list result" where
  "tiger_get_account_summary cfg api fx state refs =
     (if state \<noteq> CONNECTED then Inr []
      else rbind (fetch_asset_snapshots cfg api refs) (\<lambda>snapshots.
           rmap_list (summary_from_snapshot fx) (dict_values snapshots)))"

text \<open>What one \<open>connect\<close> meets once its clients are built, with the accounts it keeps.\<close>

definition tiger_connect_outcome ::
    "TigerConfig \<Rightarrow> (pyval \<Rightarrow> string) \<Rightarrow> TigerApi \<Rightarrow> rate_lookup \<Rightarrow> (string, TigerAccountRef) dict \<times> attempt" where
  "tiger_connect_outcome cfg rt api fx =
     (let fails = (\<lambda>e. ([], FetchFails (if e = tiger_config_error then ConfigFailure else OtherFailure)))
      in case tiger_load_accounts cfg rt (tg_managed_accounts api) of
           Inl e \<Rightarrow> fails e
         | Inr refs \<Rightarrow>
             (case tiger_fetch_positions cfg rt api fx refs of
                Inl e \<Rightarrow> fails e
              | Inr ps \<Rightarrow> (refs, Fetched ps)))"

section \<open>Lemmas\<close>

definition profile_counts :: "TigerConfig \<Rightarrow> (pyval \<Rightarrow> string) \<Rightarrow> TigerProfile \<Rightarrow> bool" where
  "profile_counts cfg rt p = (text_or (tp_account p) [] \<noteq> [] \<and> (tc_account cfg = None \<longrightarrow> account_is_active rt p))"

definition refs_ok :: "(string, TigerAccountRef) dict \<Rightarrow> bool" where
  "refs_ok refs = (dict_wf refs
     \<and> list_all (\<lambda>(k, r). tr_account_id r = k \<and> tr_account_type r \<in> set SUPPORTED_ACCOUNT_TYPES) refs)"

lemma note_profiles_accounts:
  "note_profiles cfg rt ps out = Inr refs \<Longrightarrow> refs_ok out \<Longrightarrow>
     refs_ok refs \<and> set (dict_keys refs) = set (dict_keys out)
       \<union> (\<lambda>p. text_or (tp_account p) []) ` set (filter (profile_counts cfg rt) ps)"
proof (induction cfg rt ps out rule: note_profiles.induct)
  case (2 cfg rt p ps out)
  let ?a = "text_or (tp_account p) []"
  show ?case
  proof (cases "profile_counts cfg rt p")
    case False
    then have "note_profiles cfg rt ps out = Inr refs"
      using "2.prems"(1) by (auto simp: profile_counts_def Let_def split: if_splits)
    moreover have "?a = [] \<or> ?a \<noteq> [] \<and> tc_account cfg = None \<and> \<not> account_is_active rt p"
      using False by (auto simp: profile_counts_def)
    ultimately show ?thesis using "2.IH"(1,2) "2.prems"(2) False by auto
  next
    case True
    then obtain t where t: "account_type rt p = Inr t"
      "note_profiles cfg rt ps (AList.update ?a \<lparr>tr_account_id = ?a, tr_account_type = t\<rparr> out) = Inr refs"
      using "2.prems"(1) by (auto simp: profile_counts_def rbind_Inr_iff Let_def)
    have "t \<in> set SUPPORTED_ACCOUNT_TYPES" using t(1) by (auto simp: account_type_def Let_def split: if_splits)
    then have "refs_ok (AList.update ?a \<lparr>tr_account_id = ?a, tr_account_type = t\<rparr> out)"
      using "2.prems"(2) by (auto simp: refs_ok_def intro: list_all_AList_update)
    moreover have "?a \<noteq> [] \<and> \<not> (tc_account cfg = None \<and> \<not> account_is_active rt p)" using True by (auto simp: profile_counts_def)
    ultimately show ?thesis using "2.IH"(3) [OF refl] t True by (auto simp: dict_keys_def dom_update)
  qed
qed (simp add: dict_keys_def)

lemma concat_batches: "0 < n \<Longrightarrow> concat (batches n xs) = xs"
proof (induction n xs rule: batches.induct)
  case (2 n x xs)
  then show ?case by (cases n) auto
qed simp

lemma batches_bounded: "0 < n \<Longrightarrow> b \<in> set (batches n xs) \<Longrightarrow> b \<noteq> [] \<and> length b \<le> n"
  by (induction n xs rule: batches.induct) auto

lemma dict_update_keys: "set (dict_keys (dict_update d kvs)) = set (dict_keys d) \<union> fst ` set kvs"
  by (induction d kvs rule: dict_update.induct) (auto simp: dict_keys_def dom_update)

lemma unique_texts_set: "set (unique_texts xs) = set xs"
  unfolding unique_texts_def dict_of_def dict_update_keys by (simp add: dict_keys_def image_image)

lemma unique_texts_distinct: "distinct (unique_texts xs)"
  using dict_wf_of by (simp add: unique_texts_def dict_wf_def dict_keys_def)

text \<open>The result of one row and what it adds.\<close>

definition row_result ::
    "TigerConfig \<Rightarrow> rate_lookup \<Rightarrow> (string, row) dict \<Rightarrow> string \<times> TigerRow \<Rightarrow> Position option result" where
  "row_result cfg fx quotes ar = tiger_position_from_row cfg fx (fst ar) (snd ar) quotes"

definition row_or_skip :: "Position option result \<Rightarrow> Position option" where
  "row_or_skip x = (case x of Inl e \<Rightarrow> None | Inr p \<Rightarrow> p)"

text \<open>A row either maps, or is passed over, or raises the error the loop skips.\<close>

lemma exchange_has_suffix:
  assumes "primary_exchange_for_contract raw market hint = Inr exch"
  shows "map_of IB_EXCHANGE_TO_SUFFIX exch \<noteq> None"
proof -
  have "list_all (\<lambda>e. map_of IB_EXCHANGE_TO_SUFFIX e \<noteq> None) (''SSE'' # ''SZSE'' # map snd MARKET_TO_EXCHANGE)" by code_simp
  then have table: "map_of IB_EXCHANGE_TO_SUFFIX ''SSE'' \<noteq> None" "map_of IB_EXCHANGE_TO_SUFFIX ''SZSE'' \<noteq> None"
    "\<forall>x \<in> set MARKET_TO_EXCHANGE. map_of IB_EXCHANGE_TO_SUFFIX (snd x) \<noteq> None"
    by (simp_all add: list_all_iff)
  have market: "map_of IB_EXCHANGE_TO_SUFFIX e \<noteq> None" if "map_of MARKET_TO_EXCHANGE market = Some e" for e
    using bspec [OF table(3) map_of_SomeD [OF that]] by simp
  show ?thesis
    using assms table(1,2) market unfolding primary_exchange_for_contract_def Let_def
    by (auto split: if_splits option.splits)
qed

lemma normalise_raises:
  assumes "normalise_contract_symbol symbol market hint = Inl e"
  shows "e = tiger_data_error"
proof (cases "primary_exchange_for_contract (py_strip symbol) market hint")
  case (Inl e')
  then have "e' = tiger_data_error"
    by (auto simp: primary_exchange_for_contract_def Let_def split: if_splits option.splits)
  with assms Inl show ?thesis by (simp add: normalise_contract_symbol_def Let_def split: if_splits)
next
  case (Inr exch)
  obtain suffix where "map_of IB_EXCHANGE_TO_SUFFIX exch = Some suffix" using exchange_has_suffix [OF Inr] by auto
  with assms Inr show ?thesis
    unfolding normalise_contract_symbol_def Let_def by (auto split: if_splits sum.splits)
qed

lemma row_raises:
  assumes "rates_ok fx" "tiger_position_from_row cfg fx a r quotes = Inl e"
  shows "e = tiger_data_error"
proof -
  have row: "stock_row fx b account key ident c name qty cost last_p mv pnl prev \<noteq> Inl e"
    for b account key ident c name qty cost last_p mv pnl prev
    by (rule stock_row_returns [OF assms(1), of b account key ident c name qty cost last_p mv pnl prev]) simp
  from assms(2) show ?thesis
    unfolding tiger_position_from_row_def Let_def
    by (auto simp: rbind_Inl_iff row dest: normalise_raises split: option.splits if_splits)
qed

lemma stock_positions_each:
  assumes "rates_ok fx"
  shows "tiger_stock_positions cfg fx quotes rows = Inr (some_values (map (row_or_skip \<circ> row_result cfg fx quotes) rows))"
proof (induction rows)
  case (Cons ar rows)
  obtain a r where ar: "ar = (a, r)" by (cases ar)
  show ?case
  proof (cases "tiger_position_from_row cfg fx a r quotes")
    case (Inl e)
    with row_raises [OF assms Inl] Cons show ?thesis by (simp add: ar row_result_def row_or_skip_def)
  next
    case (Inr found)
    with Cons show ?thesis by (cases found) (simp_all add: ar row_result_def row_or_skip_def)
  qed
qed simp

lemma tiger_row_fields:
  assumes "tiger_position_from_row cfg fx a r quotes = Inr (Some p)"
  obtains k where "tw_contract r = Some k" "account_id p = a" "broker p = ''Tiger''" "asset_class p = ''STK''"
    "quantity p = safe_float (tw_quantity r)" "quantity p \<noteq> 0" "text_or (tw_account r) [] \<in> {[], a}"
    "last_price p = (let q = tiger_first_float (case map_of quotes (text_or (tk_symbol k) []) of None \<Rightarrow> [] | Some q \<Rightarrow> q)
        [''latest_price'', ''close''] in if q \<noteq> 0 then q else safe_float (tw_market_price r))"
    "market_value_native p = (if last_price p \<noteq> 0 then quantity p * last_price p else safe_float (tw_market_value r))"
proof -
  obtain k where k: "tw_contract r = Some k"
    using assms by (cases "tw_contract r") (auto simp: tiger_position_from_row_def)
  let ?q = "tiger_first_float (case map_of quotes (text_or (tk_symbol k) []) of None \<Rightarrow> [] | Some q \<Rightarrow> q) [''latest_price'', ''close'']"
  let ?l = "if ?q \<noteq> 0 then ?q else safe_float (tw_market_price r)"
  have acc: "text_or (tw_account r) [] \<in> {[], a}" "safe_float (tw_quantity r) \<noteq> 0"
    using assms k by (auto simp: tiger_position_from_row_def Let_def split: if_splits)
  have guard: "(tc_markets cfg \<noteq> [] \<and> py_upper (text_or (tk_market k) []) \<noteq> []
      \<and> py_upper (text_or (tk_market k) []) \<notin> set (tc_markets cfg)) = False"
    using assms k by (auto simp: tiger_position_from_row_def Let_def split: if_splits)
  obtain key ident c n co pnl pr where "stock_row fx ''Tiger'' a key ident c n (safe_float (tw_quantity r)) co ?l
      (if ?l \<noteq> 0 then safe_float (tw_quantity r) * ?l else safe_float (tw_market_value r)) pnl pr = Inr p"
    using assms k acc guard by (auto simp: tiger_position_from_row_def Let_def rbind_Inr_iff)
  from stock_row_fields [OF this] that [OF k] acc show thesis by (simp add: Let_def)
qed

lemma rmap_list_all:
  assumes "rmap_list f xs = Inr ys" "\<And>x y. f x = Inr y \<Longrightarrow> P y"
  shows "list_all P ys"
  using rmap_list_mem [OF assms(1)] assms(2) by (fastforce simp: list_all_iff)

lemma snapshot_cash_class:
  assumes "cash_positions_from_snapshots fx ns = Inr cash"
  shows "list_all (\<lambda>p. asset_class p = ''CASH'') cash"
proof -
  obtain rs where rs: "rmap_list (cash_rows_of_snapshot fx) ns = Inr rs" "cash = concat rs"
    using assms by (auto simp: cash_positions_from_snapshots_def rbind_Inr_iff)
  have "list_all (list_all (\<lambda>p. asset_class p = ''CASH'')) rs"
    by (rule rmap_list_all [OF rs(1)], unfold cash_rows_of_snapshot_def, erule rmap_list_all) (auto dest: cash_row_fields)
  then show ?thesis by (auto simp: rs(2) list_all_iff)
qed

lemma snapshot_cash_returns:
  assumes "rates_ok fx"
  obtains cash where "cash_positions_from_snapshots fx ns = Inr cash"
proof -
  have "\<exists>p. cash_row fx b a c amount = Inr p" for b a c amount
    by (rule cash_row_returns [OF assms, of b a c amount]) blast
  then have "\<exists>ps. cash_rows_of_snapshot fx n = Inr ps" for n
    unfolding cash_rows_of_snapshot_def rmap_list_Inr_iff by (simp add: list_all_iff split: prod.splits)
  then obtain rs where "rmap_list (cash_rows_of_snapshot fx) ns = Inr rs"
    using rmap_list_Inr_iff [of "cash_rows_of_snapshot fx" ns] by (auto simp: list_all_iff)
  then show thesis by (intro that [of "concat rs"]) (simp add: cash_positions_from_snapshots_def)
qed

section \<open>Properties\<close>

text \<open>Tiger's accounts: discovery either fails or keeps exactly the profiles with an id that count, the
  active ones, or all of them when an account is configured, which then is among them; there is at
  least one, and every account kept is of a type the adapter knows.\<close>
theorem tiger_accounts_discovered:
  assumes "tiger_load_accounts cfg rt (Inr profiles) = Inr refs"
  shows "set (dict_keys refs) = (\<lambda>p. text_or (tp_account p) []) ` set (filter (profile_counts cfg rt) profiles)
    \<and> refs \<noteq> [] \<and> refs_ok refs \<and> (\<forall>a. tc_account cfg = Some a \<longrightarrow> a \<in> set (dict_keys refs))"
proof -
  have n: "note_profiles cfg rt profiles [] = Inr refs" "refs \<noteq> []"
    "\<forall>a. tc_account cfg = Some a \<longrightarrow> a \<in> set (dict_keys refs)"
    using assms by (auto simp: tiger_load_accounts_def rbind_Inr_iff split: option.splits if_splits)
  have "refs_ok []" by (simp add: refs_ok_def)
  from note_profiles_accounts [OF n(1) this] n(2,3) show ?thesis by (simp add: dict_keys_def)
qed

definition demo_tiger_api :: TigerApi where
  "demo_tiger_api =
     \<lparr>tg_managed_accounts = Inr [\<lparr>tp_account = Some ''T1'', tp_status = VStr ''funded'', tp_account_type = VStr ''standard''\<rparr>,
        \<lparr>tp_account = Some ''T2'', tp_status = VStr ''closed'', tp_account_type = VNone\<rparr>],
      tg_positions = (\<lambda>a. Inr [
        \<lparr>tw_contract = Some \<lparr>tk_symbol = Some ''00700'', tk_market = Some ''HK'', tk_primary_exchange = None, tk_currency = None,
           tk_identifier = None, tk_name = None\<rparr>, tw_quantity = VInt 10, tw_account = None, tw_market_price = VInt 300,
           tw_costs = [], tw_market_value = VNone, tw_unrealized_pnl = VNone\<rparr>,
        \<lparr>tw_contract = None, tw_quantity = VInt 5, tw_account = None, tw_market_price = VNone,
           tw_costs = [], tw_market_value = VNone, tw_unrealized_pnl = VNone\<rparr>]),
      tg_stock_briefs = (\<lambda>ss. Inl TimeoutError),
      tg_prime_assets = (\<lambda>a c. Inr (OneAnswer None)),
      tg_assets = (\<lambda>a. Inr (OneAnswer None))\<rparr>"

definition demo_tiger_cfg :: TigerConfig where
  "demo_tiger_cfg = tiger_config None ''usd'' [''us'', ''hk'']"

definition demo_tiger_refs :: "(string, TigerAccountRef) dict" where
  "demo_tiger_refs = [(''T1'', \<lparr>tr_account_id = ''T1'', tr_account_type = ''STANDARD''\<rparr>)]"

theorem tiger_accounts_discovered_witness:
  "tiger_load_accounts demo_tiger_cfg (\<lambda>_. []) (tg_managed_accounts demo_tiger_api) = Inr demo_tiger_refs \<and> refs_ok demo_tiger_refs"
proof -
  have load: "tiger_load_accounts demo_tiger_cfg (\<lambda>_. []) (tg_managed_accounts demo_tiger_api) = Inr demo_tiger_refs"
    by code_simp
  obtain profiles where "tg_managed_accounts demo_tiger_api = Inr profiles" by (simp add: demo_tiger_api_def)
  with tiger_accounts_discovered [of demo_tiger_cfg "\<lambda>_. []" profiles demo_tiger_refs] load show ?thesis by simp
qed

text \<open>Quotes are asked for in batches of at most fifty symbols, none empty, that together hold each
  symbol of the positions exactly once.\<close>
theorem tiger_quote_batches:
  assumes "bs = batches QUOTE_BATCH_SIZE (unique_texts symbols)"
  shows "list_all (\<lambda>b. b \<noteq> [] \<and> length b \<le> 50) bs \<and> distinct (concat bs) \<and> set (concat bs) = set symbols
    \<and> tiger_quotes_by_symbol rt api symbols = foldl (add_batch rt api) [] bs"
proof -
  have pos: "0 < QUOTE_BATCH_SIZE" by (simp add: QUOTE_BATCH_SIZE_def)
  have "list_all (\<lambda>b. b \<noteq> [] \<and> length b \<le> 50) bs"
    using batches_bounded [OF pos] by (auto simp: assms list_all_iff QUOTE_BATCH_SIZE_def)
  then show ?thesis
    unfolding assms concat_batches [OF pos] unique_texts_set tiger_quotes_by_symbol_def
    by (simp add: unique_texts_distinct)
qed

theorem tiger_quote_batches_witness:
  "set (concat (batches QUOTE_BATCH_SIZE (unique_texts [''AAPL'', ''700'', ''AAPL'']))) = {''AAPL'', ''700''}"
  using tiger_quote_batches [OF refl, of "[''AAPL'', ''700'', ''AAPL'']"] by auto

text \<open>C20. One bad Tiger row costs only itself: once the accounts' positions and assets have been answered, and
  with a rate lookup that raises at most a ValueError, as the FX service's does, the fetch succeeds
  whatever the rows hold. The holdings published are, in order, what each row of each account maps to;
  a row that cannot be mapped, or belongs to another account, raises the data error that is skipped,
  and cash rows follow. Each holding is held under the account that was asked, in the row's
  quantity, priced at the quote of its symbol or, where that is missing or zero, at the broker's
  market price, and valued at that price or, where that is zero, at the broker's value.\<close>
theorem tiger_rows_published:
  assumes "tiger_account_rows api refs = Inr rows" "fetch_asset_snapshots cfg api refs = Inr snapshots" "rates_ok fx"
    and quotes: "quotes = tiger_quotes_by_symbol rt api (quote_symbols rows)"
  shows "(\<exists>cash. tiger_fetch_positions cfg rt api fx refs = Inr (some_values (map (row_or_skip \<circ> row_result cfg fx quotes) rows) @ cash)
        \<and> list_all (\<lambda>p. asset_class p = ''CASH'') cash)
    \<and> (\<forall>(a, r) \<in> set rows. case row_result cfg fx quotes (a, r) of
          Inl e \<Rightarrow> e = tiger_data_error
        | Inr None \<Rightarrow> True
        | Inr (Some p) \<Rightarrow> asset_class p = ''STK'' \<and> account_id p = a \<and> text_or (tw_account r) [] \<in> {[], a}
            \<and> quantity p = safe_float (tw_quantity r) \<and> quantity p \<noteq> 0
            \<and> (\<exists>k. tw_contract r = Some k
                \<and> last_price p = (let q = tiger_first_float (case map_of quotes (text_or (tk_symbol k) []) of None \<Rightarrow> [] | Some q \<Rightarrow> q)
                      [''latest_price'', ''close''] in if q \<noteq> 0 then q else safe_float (tw_market_price r)))
            \<and> market_value_native p = (if last_price p \<noteq> 0 then quantity p * last_price p else safe_float (tw_market_value r)))"
proof -
  obtain cash where cash: "cash_positions_from_snapshots fx (dict_values snapshots) = Inr cash"
    by (rule snapshot_cash_returns [OF assms(3)])
  have "tiger_fetch_positions cfg rt api fx refs
      = Inr (some_values (map (row_or_skip \<circ> row_result cfg fx quotes) rows) @ cash)"
    by (simp add: tiger_fetch_positions_def assms(1,2) stock_positions_each [OF assms(3)] cash quotes Let_def)
  moreover have "list_all (\<lambda>p. asset_class p = ''CASH'') cash" by (rule snapshot_cash_class [OF cash])
  moreover have "case row_result cfg fx quotes (a, r) of
          Inl e \<Rightarrow> e = tiger_data_error
        | Inr None \<Rightarrow> True
        | Inr (Some p) \<Rightarrow> asset_class p = ''STK'' \<and> account_id p = a \<and> text_or (tw_account r) [] \<in> {[], a}
            \<and> quantity p = safe_float (tw_quantity r) \<and> quantity p \<noteq> 0
            \<and> (\<exists>k. tw_contract r = Some k
                \<and> last_price p = (let q = tiger_first_float (case map_of quotes (text_or (tk_symbol k) []) of None \<Rightarrow> [] | Some q \<Rightarrow> q)
                      [''latest_price'', ''close''] in if q \<noteq> 0 then q else safe_float (tw_market_price r)))
            \<and> market_value_native p = (if last_price p \<noteq> 0 then quantity p * last_price p else safe_float (tw_market_value r))" for a r
  proof (cases "row_result cfg fx quotes (a, r)")
    case (Inl e)
    with row_raises [OF assms(3)] show ?thesis by (simp add: row_result_def)
  next
    case (Inr found)
    show ?thesis
    proof (cases found)
      case (Some p)
      with Inr have "tiger_position_from_row cfg fx a r quotes = Inr (Some p)" by (simp add: row_result_def)
      then show ?thesis unfolding Inr Some sum.case option.case by (rule tiger_row_fields) blast
    qed (simp add: Inr)
  qed
  ultimately show ?thesis by blast
qed

text \<open>The demo account has one row that maps and one without a contract.\<close>
theorem tiger_rows_published_witness:
  "\<exists>rows cash. tiger_account_rows demo_tiger_api demo_tiger_refs = Inr rows \<and> length rows = 2
     \<and> tiger_fetch_positions demo_tiger_cfg (\<lambda>_. []) demo_tiger_api None demo_tiger_refs
        = Inr (some_values (map (row_or_skip \<circ> row_result demo_tiger_cfg None
            (tiger_quotes_by_symbol (\<lambda>_. []) demo_tiger_api (quote_symbols rows))) rows) @ cash)"
proof -
  have "(case tiger_account_rows demo_tiger_api demo_tiger_refs of Inr rows \<Rightarrow> length rows | Inl e \<Rightarrow> 0) = 2" by code_simp
  then obtain rows where rows: "tiger_account_rows demo_tiger_api demo_tiger_refs = Inr rows" "length rows = 2"
    by (cases "tiger_account_rows demo_tiger_api demo_tiger_refs") auto
  have "(case fetch_asset_snapshots demo_tiger_cfg demo_tiger_api demo_tiger_refs of Inr n \<Rightarrow> True | Inl e \<Rightarrow> False)" by code_simp
  then obtain snapshots where "fetch_asset_snapshots demo_tiger_cfg demo_tiger_api demo_tiger_refs = Inr snapshots"
    by (cases "fetch_asset_snapshots demo_tiger_cfg demo_tiger_api demo_tiger_refs") auto
  from tiger_rows_published [OF rows(1) this rates_ok_none refl] rows show ?thesis by blast
qed

end
