(* ===== verification/Adapters.thy ===== *)
theory Adapters
  imports Tiger
begin

text \<open>
  What holds across the polling adapters: the same listing gets the same canonical symbol whichever
  broker holds it, where that fails, and how a start ends for every outcome of its first fetch.
\<close>

section \<open>Lemmas\<close>

lemma shared_market_cases:
  assumes "m \<in> set [''HK'', ''US'', ''SG'', ''AU'']"
  shows "\<exists>e. map_of FUTU_EXCHANGE_TO_IB m = Some e \<and> map_of FUTU_SUFFIX m = Some m \<and> map_of IB_EXCHANGE_TO_SUFFIX e = Some m"
    and "\<exists>e. map_of SUFFIX_TO_EXCHANGE m = Some e \<and> map_of IB_EXCHANGE_TO_SUFFIX e = Some m"
    and "\<exists>e. map_of MARKET_TO_EXCHANGE m = Some e \<and> map_of IB_EXCHANGE_TO_SUFFIX e = Some m"
    and "py_upper m = m \<and> m \<noteq> [] \<and> dot \<notin> set m \<and> m \<noteq> ''CN'' \<and> \<not> py_isspace (last m)"
proof -
  have "list_all (\<lambda>m. map_of FUTU_SUFFIX m = Some m
      \<and> (case map_of FUTU_EXCHANGE_TO_IB m of None \<Rightarrow> False | Some e \<Rightarrow> map_of IB_EXCHANGE_TO_SUFFIX e = Some m)
      \<and> (case map_of SUFFIX_TO_EXCHANGE m of None \<Rightarrow> False | Some e \<Rightarrow> map_of IB_EXCHANGE_TO_SUFFIX e = Some m)
      \<and> (case map_of MARKET_TO_EXCHANGE m of None \<Rightarrow> False | Some e \<Rightarrow> map_of IB_EXCHANGE_TO_SUFFIX e = Some m)
      \<and> py_upper m = m \<and> m \<noteq> [] \<and> dot \<notin> set m \<and> m \<noteq> ''CN'' \<and> \<not> py_isspace (last m)) [''HK'', ''US'', ''SG'', ''AU'']"
    by code_simp
  with assms have "map_of FUTU_SUFFIX m = Some m
      \<and> (case map_of FUTU_EXCHANGE_TO_IB m of None \<Rightarrow> False | Some e \<Rightarrow> map_of IB_EXCHANGE_TO_SUFFIX e = Some m)
      \<and> (case map_of SUFFIX_TO_EXCHANGE m of None \<Rightarrow> False | Some e \<Rightarrow> map_of IB_EXCHANGE_TO_SUFFIX e = Some m)
      \<and> (case map_of MARKET_TO_EXCHANGE m of None \<Rightarrow> False | Some e \<Rightarrow> map_of IB_EXCHANGE_TO_SUFFIX e = Some m)
      \<and> py_upper m = m \<and> m \<noteq> [] \<and> dot \<notin> set m \<and> m \<noteq> ''CN'' \<and> \<not> py_isspace (last m)"
    unfolding list_all_iff by blast
  then show "\<exists>e. map_of FUTU_EXCHANGE_TO_IB m = Some e \<and> map_of FUTU_SUFFIX m = Some m \<and> map_of IB_EXCHANGE_TO_SUFFIX e = Some m"
    "\<exists>e. map_of SUFFIX_TO_EXCHANGE m = Some e \<and> map_of IB_EXCHANGE_TO_SUFFIX e = Some m"
    "\<exists>e. map_of MARKET_TO_EXCHANGE m = Some e \<and> map_of IB_EXCHANGE_TO_SUFFIX e = Some m"
    "py_upper m = m \<and> m \<noteq> [] \<and> dot \<notin> set m \<and> m \<noteq> ''CN'' \<and> \<not> py_isspace (last m)"
    by (simp_all split: option.splits)
qed

lemma no_empty_exchange: "map_of IB_EXCHANGE_TO_SUFFIX [] = None"
  by (simp add: IB_EXCHANGE_TO_SUFFIX_def)

text \<open>The local symbol: without leading zeros in Hong Kong.\<close>

definition local_symbol :: "string \<Rightarrow> string \<Rightarrow> string" where
  "local_symbol m s = (let t = (if m = ''HK'' then lstrip_zeros s else s) in if t \<noteq> [] then t else ''0'')"

lemma canonical_of: "map_of IB_EXCHANGE_TO_SUFFIX e = Some m \<Longrightarrow> canonical_symbol_of n e = Inr (n @ dot # m)"
  by (simp add: canonical_symbol_of_def dot_def)

section \<open>Properties\<close>

text \<open>A listing in Hong Kong, the US, Singapore or Australia has one canonical symbol: Futu, Longbridge and
  Tiger, given the same ticker in their own notation, agree on the native and the canonical symbol,
  and it is the one the core table gives for each of the exchanges they name.\<close>
theorem brokers_agree_on_symbol:
  assumes "m \<in> {''HK'', ''US'', ''SG'', ''AU''}" "s \<noteq> []" "\<not> py_isspace (hd s)" "\<not> py_isspace (last s)"
  shows "\<exists>ef el et. normalise_code (m @ dot # s) hint = Inr (local_symbol m s, local_symbol m s @ dot # m, ef)
    \<and> normalise_symbol (s @ dot # m) [] = Inr (local_symbol m s, local_symbol m s @ dot # m, el)
    \<and> normalise_contract_symbol s m [] = Inr (local_symbol m s, local_symbol m s @ dot # m, et)
    \<and> list_all (\<lambda>e. canonical_symbol_of (local_symbol m s) e = Inr (local_symbol m s @ dot # m)) [ef, el, et]"
proof -
  from assms(1) have m: "m \<in> set [''HK'', ''US'', ''SG'', ''AU'']" by simp
  obtain ef where ef: "map_of FUTU_EXCHANGE_TO_IB m = Some ef" "map_of FUTU_SUFFIX m = Some m" "map_of IB_EXCHANGE_TO_SUFFIX ef = Some m"
    using shared_market_cases(1) [OF m] by blast
  obtain el where el: "map_of SUFFIX_TO_EXCHANGE m = Some el" "map_of IB_EXCHANGE_TO_SUFFIX el = Some m"
    using shared_market_cases(2) [OF m] by blast
  obtain et where et: "map_of MARKET_TO_EXCHANGE m = Some et" "map_of IB_EXCHANGE_TO_SUFFIX et = Some m"
    using shared_market_cases(3) [OF m] by blast
  have t: "py_upper m = m" "m \<noteq> []" "dot \<notin> set m" "m \<noteq> ''CN''" "\<not> py_isspace (last m)"
    using shared_market_cases(4) [OF m] by simp_all
  have "py_strip (s @ dot # m) = s @ dot # m" by (rule py_strip_id) (use assms(2,3) t in auto)
  then have "normalise_symbol (s @ dot # m) [] = Inr (local_symbol m s, local_symbol m s @ dot # m, el)"
    using t el(1) by (simp add: normalise_symbol_def split_last_append local_symbol_def Let_def py_upper_def)
  moreover have "normalise_code (m @ dot # s) hint = Inr (local_symbol m s, local_symbol m s @ dot # m, ef)"
    using t ef by (simp add: normalise_code_def split_first_append local_symbol_def Let_def)
  moreover have "py_strip s = s" by (rule py_strip_id) (use assms in auto)
  then have "normalise_contract_symbol s m [] = Inr (local_symbol m s, local_symbol m s @ dot # m, et)"
    using t et assms(2) canonical_of [OF et(2)]
    by (simp add: normalise_contract_symbol_def primary_exchange_for_contract_def local_symbol_def Let_def
        no_empty_exchange py_upper_def)
  ultimately show ?thesis using canonical_of ef(3) el(2) et(2) by auto
qed

theorem brokers_agree_on_symbol_witness:
  "\<exists>ef el et. normalise_code ''HK.00700'' [] = Inr (''700'', ''700.HK'', ef)
     \<and> normalise_symbol ''00700.HK'' [] = Inr (''700'', ''700.HK'', el)
     \<and> normalise_contract_symbol ''00700'' ''HK'' [] = Inr (''700'', ''700.HK'', et)"
proof -
  have "local_symbol ''HK'' ''00700'' = ''700''" by code_simp
  moreover have "\<not> py_isspace (hd ''00700'')" "\<not> py_isspace (last ''00700'')" by code_simp+
  ultimately show ?thesis
    using brokers_agree_on_symbol [of "''HK''" "''00700''" "[]"] by (auto simp: dot_def)
qed

text \<open>In China they do not agree: Tiger and Futu's CN market tell Shanghai from Shenzhen by a leading 6
  alone, so a Shanghai fund such as 510300, which Futu and Longbridge hold as 510300.SH, becomes a
  Shenzhen listing at Tiger and another line on the dashboard.\<close>
theorem shanghai_fund_misplaced:
  "normalise_code ''SH.510300'' [] = Inr (''510300'', ''510300.SH'', ''SSE'')
   \<and> normalise_symbol ''510300.SH'' [] = Inr (''510300'', ''510300.SH'', ''SSE'')
   \<and> normalise_contract_symbol ''510300'' ''CN'' [] = Inr (''510300'', ''510300.SZ'', ''SZSE'')
   \<and> normalise_code ''CN.510300'' [] = Inr (''510300'', ''510300.SZ'', ''SZSE'')"
  by code_simp

text \<open>How a start of Longbridge or Tiger ends is decided by its first fetch alone: with the rows, connected
  and showing exactly them for its broker; with a configuration error, disconnected with no task;
  with any other error, in the reconnect loop if there is a schedule; and in both of the latter the
  rows stay as they were.\<close>
theorem start_follows_fetch:
  assumes "pa_state s = DISCONNECTED" "pa_live s = Some l" "live_wf l" "delays \<noteq> []"
    and o: "(b, a, s') \<in> {(''Longbridge'', longbridge_connect_outcome lcfg lapi fx, longbridge_start delays (longbridge_connect_outcome lcfg lapi fx) s),
      (''Tiger'', snd (tiger_connect_outcome tcfg rt tapi fx), tiger_start delays (snd (tiger_connect_outcome tcfg rt tapi fx)) s)}"
  shows "case a of
      Fetched ps \<Rightarrow> pa_state s' = CONNECTED \<and> (\<exists>l'. pa_live s' = Some l'
        \<and> row_of l' = (\<lambda>k. case map_of (rev (keyed ps)) k of Some p \<Rightarrow> Some p
            | None \<Rightarrow> if fst k = b then None else row_of l k))
    | FetchFails ConfigFailure \<Rightarrow> pa_state s' = DISCONNECTED \<and> pa_loop s' = NoTask \<and> pa_live s' = Some l
    | FetchFails OtherFailure \<Rightarrow> pa_state s' = RECONNECTING \<and> pa_loop s' = Created \<and> pa_live s' = Some l
    | SetupFails e \<Rightarrow> False"
proof -
  have a: "\<And>e. a \<noteq> SetupFails e"
    using o by (auto simp: longbridge_connect_outcome_def tiger_connect_outcome_def Let_def split: sum.splits)
  have s': "s' = poll_start (enter_reconnecting delays) (fetch_connect b) a s
      \<or> s' = poll_start (tiger_enter_reconnecting delays) (fetch_connect b) a s"
    using o by (auto simp: longbridge_start_def tiger_start_def longbridge_connect_def tiger_connect_def)
  show ?thesis
  proof (cases a)
    case (SetupFails e)
    with a [of e] show ?thesis by simp
  next
    case (FetchFails e)
    with s' assms(1,2,4) show ?thesis
      by (cases e) (auto simp: poll_start_def connect_defs tiger_enter_reconnecting_def)
  next
    case (Fetched ps)
    with s' assms(2) have "pa_state s' = CONNECTED \<and> pa_live s' = Some (replace_broker l b ps)"
      by (auto simp: poll_start_def connect_defs)
    with Fetched assms(3) show ?thesis by (auto simp: lp.row_replace)
  qed
qed

theorem start_follows_fetch_witness:
  "pa_state (tiger_start [5] (snd (tiger_connect_outcome demo_tiger_cfg (\<lambda>_. [])
      (demo_tiger_api\<lparr>tg_managed_accounts := Inl TimeoutError\<rparr>) None)) (adapter_new (Some lp_new) True)) = RECONNECTING"
proof -
  let ?a = "snd (tiger_connect_outcome demo_tiger_cfg (\<lambda>_. []) (demo_tiger_api\<lparr>tg_managed_accounts := Inl TimeoutError\<rparr>) None)"
  have a: "?a = FetchFails OtherFailure"
    by (simp add: tiger_connect_outcome_def tiger_load_accounts_def tiger_config_error_def Let_def)
  have s: "pa_state (adapter_new (Some lp_new) True) = DISCONNECTED" "pa_live (adapter_new (Some lp_new) True) = Some lp_new"
    by (simp_all add: adapter_new_def)
  from start_follows_fetch [OF s live_wf_new, of "[5]" "''Tiger''" ?a "tiger_start [5] ?a (adapter_new (Some lp_new) True)"
      demo_lb_cfg demo_lb_api None demo_tiger_cfg "\<lambda>_. []" "demo_tiger_api\<lparr>tg_managed_accounts := Inl TimeoutError\<rparr>"]
  show ?thesis by (simp add: a)
qed

end
