(* ===== verification/Clients.thy ===== *)
theory Clients
  imports Adapters
begin

text \<open>
  The clients of the polling adapters: how \<open>adapters/longbridge.py\<close>, \<open>tiger.py\<close> and \<open>futu.py\<close> load the SDK,
  build their configuration, open their clients in \<open>connect\<close> and close them again, and which clients
  stay open. A client is a number; what the SDK does when it is asked for one is a parameter. A
  cancellation of the task may come at each of the awaits. The life of the clients is a sequence of
  whole starts, attempts and disconnects; what two starts of Futu do that overlap, as two requests to
  retry may cause while the adapter is disconnected, is said over the steps between their awaits.
\<close>

definition import_error :: py_exc where
  "import_error = OtherError ''ImportError''"

text \<open>\<open>except Exception\<close> around a step, which a cancellation passes.\<close>

definition raised_as :: "py_exc \<Rightarrow> 'a result \<Rightarrow> 'a result" where
  "raised_as err r =
     (case r of Inl e \<Rightarrow> if e = CancelledError then Inl e else Inl err | Inr x \<Rightarrow> Inr x)"

section \<open>Longbridge: SDK and configuration\<close>

text \<open>The objects the adapter was given or finds in the SDK: \<open>None\<close> is one that is not there or cannot be
  called, and the rest is what the call gives.\<close>

record LbSetup =
  lu_sdk_given :: bool
  lu_import :: "unit result"
  lu_config_factory :: "unit result option"
  lu_from_apikey_env :: "unit result option"
  lu_trade_factory :: "unit result option"
  lu_trade_create :: "unit result option"
  lu_quote_factory :: "unit result option"
  lu_quote_create :: "unit result option"

definition longbridge_get_sdk :: "LbSetup \<Rightarrow> unit result" where
  "longbridge_get_sdk u =
     (if lu_sdk_given u then Inr ()
      else (case lu_import u of
              Inl e \<Rightarrow> Inl (if e = import_error then longbridge_config_error else e)
            | Inr v \<Rightarrow> Inr v))"

definition longbridge_build_config :: "LbSetup \<Rightarrow> unit result" where
  "longbridge_build_config u =
     (case lu_config_factory u of
        Some r \<Rightarrow> raised_as longbridge_config_error r
      | None \<Rightarrow>
          (case lu_from_apikey_env u of
             None \<Rightarrow> Inl longbridge_config_error
           | Some r \<Rightarrow> raised_as longbridge_config_error r))"

definition build_with :: "py_exc \<Rightarrow> unit result option \<Rightarrow> unit result option \<Rightarrow> unit result" where
  "build_with unavailable given found =
     (case given of Some r \<Rightarrow> r | None \<Rightarrow> (case found of None \<Rightarrow> Inl unavailable | Some r \<Rightarrow> r))"

definition longbridge_build_trade_context :: "LbSetup \<Rightarrow> unit result" where
  "longbridge_build_trade_context u = build_with longbridge_config_error (lu_trade_factory u) (lu_trade_create u)"

definition longbridge_build_quote_context :: "LbSetup \<Rightarrow> unit result" where
  "longbridge_build_quote_context u = build_with longbridge_config_error (lu_quote_factory u) (lu_quote_create u)"

section \<open>Tiger: SDK and configuration\<close>

record TigerSetup =
  tu_sdk_given :: bool
  tu_import :: "unit result"
  tu_config_factory :: "unit result option"
  tu_config_class :: "unit result option"
  tu_key_file :: "string \<Rightarrow> string result"
  tu_trade_factory :: "unit result option"
  tu_trade_client :: "unit result option"
  tu_quote_factory :: "unit result option"
  tu_quote_client :: "unit result option"

definition tiger_get_sdk :: "TigerSetup \<Rightarrow> unit result" where
  "tiger_get_sdk u =
     (if tu_sdk_given u then Inr ()
      else (case tu_import u of
              Inl e \<Rightarrow> Inl (if e = import_error then tiger_config_error else e)
            | Inr v \<Rightarrow> Inr v))"

definition tiger_private_key :: "TigerSettings \<Rightarrow> TigerSetup \<Rightarrow> string option result" where
  "tiger_private_key st u =
     (case (ts_private_key st, ts_private_key_path st) of
        (None, Some path) \<Rightarrow> rbind (tu_key_file u path) (\<lambda>t. Inr (Some (py_strip t)))
      | (key, _) \<Rightarrow> Inr key)"

text \<open>The attributes that are set on the configuration object.\<close>

definition tiger_build_config :: "TigerSettings \<Rightarrow> TigerSetup \<Rightarrow> (string \<times> string) list result" where
  "tiger_build_config st u =
     raised_as tiger_config_error
       (rbind (build_with tiger_config_error (tu_config_factory u) (tu_config_class u)) (\<lambda>v.
        rbind (tiger_private_key st u) (\<lambda>key.
          Inr (concat (map (\<lambda>(name, value). case value of None \<Rightarrow> [] | Some t \<Rightarrow> [(name, t)])
            [(''tiger_id'', ts_tiger_id st), (''account'', ts_account st), (''private_key'', key)])))))"

definition tiger_build_trade_client :: "TigerSetup \<Rightarrow> unit result" where
  "tiger_build_trade_client u = build_with tiger_config_error (tu_trade_factory u) (tu_trade_client u)"

definition tiger_build_quote_client :: "TigerSetup \<Rightarrow> unit result" where
  "tiger_build_quote_client u = build_with tiger_config_error (tu_quote_factory u) (tu_quote_client u)"

section \<open>Open and closed clients\<close>

text \<open>The clients that were opened and not asked to close, those the adapter's attributes hold, and the
  number of the next one.\<close>

record Handles =
  hd_open :: "nat list"
  hd_held :: "nat list"
  hd_next :: nat

definition no_handles :: Handles where
  "no_handles = \<lparr>hd_open = [], hd_held = [], hd_next = 0\<rparr>"

text \<open>The attributes are emptied first, then each client is asked to close, and an exception of that is
  passed over. With \<open>Some k\<close> the task is cancelled while it waits for client number \<open>k\<close>.\<close>

definition close_held :: "nat option \<Rightarrow> Handles \<Rightarrow> Handles \<times> unit result" where
  "close_held halt h =
     (let (asked, r) = (case halt of
            None \<Rightarrow> (hd_held h, Inr ())
          | Some k \<Rightarrow> if k < length (hd_held h) then (take (Suc k) (hd_held h), Inl CancelledError) else (hd_held h, Inr ()))
      in (h\<lparr>hd_open := filter (\<lambda>i. i \<notin> set asked) (hd_open h), hd_held := []\<rparr>, r))"

definition longbridge_close_contexts :: "nat option \<Rightarrow> Handles \<Rightarrow> Handles \<times> unit result" where
  "longbridge_close_contexts = close_held"

definition tiger_close_clients :: "nat option \<Rightarrow> Handles \<Rightarrow> Handles \<times> unit result" where
  "tiger_close_clients = close_held"

definition futu_close_contexts :: "nat option \<Rightarrow> Handles \<Rightarrow> Handles \<times> unit result" where
  "futu_close_contexts = close_held"

text \<open>A client that is built, and kept in an attribute at once.\<close>

definition open_held :: "unit result \<Rightarrow> Handles \<Rightarrow> Handles \<times> unit result" where
  "open_held r h =
     (case r of
        Inl e \<Rightarrow> (h, Inl e)
      | Inr v \<Rightarrow> (h\<lparr>hd_open := hd_open h @ [hd_next h], hd_held := hd_held h @ [hd_next h],
                     hd_next := Suc (hd_next h)\<rparr>, Inr ()))"

definition then_do :: "Handles \<times> unit result \<Rightarrow> (Handles \<Rightarrow> Handles \<times> unit result) \<Rightarrow> Handles \<times> unit result" where
  "then_do hr f = (case hr of (h, Inl e) \<Rightarrow> (h, Inl e) | (h, Inr v) \<Rightarrow> f h)"

text \<open>One \<open>connect\<close> of Longbridge or Tiger: where its two closings are cut short, the configuration, the two
  clients, and what follows once they are open.\<close>

record PairRun =
  pr_halt :: "nat option"
  pr_config :: "unit result"
  pr_trade :: "unit result"
  pr_quote :: "unit result"
  pr_fetch :: "unit result"
  pr_halt_after :: "nat option"

definition pair_connect :: "PairRun \<Rightarrow> Handles \<Rightarrow> Handles \<times> unit result" where
  "pair_connect r h =
     then_do (close_held (pr_halt r) h) (\<lambda>h.
     then_do (h, pr_config r) (\<lambda>h.
     then_do (open_held (pr_trade r) h) (\<lambda>h.
     then_do (open_held (pr_quote r) h) (\<lambda>h.
       case pr_fetch r of
         Inr v \<Rightarrow> (h, Inr ())
       | Inl e \<Rightarrow>
           if e = CancelledError then (h, Inl e)
           else then_do (close_held (pr_halt_after r) h) (\<lambda>h. (h, Inl e))))))"

definition longbridge_run :: "LbSetup \<Rightarrow> unit result \<Rightarrow> nat option \<Rightarrow> nat option \<Rightarrow> PairRun" where
  "longbridge_run u fetch halt halt_after =
     \<lparr>pr_halt = halt, pr_config = rbind (longbridge_get_sdk u) (\<lambda>v. longbridge_build_config u),
      pr_trade = longbridge_build_trade_context u, pr_quote = longbridge_build_quote_context u,
      pr_fetch = fetch, pr_halt_after = halt_after\<rparr>"

definition tiger_run :: "TigerSettings \<Rightarrow> TigerSetup \<Rightarrow> unit result \<Rightarrow> nat option \<Rightarrow> nat option \<Rightarrow> PairRun" where
  "tiger_run st u fetch halt halt_after =
     \<lparr>pr_halt = halt,
      pr_config = rbind (tiger_get_sdk u) (\<lambda>v. rbind (tiger_build_config st u) (\<lambda>attrs. Inr ())),
      pr_trade = tiger_build_trade_client u, pr_quote = tiger_build_quote_client u,
      pr_fetch = fetch, pr_halt_after = halt_after\<rparr>"

text \<open>What a whole \<open>connect\<close> meets, in the terms of the life cycle: the first step of the setup that fails,
  or its first fetch.\<close>

definition setup_then :: "py_exc \<Rightarrow> PairRun \<Rightarrow> attempt \<Rightarrow> attempt" where
  "setup_then config_error r fetched =
     (case rbind (pr_config r) (\<lambda>v. rbind (pr_trade r) (\<lambda>v. pr_quote r)) of
        Inl e \<Rightarrow> SetupFails (if e = config_error then ConfigFailure else OtherFailure)
      | Inr v \<Rightarrow> fetched)"

definition longbridge_attempt :: "LbSetup \<Rightarrow> LbConfig \<Rightarrow> LbApi \<Rightarrow> rate_lookup \<Rightarrow> attempt" where
  "longbridge_attempt u cfg api fx =
     setup_then longbridge_config_error (longbridge_run u (Inr ()) None None) (longbridge_connect_outcome cfg api fx)"

definition tiger_attempt ::
    "TigerSettings \<Rightarrow> TigerSetup \<Rightarrow> TigerConfig \<Rightarrow> (pyval \<Rightarrow> string) \<Rightarrow> TigerApi \<Rightarrow> rate_lookup \<Rightarrow> attempt" where
  "tiger_attempt st u cfg rt api fx =
     setup_then tiger_config_error (tiger_run st u (Inr ()) None None) (snd (tiger_connect_outcome cfg rt api fx))"

text \<open>One \<open>connect\<close> of Futu. The contexts, one for each market, are kept in a local list until the last is
  open; an exception hands the list over to be closed, a cancellation does not. This is the connect of
  one task with no other \<open>connect\<close> of the adapter between its awaits; \<open>flight_step\<close> below has the awaits.\<close>

record FutuRun =
  fr_halt :: "nat option"
  fr_setup :: "unit result"
  fr_contexts :: "unit result list"
  fr_load :: "unit result"
  fr_halt_after :: "nat option"

fun futu_open :: "unit result list \<Rightarrow> Handles \<Rightarrow> nat list \<Rightarrow> Handles \<times> nat list \<times> unit result" where
  "futu_open [] h contexts = (h, contexts, Inr ())"
| "futu_open (Inl e # rs) h contexts = (h, contexts, Inl e)"
| "futu_open (Inr v # rs) h contexts =
     futu_open rs (h\<lparr>hd_open := hd_open h @ [hd_next h], hd_next := Suc (hd_next h)\<rparr>) (contexts @ [hd_next h])"

definition futu_open_and_load :: "FutuRun \<Rightarrow> Handles \<Rightarrow> Handles \<times> unit result" where
  "futu_open_and_load r h =
     (let (h1, contexts, opened) = futu_open (fr_contexts r) h [];
          give_up = (\<lambda>h e. then_do (close_held (fr_halt_after r) (h\<lparr>hd_held := contexts\<rparr>)) (\<lambda>h. (h, Inl e)))
      in case opened of
           Inl e \<Rightarrow> if e = CancelledError then (h1, Inl e) else give_up h1 e
         | Inr v \<Rightarrow>
             (let h2 = h1\<lparr>hd_held := contexts\<rparr>
              in case fr_load r of
                   Inr v \<Rightarrow> (h2, Inr ())
                 | Inl e \<Rightarrow> if e = CancelledError then (h2, Inl e) else give_up h2 e))"

definition futu_client_connect :: "FutuRun \<Rightarrow> Handles \<Rightarrow> Handles \<times> unit result" where
  "futu_client_connect r h =
     then_do (close_held (fr_halt r) h) (\<lambda>h. then_do (h, fr_setup r) (futu_open_and_load r))"

section \<open>The life of the clients\<close>

text \<open>A start, which closes what a failed connect left; an attempt of the reconnect loop, which does not;
  and a disconnect.\<close>

datatype 'r client_event = ClientStart 'r "nat option" | ClientRetry 'r | ClientDisconnect "nat option"

fun client_step :: "('r \<Rightarrow> Handles \<Rightarrow> Handles \<times> unit result) \<Rightarrow> Handles \<Rightarrow> 'r client_event \<Rightarrow> Handles" where
  "client_step connect h (ClientStart r halt) =
     (case connect r h of
        (h1, Inr v) \<Rightarrow> h1
      | (h1, Inl e) \<Rightarrow> if e = CancelledError then h1 else fst (close_held halt h1))"
| "client_step connect h (ClientRetry r) = fst (connect r h)"
| "client_step connect h (ClientDisconnect halt) = fst (close_held halt h)"

fun uncut_event :: "('r \<Rightarrow> bool) \<Rightarrow> 'r client_event \<Rightarrow> bool" where
  "uncut_event uncut (ClientStart r halt) = (uncut r \<and> halt = None)"
| "uncut_event uncut (ClientRetry r) = uncut r"
| "uncut_event uncut (ClientDisconnect halt) = (halt = None)"

definition pair_uncut :: "PairRun \<Rightarrow> bool" where
  "pair_uncut r = (pr_halt r = None \<and> pr_halt_after r = None)"

definition futu_uncut :: "FutuRun \<Rightarrow> bool" where
  "futu_uncut r = (fr_halt r = None \<and> fr_halt_after r = None \<and> Inl CancelledError \<notin> set (fr_contexts r))"

text \<open>The same \<open>connect\<close> of Futu cut at its awaits, for any number of tasks that run it: \<open>Begins\<close> empties the
  attribute and closes what it held, \<open>Opened\<close> appends to the local list of the task, and \<open>Kept\<close> is the
  assignment to \<open>self._contexts\<close>.\<close>

datatype flight_event = Begins nat | Opened nat | Kept nat

fun flight_step :: "Handles \<times> (nat \<Rightarrow> nat list) \<Rightarrow> flight_event \<Rightarrow> Handles \<times> (nat \<Rightarrow> nat list)" where
  "flight_step (h, contexts) (Begins t) = (fst (close_held None h), contexts(t := []))"
| "flight_step (h, contexts) (Opened t) =
     (h\<lparr>hd_open := hd_open h @ [hd_next h], hd_next := Suc (hd_next h)\<rparr>, contexts(t := contexts t @ [hd_next h]))"
| "flight_step (h, contexts) (Kept t) = (h\<lparr>hd_held := contexts t\<rparr>, contexts)"

text \<open>Every open client is held; and a client that is open and not held, which nothing can close.\<close>

definition owned :: "Handles \<Rightarrow> bool" where
  "owned h = (set (hd_open h) = set (hd_held h) \<and> (\<forall>i\<in>set (hd_open h). i < hd_next h))"

definition lost :: "Handles \<Rightarrow> nat \<Rightarrow> bool" where
  "lost h i = (i \<in> set (hd_open h) \<and> i \<notin> set (hd_held h) \<and> i < hd_next h)"

locale client_life =
  fixes connect :: "'r \<Rightarrow> Handles \<Rightarrow> Handles \<times> unit result"
    and uncut :: "'r \<Rightarrow> bool"
  assumes connect_owned: "owned h \<Longrightarrow> uncut r \<Longrightarrow> owned (fst (connect r h))"
    and connect_lost: "lost h i \<Longrightarrow> lost (fst (connect r h)) i"
    and close_owned: "owned h \<Longrightarrow> owned (fst (close_held None h))"
    and close_lost: "lost h i \<Longrightarrow> lost (fst (close_held halt h)) i"
begin

lemma clients_owned: "list_all (uncut_event uncut) es \<Longrightarrow> owned h \<Longrightarrow> owned (foldl (client_step connect) h es)"
proof (induction es arbitrary: h)
  case (Cons e es)
  have "owned (client_step connect h e)"
  proof (cases e)
    case (ClientStart r halt)
    with Cons.prems connect_owned [of h r] show ?thesis
      by (cases "connect r h"; cases "snd (connect r h)") (simp_all add: close_owned)
  qed (use Cons.prems connect_owned close_owned in simp_all)
  with Cons show ?case by simp
qed simp

lemma clients_lost: "lost h i \<Longrightarrow> lost (foldl (client_step connect) h es) i"
proof (induction es arbitrary: h)
  case (Cons e es)
  have "lost (client_step connect h e) i"
  proof (cases e)
    case (ClientStart r halt)
    with Cons.prems connect_lost [of h i r] show ?thesis
      by (cases "connect r h"; cases "snd (connect r h)") (simp_all add: close_lost)
  qed (use Cons.prems connect_lost close_lost in simp_all)
  with Cons show ?case by simp
qed simp

end

section \<open>Lemmas\<close>

lemma close_held_owned: "owned h \<Longrightarrow> owned (fst (close_held None h)) \<and> hd_open (fst (close_held None h)) = []"
  by (auto simp: close_held_def owned_def)

lemma close_held_lost: "lost h i \<Longrightarrow> lost (fst (close_held halt h)) i"
  by (auto simp: close_held_def lost_def dest: in_set_takeD split: option.splits)

lemma close_held_uncut [simp]: "snd (close_held None h) = Inr ()"
  by (simp add: close_held_def)

lemma open_held_owned: "owned h \<Longrightarrow> owned (fst (open_held r h))"
  by (cases r) (auto simp: open_held_def owned_def less_Suc_eq)

lemma open_held_lost: "lost h i \<Longrightarrow> lost (fst (open_held r h)) i"
  by (auto simp: open_held_def lost_def split: sum.splits)

text \<open>A law of the clients that each step keeps is kept by their sequence.\<close>

lemma then_do_keeps:
  assumes "P (fst hr)" "\<And>h. P h \<Longrightarrow> P (fst (f h))"
  shows "P (fst (then_do hr f))"
  using assms by (auto simp: then_do_def split: prod.splits sum.splits)

lemma fst_then_raise [simp]: "fst (then_do hr (\<lambda>h. (h, Inl e))) = fst hr"
  by (simp add: then_do_def split: prod.splits sum.splits)

lemma pair_connect_keeps:
  assumes close: "\<And>h. P h \<Longrightarrow> P (fst (close_held (pr_halt r) h))" "\<And>h. P h \<Longrightarrow> P (fst (close_held (pr_halt_after r) h))"
    and "\<And>h x. P h \<Longrightarrow> P (fst (open_held x h))" "P h"
  shows "P (fst (pair_connect r h))"
  unfolding pair_connect_def
  by (intro then_do_keeps [where P = P]) (simp_all add: assms split: sum.splits)

interpretation pair: client_life pair_connect pair_uncut
proof unfold_locales
  show "owned (fst (pair_connect r h))" if "owned h" "pair_uncut r" for h r
    by (rule pair_connect_keeps) (use that close_held_owned open_held_owned in \<open>auto simp: pair_uncut_def\<close>)
  show "lost (fst (pair_connect r h)) i" if "lost h i" for h i r
    by (rule pair_connect_keeps [where P = "\<lambda>h. lost h i"]) (use that close_held_lost open_held_lost in auto)
qed (simp_all add: close_held_owned close_held_lost)

lemma futu_opened:
  "futu_open rs h cs = (h', cs', r) \<Longrightarrow>
     hd_held h' = hd_held h \<and> hd_next h \<le> hd_next h'
     \<and> (\<exists>new. hd_open h' = hd_open h @ new \<and> cs' = cs @ new \<and> new = [hd_next h ..< hd_next h'])
     \<and> (r = Inl CancelledError \<longrightarrow> Inl CancelledError \<in> set rs)"
proof (induction rs h cs rule: futu_open.induct)
  case (3 v rs h cs)
  then show ?case by (auto simp: upt_conv_Cons)
qed auto

lemma then_do_ok: "snd hr = Inr v \<Longrightarrow> then_do hr f = f (fst hr)"
  by (cases hr) (simp add: then_do_def)

lemma futu_connect_uncut:
  "fr_halt r = None \<Longrightarrow> futu_client_connect r h =
     (case fr_setup r of
        Inl e \<Rightarrow> (fst (close_held None h), Inl e)
      | Inr v \<Rightarrow> futu_open_and_load r (fst (close_held None h)))"
  by (simp add: futu_client_connect_def then_do_ok) (simp add: then_do_def split: sum.splits)

lemma futu_connect_owned:
  assumes "owned h" "futu_uncut r"
  shows "owned (fst (futu_client_connect r h))"
proof -
  have u: "fr_halt r = None" "fr_halt_after r = None" "Inl CancelledError \<notin> set (fr_contexts r)"
    using assms(2) by (simp_all add: futu_uncut_def)
  define k where "k = fst (close_held None h)"
  have k: "owned k" "hd_open k = []" "hd_held k = []"
    using close_held_owned [OF assms(1)] by (simp_all add: k_def) (simp add: close_held_def)
  obtain h1 new opened where o: "futu_open (fr_contexts r) k [] = (h1, new, opened)"
    by (metis prod_cases3)
  note facts = futu_opened [OF o]
  have held: "owned (h1\<lparr>hd_held := new\<rparr>)" using facts k by (auto simp: owned_def)
  have "opened \<noteq> Inl CancelledError" using facts u(3) by blast
  with held close_held_owned [OF held] have "owned (fst (futu_open_and_load r k))"
    by (auto simp: futu_open_and_load_def u(2) o Let_def split: sum.splits)
  with k(1) show ?thesis by (simp add: futu_connect_uncut u(1) flip: k_def split: sum.splits)
qed

lemma futu_connect_lost:
  assumes "lost h i"
  shows "lost (fst (futu_client_connect r h)) i"
proof -
  have body: "lost (fst (futu_open_and_load r h)) i" if "lost h i" for h
  proof -
    obtain h1 new opened where o: "futu_open (fr_contexts r) h [] = (h1, new, opened)"
      by (metis prod_cases3)
    have "lost h1 i" "lost (h1\<lparr>hd_held := new\<rparr>) i"
      using futu_opened [OF o] that by (auto simp: lost_def)
    then show ?thesis by (simp add: futu_open_and_load_def o Let_def close_held_lost split: sum.splits)
  qed
  show ?thesis unfolding futu_client_connect_def
    by (intro then_do_keeps [where P = "\<lambda>h. lost h i"]) (use assms close_held_lost body in auto)
qed

interpretation futu_clients: client_life futu_client_connect futu_uncut
  by unfold_locales (simp_all add: futu_connect_owned futu_connect_lost close_held_owned close_held_lost)

text \<open>With no other task in between, the steps make up the whole connect.\<close>

lemma opened_alone:
  "foldl flight_step (h, contexts) (replicate n (Opened t)) =
     (h\<lparr>hd_open := hd_open h @ [hd_next h ..< hd_next h + n], hd_next := hd_next h + n\<rparr>,
      contexts(t := contexts t @ [hd_next h ..< hd_next h + n]))"
  by (induction n arbitrary: h contexts) (simp_all add: upt_conv_Cons del: upt_Suc)

lemma futu_open_all:
  "futu_open (replicate n (Inr ())) h cs =
     (h\<lparr>hd_open := hd_open h @ [hd_next h ..< hd_next h + n], hd_next := hd_next h + n\<rparr>,
      cs @ [hd_next h ..< hd_next h + n], Inr ())"
  by (induction n arbitrary: h cs) (simp_all add: upt_conv_Cons)

lemma undisturbed_flight_is_connect:
  assumes "fr_halt r = None" "fr_setup r = Inr ()" "fr_contexts r = replicate n (Inr ())" "fr_load r = Inr ()"
  shows "fst (foldl flight_step (h, contexts) (Begins t # replicate n (Opened t) @ [Kept t]))
    = fst (futu_client_connect r h)"
  using assms by (simp add: futu_connect_uncut futu_open_and_load_def futu_open_all opened_alone)

text \<open>Overlapping connects open contexts of their own, but only the last assignment is kept.\<close>

definition apart :: "Handles \<times> (nat \<Rightarrow> nat list) \<Rightarrow> bool" where
  "apart hc = (case hc of (h, contexts) \<Rightarrow>
     (\<forall>t. \<forall>k\<in>set (contexts t). k \<in> set (hd_open h) \<and> k < hd_next h)
     \<and> (\<forall>t u. t \<noteq> u \<longrightarrow> set (contexts t) \<inter> set (contexts u) = {}))"

lemma opened_apart:
  "apart hc \<Longrightarrow> apart (flight_step hc (Opened t))"
  by (cases hc) (fastforce simp: apart_def)

lemma opened_all_apart:
  "apart hc \<Longrightarrow> apart (foldl flight_step hc (map Opened ts))
     \<and> length (snd (foldl flight_step hc (map Opened ts)) t) = length (snd hc t) + count_list ts t"
proof (induction ts arbitrary: hc)
  case (Cons u ts)
  then show ?case
    using Cons.IH [OF opened_apart [OF Cons.prems, of u]] by (cases hc) auto
qed simp

theorem overlapping_futu_starts_lose_contexts:
  assumes "t \<noteq> u"
    and "foldl flight_step (h, \<lambda>_. []) ([Begins t, Begins u] @ map Opened ts @ [Kept t, Kept u]) = (h1, contexts)"
  shows "length (contexts t) = count_list ts t
    \<and> set (contexts t) \<subseteq> set (hd_open (foldl (client_step futu_client_connect) h1 es))"
proof -
  define hc where "hc = foldl flight_step (fst (close_held None (fst (close_held None h))), \<lambda>_. []) (map Opened ts)"
  have "apart (fst (close_held None (fst (close_held None h))), \<lambda>_. [])" by (simp add: apart_def)
  from opened_all_apart [OF this, of ts t] have hc: "apart hc" "length (snd hc t) = count_list ts t"
    by (simp_all add: hc_def)
  obtain h2 ctxs where split: "hc = (h2, ctxs)" by (cases hc)
  have run: "h1 = h2\<lparr>hd_held := ctxs u\<rparr>" "contexts = ctxs"
    using assms(2) split by (auto simp: hc_def fun_upd_idem)
  have "lost h1 k" if "k \<in> set (ctxs t)" for k
    using that hc(1) assms(1) by (auto simp: lost_def run split apart_def dest!: spec2 [where x = t and y = u] mp)
  then have "lost (foldl (client_step futu_client_connect) h1 es) k" if "k \<in> set (ctxs t)" for k
    using that by (intro futu_clients.clients_lost)
  then show ?thesis using hc(2) by (auto simp: lost_def run split)
qed

lemma owned_none: "owned no_handles"
  by (simp add: owned_def no_handles_def)

lemma futu_open_replicate:
  "futu_open (replicate n (Inr ()) @ Inl e # rest) h cs =
     (h\<lparr>hd_open := hd_open h @ [hd_next h ..< hd_next h + n], hd_next := hd_next h + n\<rparr>,
      cs @ [hd_next h ..< hd_next h + n], Inl e)"
  by (induction n arbitrary: h cs) (simp_all add: upt_conv_Cons)

lemma raised_as_cases: "raised_as err r = Inl e \<Longrightarrow> e \<noteq> CancelledError \<Longrightarrow> e = err"
  by (auto simp: raised_as_def split: sum.splits if_splits)

lemma longbridge_config_failure:
  assumes "rbind (longbridge_get_sdk u) (\<lambda>v. longbridge_build_config u) = Inl e" "e \<noteq> CancelledError"
    and "lu_import u \<in> {Inr (), Inl import_error}"
  shows "e = longbridge_config_error"
  using assms
  by (auto simp: longbridge_get_sdk_def longbridge_build_config_def dest: raised_as_cases
      split: if_splits option.splits sum.splits)

lemma tiger_config_failure:
  assumes "rbind (tiger_get_sdk u) (\<lambda>v. rbind (tiger_build_config st u) (\<lambda>attrs. Inr ())) = Inl e" "e \<noteq> CancelledError"
    and "tu_import u \<in> {Inr (), Inl import_error}"
  shows "e = tiger_config_error"
proof (cases "tiger_get_sdk u")
  case (Inl e')
  with assms show ?thesis by (auto simp: tiger_get_sdk_def split: if_splits)
next
  case (Inr v)
  with assms(1) have "tiger_build_config st u = Inl e" by (cases "tiger_build_config st u") simp_all
  with assms(2) show ?thesis by (auto simp: tiger_build_config_def dest: raised_as_cases)
qed

text \<open>A configuration that cannot be built for whatever reason (no SDK, no key in the environment, a
  private key file that cannot be read) disables the adapter: a start of Longbridge or Tiger ends
  disconnected, with no reconnect task and the rows as they were.\<close>
theorem unconfigured_is_disabled:
  assumes "(config, imported, s') \<in> {(rbind (longbridge_get_sdk lu) (\<lambda>v. longbridge_build_config lu), lu_import lu,
        longbridge_start delays (longbridge_attempt lu lcfg lapi fx) s),
      (rbind (tiger_get_sdk tu) (\<lambda>v. rbind (tiger_build_config st tu) (\<lambda>attrs. Inr ())), tu_import tu,
        tiger_start delays (tiger_attempt st tu tcfg rt tapi fx) s)}"
    and "config = Inl e" "e \<noteq> CancelledError" "imported \<in> {Inr (), Inl import_error}"
  shows "pa_state s' = DISCONNECTED \<and> pa_loop s' = NoTask \<and> pa_backoff s' = None \<and> pa_live s' = pa_live s"
proof -
  have "setup_then err r f = SetupFails ConfigFailure" if "pr_config r = Inl err" for err r f
    using that by (simp add: setup_then_def)
  then have "s' = longbridge_start delays (SetupFails ConfigFailure) s \<or> s' = tiger_start delays (SetupFails ConfigFailure) s"
    using assms longbridge_config_failure [of lu e] tiger_config_failure [of tu st e]
    by (elim insertE) (auto simp: longbridge_attempt_def tiger_attempt_def longbridge_run_def tiger_run_def)
  then show ?thesis
    by (auto simp: longbridge_start_def tiger_start_def poll_start_def longbridge_connect_def tiger_connect_def connect_defs)
qed

section \<open>Properties\<close>

text \<open>C39. As long as the starts, reconnect attempts and disconnects of an adapter come one after another, none
  beginning before the one before it has ended, and no cancellation comes while a client is opened or
  closed, no client is lost: after any number of them, whatever fails in them, every client of
  Longbridge, Tiger or Futu that is open is one the adapter holds, and a disconnect closes them all.
  Without the first condition it fails for Futu, as the lemma on overlapping starts above shows.\<close>
theorem clients_never_lost:
  assumes "list_all (uncut_event pair_uncut) es" "list_all (uncut_event futu_uncut) fes"
    and "h = foldl (client_step pair_connect) no_handles es"
    and "hf = foldl (client_step futu_client_connect) no_handles fes"
  shows "set (hd_open h) = set (hd_held h) \<and> hd_open (client_step pair_connect h (ClientDisconnect None)) = []
    \<and> set (hd_open hf) = set (hd_held hf) \<and> hd_open (client_step futu_client_connect hf (ClientDisconnect None)) = []"
proof -
  have "owned h" "owned hf"
    unfolding assms(3,4) by (rule pair.clients_owned futu_clients.clients_owned; use assms(1,2) owned_none in simp)+
  with close_held_owned show ?thesis by (auto simp: owned_def)
qed

definition demo_pair_run :: PairRun where
  "demo_pair_run = \<lparr>pr_halt = None, pr_config = Inr (), pr_trade = Inr (), pr_quote = Inl TimeoutError,
     pr_fetch = Inr (), pr_halt_after = None\<rparr>"

definition demo_futu_run :: "unit result list \<Rightarrow> FutuRun" where
  "demo_futu_run rs = \<lparr>fr_halt = None, fr_setup = Inr (), fr_contexts = rs, fr_load = Inr (), fr_halt_after = None\<rparr>"

theorem clients_never_lost_witness:
  "hd_open (foldl (client_step pair_connect) no_handles [ClientStart demo_pair_run None, ClientRetry demo_pair_run]) = [1]
   \<and> hd_open (client_step pair_connect (foldl (client_step pair_connect) no_handles
        [ClientStart demo_pair_run None, ClientRetry demo_pair_run]) (ClientDisconnect None)) = []"
proof -
  have "list_all (uncut_event pair_uncut) [ClientStart demo_pair_run None, ClientRetry demo_pair_run]" by code_simp
  moreover have "list_all (uncut_event futu_uncut) []" by simp
  moreover have "hd_open (foldl (client_step pair_connect) no_handles
      [ClientStart demo_pair_run None, ClientRetry demo_pair_run]) = [1]" by code_simp
  ultimately show ?thesis using clients_never_lost [OF _ _ refl refl] by blast
qed

text \<open>C31. Futu leaks when it is cancelled: a connect that is cancelled after it has opened contexts for some
  markets, as a disconnect does to a reconnect attempt, leaves all of them open for good, since no
  later start, attempt or disconnect closes them; any other exception there closes them all.\<close>
theorem futu_cancel_loses_contexts:
  assumes "fr_halt r = None" "fr_setup r = Inr ()" "fr_contexts r = replicate n (Inr ()) @ Inl e # rest"
    and "fr_halt_after r = None" "owned h"
  shows "if e = CancelledError
    then set [hd_next h ..< hd_next h + n] \<subseteq> set (hd_open (foldl (client_step futu_client_connect) h (ClientRetry r # es)))
    else hd_open (client_step futu_client_connect h (ClientRetry r)) = []"
proof -
  let ?h = "fst (close_held None h)"
  have h: "hd_open ?h = []" "hd_held ?h = []" "hd_next ?h = hd_next h"
    using close_held_owned [OF assms(5)] by (simp_all add: close_held_def)
  let ?h1 = "?h\<lparr>hd_open := [hd_next h ..< hd_next h + n], hd_next := hd_next h + n\<rparr>"
  have run: "fst (futu_client_connect r h) =
      (if e = CancelledError then ?h1 else fst (close_held None (?h1\<lparr>hd_held := [hd_next h ..< hd_next h + n]\<rparr>)))"
    using h by (simp add: futu_connect_uncut futu_open_and_load_def assms(1-4) futu_open_replicate)
  show ?thesis
  proof (cases "e = CancelledError")
    case True
    have "lost (foldl (client_step futu_client_connect) ?h1 es) i" if "i \<in> set [hd_next h ..< hd_next h + n]" for i
      by (rule futu_clients.clients_lost) (use that h in \<open>simp add: lost_def\<close>)
    with True run show ?thesis by (auto simp: lost_def)
  next
    case False
    with run show ?thesis by (simp add: close_held_def)
  qed
qed

theorem futu_cancel_loses_contexts_witness:
  "{0, 1} \<subseteq> set (hd_open (foldl (client_step futu_client_connect) no_handles
     [ClientRetry (demo_futu_run [Inr (), Inr (), Inl CancelledError]), ClientDisconnect None, ClientDisconnect None]))"
  using futu_cancel_loses_contexts [of "demo_futu_run [Inr (), Inr (), Inl CancelledError]" 2 CancelledError "[]" no_handles
      "[ClientDisconnect None, ClientDisconnect None]"] owned_none
  by (simp add: demo_futu_run_def no_handles_def numeral_2_eq_2 del: foldl_Cons client_step.simps)

end
