(* ===== verification/Render.thy ===== *)
theory Render
  imports Markets Live Adapters
begin

text \<open>
  \<open>app/render.py\<close> and the page helpers of \<open>app/main.py\<close>: the filters, the totals of the hero, one push of
  the stream, the market cards and the strip of closures. A template is text of no concern here, so
  what it is given stands for the page; but the lookups \<open>templates/partials/holdings_row.html\<close> makes
  for a row are modelled, because they can raise.
\<close>

section \<open>Filters and totals\<close>

definition keep_if :: "string \<Rightarrow> (Position \<Rightarrow> string) \<Rightarrow> Position list \<Rightarrow> Position list" where
  "keep_if active field ps = (if active \<noteq> [] \<and> active \<noteq> ''All'' then filter (\<lambda>p. field p = active) ps else ps)"

definition apply_filters :: "Position list \<Rightarrow> string \<Rightarrow> string \<Rightarrow> string \<Rightarrow> Position list" where
  "apply_filters ps active_account active_asset active_broker =
     keep_if active_broker broker (keep_if active_asset asset_class (keep_if active_account account_id ps))"

record Totals =
  tot_mv_usd :: fl
  tot_pnl_usd :: fl
  tot_pnl_pct :: fl
  tot_pnl_is_positive :: bool
  tot_intraday_pnl_usd :: fl
  tot_intraday_pnl_pct :: fl
  tot_intraday_pnl_is_positive :: bool
  tot_has_intraday :: bool

definition compute_totals :: "Position list \<Rightarrow> Totals result" where
  "compute_totals ps =
     (let known = filter (\<lambda>p. \<not> fx_unavailable p) ps;
          mv = sum_list (map market_value_usd known);
          pnl = sum_list (map unrealized_pnl_usd known);
          pct = (if mv - pnl \<noteq> 0 then pnl / (mv - pnl) * 100 else 0)
      in rbind (rmap_list intraday_pnl_usd known) (\<lambda>moves.
        (let intraday = sum_list moves; basis = mv - intraday
         in Inr \<lparr>tot_mv_usd = mv, tot_pnl_usd = pnl, tot_pnl_pct = pct, tot_pnl_is_positive = (0 \<le> pnl),
              tot_intraday_pnl_usd = intraday,
              tot_intraday_pnl_pct = (if 0 < basis then intraday / basis * 100 else 0),
              tot_intraday_pnl_is_positive = (0 \<le> intraday),
              tot_has_intraday = list_ex (\<lambda>p. intraday_change_pct p \<noteq> None) ps\<rparr>)))"

section \<open>A push of the stream\<close>

text \<open>The lookups of one row that can raise: the country of its exchange, and the flag of the currency of
  a cash row or of the exchange of another one that has an exchange.\<close>

definition holdings_row :: "Position \<Rightarrow> unit result" where
  "holdings_row p =
     rbind (suffix_for_exchange (exchange p)) (\<lambda>_.
       if asset_class p = ''CASH'' then rbind (flag_for_currency (currency p)) (\<lambda>_. Inr ())
       else if exchange p \<noteq> [] then rbind (flag_for_exchange (exchange p)) (\<lambda>_. Inr ())
       else Inr ())"

text \<open>The note a stock row bears while its exchange breaks for lunch, with the time it opens again, from the
  statuses the template is given.\<close>

definition lunch_note :: "(string, MarketStatus) dict \<Rightarrow> Position \<Rightarrow> string option" where
  "lunch_note market_by_ib p =
     (case map_of market_by_ib (exchange p) of
        None \<Rightarrow> None
      | Some row_market \<Rightarrow>
          if asset_class p = ''STK'' \<and> ms_state row_market = LUNCH then Some (ms_next_transition_local row_market)
          else None)"

text \<open>The rows, the totals, the account and the market statuses the template is rendered with; the stream
  gives it no statuses.\<close>

definition render_stream_payload ::
    "Position list \<Rightarrow> string \<Rightarrow> string \<Rightarrow> string \<Rightarrow>
       (Position list \<times> Totals \<times> string \<times> (string, MarketStatus) dict) result" where
  "render_stream_payload ps active_account active_asset active_broker =
     (let rows = apply_filters ps active_account active_asset active_broker
      in rbind (compute_totals rows) (\<lambda>totals.
         rbind (rmap_list holdings_row rows) (\<lambda>_.
           Inr (rows, totals, if active_account \<noteq> [] then active_account else ''All'', []))))"

section \<open>Market cards\<close>

definition distinct_texts :: "string list \<Rightarrow> string list" where
  "distinct_texts xs = foldl (\<lambda>seen x. if x \<noteq> [] \<and> x \<notin> set seen then seen @ [x] else seen) [] xs"

definition market_exchanges :: "Position list \<Rightarrow> string list" where
  "market_exchanges ps = distinct_texts (map exchange (filter (\<lambda>p. asset_class p = ''STK'') ps))"

text \<open>One entry per exchange with a status: the code, its status and its flag, empty when it has none. The
  card list and the two dictionaries of the source are read off this list.\<close>

type_synonym market_entry = "string \<times> MarketStatus \<times> flag option"

fun market_entries :: "(string \<Rightarrow> MarketStatus option result) \<Rightarrow> string list \<Rightarrow> market_entry list result" where
  "market_entries hours_status [] = Inr []"
| "market_entries hours_status (e # es) =
     rbind (hours_status e) (\<lambda>st.
       case st of
         None \<Rightarrow> market_entries hours_status es
       | Some s \<Rightarrow>
           rbind (case flag_for_exchange e of Inl (ValueError m) \<Rightarrow> Inr None | Inl x \<Rightarrow> Inl x | Inr f \<Rightarrow> Inr (Some f)) (\<lambda>f.
           rbind (market_entries hours_status es) (\<lambda>rest. Inr ((e, s, f) # rest))))"

definition markets_from_positions ::
    "(string \<Rightarrow> Calendar) \<Rightarrow> instant \<Rightarrow> Position list \<Rightarrow>
       ((MarketStatus \<times> flag option) list \<times> (string, MarketStatus) dict \<times> (string, flag option) dict) result" where
  "markets_from_positions cal_of now ps =
     rbind (market_entries (status cal_of now) (market_exchanges ps)) (\<lambda>es.
       Inr (map (\<lambda>(e, s, f). (s, f)) es, dict_of (map (\<lambda>(e, s, f). (e, s)) es), dict_of (map (\<lambda>(e, s, f). (e, f)) es)))"

section \<open>Closures this week\<close>

definition weekday_names :: "string list" where
  "weekday_names = [''Mon'', ''Tue'', ''Wed'', ''Thu'', ''Fri'', ''Sat'', ''Sun'']"

definition month_names :: "string list" where
  "month_names = [''Jan'', ''Feb'', ''Mar'', ''Apr'', ''May'', ''Jun'', ''Jul'', ''Aug'', ''Sep'', ''Oct'', ''Nov'', ''Dec'']"

text \<open>\<open>strftime("%a %b %-d")\<close> of a day number.\<close>

definition date_label :: "int \<Rightarrow> string" where
  "date_label d = weekday_names ! nat (d mod 7) @ '' '' @ month_names ! nat (month_of d - 1) @ '' '' @ py_str_int (day_of_month d)"

record ClosureCard =
  cc_flag :: "flag option"
  cc_exchange_display :: string
  cc_date_iso :: string
  cc_date_label :: string
  cc_kind :: ClosureKind
  cc_close_local :: "string option"
  cc_is_today :: bool
  cc_is_past :: bool

definition closure_card :: "int \<Rightarrow> flag option \<Rightarrow> MarketStatus \<Rightarrow> ExchangeClosure \<Rightarrow> ClosureCard" where
  "closure_card today f s c =
     \<lparr>cc_flag = f, cc_exchange_display = ms_exchange s, cc_date_iso = iso_date (ec_date c),
      cc_date_label = date_label (ec_date c), cc_kind = ec_kind c, cc_close_local = ec_close_local c,
      cc_is_today = (ec_date c = today), cc_is_past = (ec_date c < today)\<rparr>"

text \<open>What the live market card already says is left out.\<close>

definition closure_shown :: "int \<Rightarrow> MarketStatus \<Rightarrow> ExchangeClosure \<Rightarrow> bool" where
  "closure_shown today s c = (\<not> (ec_date c = today \<and> ec_kind c = HolidayClosure \<and> ms_state s = HOLIDAY))"

definition card_le :: "int \<times> ClosureCard \<Rightarrow> int \<times> ClosureCard \<Rightarrow> bool" where
  "card_le x y =
     (fst x < fst y \<or> (fst x = fst y \<and> text_le (cc_exchange_display (snd x)) (cc_exchange_display (snd y))))"

definition monday_of :: "int \<Rightarrow> int" where
  "monday_of d = d - d mod 7"

definition dated_cards ::
    "(string, MarketStatus) dict \<Rightarrow> (string, flag option) dict \<Rightarrow> (string \<Rightarrow> int \<Rightarrow> int \<Rightarrow> ExchangeClosure list result) \<Rightarrow>
       int \<Rightarrow> (int \<times> ClosureCard) list result" where
  "dated_cards statuses flags closures today =
     rbind (rmap_list (\<lambda>(e, s).
         rbind (closures e (monday_of today) (monday_of today + 4)) (\<lambda>cs.
           Inr (map (\<lambda>c. (ec_date c, closure_card today (case map_of flags e of None \<Rightarrow> None | Some f \<Rightarrow> f) s c))
                 (filter (closure_shown today s) cs))))
       statuses) (\<lambda>css. Inr (concat css))"

definition closures_this_week ::
    "(string, MarketStatus) dict \<Rightarrow> (string, flag option) dict \<Rightarrow> (string \<Rightarrow> Calendar) \<Rightarrow> instant \<Rightarrow>
       ClosureCard list result" where
  "closures_this_week statuses flags cal_of now =
     rbind (dated_cards statuses flags (closures_in_range cal_of) (now div day_us)) (\<lambda>cards.
       Inr (map snd (order_by card_le cards)))"

section \<open>Lemmas\<close>

lemma rmap_list_eq: "rmap_list f xs = Inr ys \<Longrightarrow> ys = map (projr \<circ> f) xs"
  by (induction xs arbitrary: ys) (auto simp: rbind_Inr_iff)

lemma rmap_list_perm:
  assumes "mset xs = mset ys" "rmap_list f xs = Inr vs"
  shows "rmap_list f ys = Inr (map (projr \<circ> f) ys) \<and> mset (map (projr \<circ> f) ys) = mset vs"
proof -
  have "set ys = set xs" using assms(1) by (metis mset_eq_setD)
  then have "list_all (\<lambda>x. \<exists>y. f x = Inr y) ys"
    using assms(2) rmap_list_Inr_iff [of f xs] by (auto simp: list_all_iff)
  then obtain ws where ws: "rmap_list f ys = Inr ws" using rmap_list_Inr_iff by blast
  have "mset (map (projr \<circ> f) ys) = mset (map (projr \<circ> f) xs)" using assms(1) by simp
  then show ?thesis using rmap_list_eq [OF ws] rmap_list_eq [OF assms(2)] ws by simp
qed

lemma sum_list_perm: "mset xs = mset ys \<Longrightarrow> sum_list xs = (sum_list ys :: 'a :: comm_monoid_add)"
  by (metis sum_mset_sum_list)

lemma sum_map_perm: "mset xs = mset ys \<Longrightarrow> sum_list (map f xs) = (sum_list (map f ys) :: 'a :: comm_monoid_add)"
  by (rule sum_list_perm) simp

lemma totals_return_iff:
  "(\<exists>t. compute_totals ps = Inr t) \<longleftrightarrow> list_all (\<lambda>p. fx_unavailable p \<or> (\<exists>v. intraday_pnl_usd p = Inr v)) ps"
proof -
  have "(\<exists>t. compute_totals ps = Inr t) \<longleftrightarrow> (\<exists>ms. rmap_list intraday_pnl_usd (filter (\<lambda>p. \<not> fx_unavailable p) ps) = Inr ms)"
    by (auto simp: compute_totals_def Let_def rbind_Inr_iff)
  then show ?thesis by (auto simp: rmap_list_Inr_iff list_all_iff)
qed

lemma suffix_has_flag:
  assumes "map_of IB_EXCHANGE_TO_SUFFIX e = Some s"
  shows "\<exists>f. flag_for_exchange e = Inr f" "e \<noteq> []"
proof -
  have all: "list_all (\<lambda>(e, s). (case map_of SUFFIX_TO_FLAG s of None \<Rightarrow> False | Some f \<Rightarrow> True) \<and> e \<noteq> []) IB_EXCHANGE_TO_SUFFIX"
    by code_simp
  from list_all_map_of [OF this assms] assms show "\<exists>f. flag_for_exchange e = Inr f" "e \<noteq> []"
    by (auto simp: flag_for_exchange_def split: option.splits)
qed

lemma stock_row_renders:
  assumes "map_of IB_EXCHANGE_TO_SUFFIX (exchange p) = Some s" "asset_class p \<noteq> ''CASH''"
  shows "holdings_row p = Inr ()"
  using suffix_has_flag [OF assms(1)] assms by (auto simp: holdings_row_def suffix_for_exchange_def)

lemma normalise_code_exchange:
  "normalise_code code hint = Inr (n, c, e) \<Longrightarrow> \<exists>s. map_of IB_EXCHANGE_TO_SUFFIX e = Some s"
  by (auto simp: normalise_code_def Let_def split: prod.splits option.splits dest: futu_market_cases)

lemma tiger_row_symbol:
  assumes "tiger_position_from_row cfg fx a r quotes = Inr (Some p)"
  obtains sym market hint n c where "normalise_contract_symbol sym market hint = Inr (n, c, exchange p)" "asset_class p = ''STK''"
proof -
  obtain k where k: "tw_contract r = Some k"
    using assms by (cases "tw_contract r") (auto simp: tiger_position_from_row_def)
  obtain sym market hint ident where ident: "normalise_contract_symbol sym market hint = Inr ident"
    and row: "\<exists>key c n q co l mv pnl pr. stock_row fx ''Tiger'' a key ident c n q co l mv pnl pr = Inr p"
    using assms k by (auto simp: tiger_position_from_row_def Let_def rbind_Inr_iff split: if_split_asm) blast+
  then show thesis using that stock_row_fields by (metis prod.collapse)
qed

lemma longbridge_row_symbol:
  assumes "position_from_stock_row cfg fx r q st = Inr (Some p)"
  obtains n c where "normalise_symbol (py_strip (ls_symbol r)) (opt_text lx_exchange st []) = Inr (n, c, exchange p)"
    "asset_class p = ''STK''"
proof -
  obtain ident key c n qt co l mv pnl pr where "normalise_symbol (py_strip (ls_symbol r)) (opt_text lx_exchange st []) = Inr ident"
    "stock_row fx ''Longbridge'' (lb_account_id cfg) key ident c n qt co l mv pnl pr = Inr p"
    using assms by (auto simp: position_from_stock_row_def Let_def rbind_Inr_iff split: if_split_asm)
  with stock_row_fields that show thesis by (metis prod.collapse)
qed

lemma push_return_iff:
  "(\<exists>page. render_stream_payload ps a s b = Inr page)
    \<longleftrightarrow> list_all (\<lambda>p. (fx_unavailable p \<or> (\<exists>v. intraday_pnl_usd p = Inr v)) \<and> holdings_row p = Inr ())
          (apply_filters ps a s b)"
proof -
  have "(\<exists>page. render_stream_payload ps a s b = Inr page)
    \<longleftrightarrow> (\<exists>t. compute_totals (apply_filters ps a s b) = Inr t) \<and> (\<exists>us. rmap_list holdings_row (apply_filters ps a s b) = Inr us)"
    by (auto simp: render_stream_payload_def Let_def rbind_Inr_iff)
  then show ?thesis by (auto simp: totals_return_iff rmap_list_Inr_iff list_all_iff)
qed

lemma rmap_list_set: "rmap_list f xs = Inr ys \<Longrightarrow> set ys = {y. \<exists>x\<in>set xs. f x = Inr y}"
  by (induction xs arbitrary: ys) (auto simp: rbind_Inr_iff)

text \<open>The members of the lists a loop over pairs collects.\<close>

lemma found_members:
  "(\<Union>y\<in>{y. \<exists>x\<in>set xs. (case x of (e, s) \<Rightarrow> rbind (get e) (\<lambda>cs. Inr (map (mk e s) (filter (ok s) cs)))) = Inr y}. set y)
   = {mk e s c | e s cs c. (e, s) \<in> set xs \<and> get e = Inr cs \<and> c \<in> set cs \<and> ok s c}"
proof -
  have one: "(case x of (e, s) \<Rightarrow> rbind (get e) (\<lambda>cs. Inr (map (mk e s) (filter (ok s) cs)))) = Inr y
      \<longleftrightarrow> (\<exists>e s cs. x = (e, s) \<and> get e = Inr cs \<and> y = map (mk e s) (filter (ok s) cs))" for x y
    by (cases x) (auto simp: rbind_Inr_iff)
  show ?thesis unfolding one by force
qed

lemma normalise_contract_exchange:
  "normalise_contract_symbol symbol m h = Inr (n, c, e) \<Longrightarrow> \<exists>s. map_of IB_EXCHANGE_TO_SUFFIX e = Some s"
  by (auto simp: normalise_contract_symbol_def Let_def rbind_Inr_iff split: if_splits option.splits sum.splits)

lemma card_le_total: "card_le x y \<or> card_le y x"
  using text_le_total by (auto simp: card_le_def)

lemma card_le_trans: "card_le x y \<Longrightarrow> card_le y z \<Longrightarrow> card_le x z"
  using text_le_trans by (auto simp: card_le_def)

lemma closures_on_date: "closures_on cal mic d = Inr cs \<Longrightarrow> c \<in> set cs \<Longrightarrow> ec_date c = d"
  by (auto simp: closures_on_def rbind_Inr_iff split: if_splits option.splits)

lemma closures_in_range_dates:
  assumes "closures_in_range cal_of e a b = Inr cs" "c \<in> set cs"
  shows "a \<le> ec_date c \<and> ec_date c \<le> b"
proof -
  obtain mic css where css: "rmap_list (closures_on (cal_of mic) mic) [a..b] = Inr css" "cs = concat css"
    using assms by (auto simp: closures_in_range_def rbind_Inr_iff split: option.splits)
  then obtain ds where "ds \<in> set css" "c \<in> set ds" using assms(2) by auto
  with rmap_list_mem [OF css(1)] closures_on_date show ?thesis by fastforce
qed

lemma distinct_texts_foldl:
  "distinct seen \<Longrightarrow> distinct (foldl (\<lambda>seen x. if x \<noteq> [] \<and> x \<notin> set seen then seen @ [x] else seen) seen xs)
   \<and> set (foldl (\<lambda>seen x. if x \<noteq> [] \<and> x \<notin> set seen then seen @ [x] else seen) seen xs) = set seen \<union> (set xs - {[]})"
  by (induction xs arbitrary: seen) auto

lemma market_exchanges_set:
  "distinct (market_exchanges ps)"
  "set (market_exchanges ps) = {exchange p | p. p \<in> set ps \<and> asset_class p = ''STK'' \<and> exchange p \<noteq> []}"
  using distinct_texts_foldl [of "[]" "map exchange (filter (\<lambda>p. asset_class p = ''STK'') ps)"]
  by (auto simp: market_exchanges_def distinct_texts_def)

lemma market_entries_keys:
  "market_entries st es = Inr out \<Longrightarrow>
     map (\<lambda>(e, s, f). (e, s)) out = concat (map (\<lambda>e. case st e of Inr (Some s) \<Rightarrow> [(e, s)] | _ \<Rightarrow> []) es)"
  by (induction es arbitrary: out) (auto simp: rbind_Inr_iff split: option.splits)

lemma market_by_code:
  assumes "markets_from_positions cal_of now ps = Inr (cards, by_code, flags)"
  shows "map_of by_code e = (if e \<in> set (market_exchanges ps)
      then (case status cal_of now e of Inr (Some s) \<Rightarrow> Some s | _ \<Rightarrow> None) else None)"
proof -
  obtain es where es: "market_entries (status cal_of now) (market_exchanges ps) = Inr es"
    "by_code = dict_of (map (\<lambda>(e, s, f). (e, s)) es)"
    using assms by (auto simp: markets_from_positions_def rbind_Inr_iff)
  have keyed: "distinct (map fst (concat (map (\<lambda>e. case st e of Inr (Some s) \<Rightarrow> [(e, s)] | _ \<Rightarrow> []) xs)))
      \<and> map_of (concat (map (\<lambda>e. case st e of Inr (Some s) \<Rightarrow> [(e, s)] | _ \<Rightarrow> []) xs)) e
        = (if e \<in> set xs then (case st e of Inr (Some s) \<Rightarrow> Some s | _ \<Rightarrow> None) else None)
      \<and> fst ` set (concat (map (\<lambda>e. case st e of Inr (Some s) \<Rightarrow> [(e, s)] | _ \<Rightarrow> []) xs)) \<subseteq> set xs"
    if "distinct xs" for xs and st :: "string \<Rightarrow> MarketStatus option result"
    using that
  proof (induction xs)
    case (Cons x xs)
    then show ?case by (cases "st x"; cases "projr (st x)") auto
  qed simp
  from keyed [OF market_exchanges_set(1) [of ps], of "status cal_of now"] show ?thesis
    unfolding es(2) market_entries_keys [OF es(1)] by (simp add: dict_of_distinct)
qed

text \<open>The totals depend on which rows are shown and not on their order.\<close>

lemma totals_order_independent:
  assumes "mset xs = mset ys" "compute_totals xs = Inr t"
  shows "compute_totals ys = Inr t"
proof -
  let ?k = "\<lambda>ps. filter (\<lambda>p. \<not> fx_unavailable p) ps"
  have k: "mset (?k xs) = mset (?k ys)" using assms(1) by simp
  obtain ms where ms: "rmap_list intraday_pnl_usd (?k xs) = Inr ms"
    using assms(2) by (auto simp: compute_totals_def Let_def rbind_Inr_iff)
  from rmap_list_perm [OF k ms]
  have ns: "rmap_list intraday_pnl_usd (?k ys) = Inr (map (projr \<circ> intraday_pnl_usd) (?k ys))"
    and sum: "sum_list (map (projr \<circ> intraday_pnl_usd) (?k ys)) = sum_list ms"
    by (auto intro: sum_list_perm)
  have ex: "list_ex (\<lambda>p. intraday_change_pct p \<noteq> None) xs = list_ex (\<lambda>p. intraday_change_pct p \<noteq> None) ys"
    using mset_eq_setD [OF assms(1)] by (simp add: list_ex_iff)
  show ?thesis
    using assms(2) unfolding compute_totals_def Let_def ms ns rbind.simps sum ex
      sum_map_perm [OF k, of market_value_usd] sum_map_perm [OF k, of unrealized_pnl_usd] by simp
qed

definition row_unknown :: "Position \<Rightarrow> bool" where
  "row_unknown p =
     ((asset_class p = ''CASH'' \<and> exchange p = [] \<and> map_of CURRENCY_TO_FLAG (currency p) = None)
      \<or> (exchange p \<noteq> [] \<and> map_of IB_EXCHANGE_TO_SUFFIX (exchange p) = None))"

lemma unknown_row_raises: "row_unknown p \<Longrightarrow> holdings_row p \<noteq> Inr ()"
  by (auto simp: row_unknown_def holdings_row_def suffix_for_exchange_def flag_for_currency_def)

lemma unknown_row_stops_push:
  assumes "p \<in> set (apply_filters ps a s b)" "row_unknown p"
  shows "\<exists>e. render_stream_payload ps a s b = Inl e"
proof (cases "render_stream_payload ps a s b")
  case (Inr page)
  then have "\<exists>page. render_stream_payload ps a s b = Inr page" ..
  with assms(1) unknown_row_raises [OF assms(2)] show ?thesis
    unfolding push_return_iff list_all_iff by blast
qed blast

section \<open>Properties\<close>

text \<open>The stock rows of Futu and Tiger always pass the lookups their table row makes, and so do Longbridge's when its static
  data names no exchange.\<close>
theorem adapter_rows_render:
  assumes "futu_position_from_row rt fx account r = Inr (Some p)
    \<or> tiger_position_from_row tcfg fx account tr quotes = Inr (Some p)
    \<or> (position_from_stock_row lcfg fx lr q st = Inr (Some p) \<and> py_strip (opt_text lx_exchange st []) = [])"
  shows "holdings_row p = Inr ()"
  using assms
proof (elim disjE conjE)
  assume row: "futu_position_from_row rt fx account r = Inr (Some p)"
  show ?thesis
    by (rule futu_row_fields [OF row]) (auto dest!: normalise_code_exchange intro: stock_row_renders)
next
  assume row: "tiger_position_from_row tcfg fx account tr quotes = Inr (Some p)"
  obtain sym market hint n c where "normalise_contract_symbol sym market hint = Inr (n, c, exchange p)" "asset_class p = ''STK''"
    by (rule tiger_row_symbol [OF row])
  with normalise_contract_exchange [OF this(1)] show ?thesis by (auto intro: stock_row_renders)
next
  assume row: "position_from_stock_row lcfg fx lr q st = Inr (Some p)" and hint: "py_strip (opt_text lx_exchange st []) = []"
  obtain n c where n: "normalise_symbol (py_strip (ls_symbol lr)) (opt_text lx_exchange st []) = Inr (n, c, exchange p)" "asset_class p = ''STK''"
    by (rule longbridge_row_symbol [OF row])
  have all: "list_all (\<lambda>(m, e). map_of IB_EXCHANGE_TO_SUFFIX e \<noteq> None) SUFFIX_TO_EXCHANGE" by code_simp
  obtain m where "map_of SUFFIX_TO_EXCHANGE m = Some (exchange p)"
    using n(1) hint by (auto simp: normalise_symbol_def Let_def py_upper_def split: option.splits)
  from list_all_map_of [OF all this] show ?thesis using n(2) by (auto intro: stock_row_renders)
qed

theorem adapter_rows_render_witness:
  "\<exists>p. futu_position_from_row (\<lambda>_. []) None ''7'' [(''code'', VStr ''US.AAPL''), (''qty'', VInt 4)] = Inr (Some p) \<and> holdings_row p = Inr ()"
proof -
  let ?get = "futu_position_from_row (\<lambda>_. []) None ''7'' [(''code'', VStr ''US.AAPL''), (''qty'', VInt 4)]"
  have "(case ?get of Inr (Some p) \<Rightarrow> True | _ \<Rightarrow> False)" by code_simp
  then obtain p where p: "?get = Inr (Some p)" by (auto split: sum.splits option.splits)
  from adapter_rows_render [OF disjI1 [OF p]] p show ?thesis by blast
qed

text \<open>The strip of closures holds, for each exchange with a card, exactly the closures of Monday to Friday
  of the current week, except a holiday today that its card already shows; they are in order of date
  and then of exchange, and each is marked today or past by its date.\<close>
theorem closures_strip_exact:
  assumes "closures_this_week statuses flags cal_of now = Inr cards" "today = now div day_us"
  shows "\<exists>dated. cards = map snd dated \<and> sorted_wrt card_le dated
    \<and> set dated = {(ec_date c, closure_card today (case map_of flags e of None \<Rightarrow> None | Some f \<Rightarrow> f) s c) | e s cs c.
        (e, s) \<in> set statuses \<and> closures_in_range cal_of e (today - today mod 7) (today - today mod 7 + 4) = Inr cs
        \<and> c \<in> set cs \<and> \<not> (ec_date c = today \<and> ec_kind c = HolidayClosure \<and> ms_state s = HOLIDAY)}
    \<and> (\<forall>(d, card) \<in> set dated. 0 \<le> d mod 7 \<and> d mod 7 \<le> 4 \<and> d div 7 = today div 7
        \<and> cc_is_today card = (d = today) \<and> cc_is_past card = (d < today))"
proof -
  let ?flag = "\<lambda>e. case map_of flags e of None \<Rightarrow> None | Some f \<Rightarrow> f"
  let ?mon = "today - today mod 7"
  obtain found where found: "dated_cards statuses flags (closures_in_range cal_of) today = Inr found"
    "cards = map snd (order_by card_le found)"
    using assms by (auto simp: closures_this_week_def rbind_Inr_iff)
  let ?one = "\<lambda>(e, s). rbind (closures_in_range cal_of e ?mon (?mon + 4)) (\<lambda>cs.
      Inr (map (\<lambda>c. (ec_date c, closure_card today (?flag e) s c)) (filter (closure_shown today s) cs)))"
  obtain css where css: "rmap_list ?one statuses = Inr css" "found = concat css"
    using found(1) by (auto simp: dated_cards_def monday_of_def rbind_Inr_iff)
  have members: "set found = {(ec_date c, closure_card today (?flag e) s c) | e s cs c.
        (e, s) \<in> set statuses \<and> closures_in_range cal_of e ?mon (?mon + 4) = Inr cs
        \<and> c \<in> set cs \<and> closure_shown today s c}"
    unfolding css(2) set_concat rmap_list_set [OF css(1)] by (rule found_members)
  have "0 \<le> d mod 7 \<and> d mod 7 \<le> 4 \<and> d div 7 = today div 7 \<and> cc_is_today card = (d = today) \<and> cc_is_past card = (d < today)"
    if "(d, card) \<in> set found" for d card
  proof -
    obtain e s cs c where c: "closures_in_range cal_of e ?mon (?mon + 4) = Inr cs" "c \<in> set cs" "d = ec_date c"
      "card = closure_card today (?flag e) s c"
      using \<open>(d, card) \<in> set found\<close> unfolding members by blast
    have "?mon \<le> d \<and> d \<le> ?mon + 4" using closures_in_range_dates [OF c(1,2)] c(3) by simp
    then have "d mod 7 \<le> 4 \<and> d div 7 = today div 7" by presburger
    with c(3,4) show ?thesis by (simp add: closure_card_def)
  qed
  moreover have "sorted_wrt card_le (order_by card_le found)"
    by (intro sorted_order_by card_le_total) (rule card_le_trans)
  ultimately show ?thesis
    using members found(2) by (intro exI [of _ "order_by card_le found"]) (auto simp: closure_shown_def)
qed

text \<open>An instance: the week of the two sessions of the demo calendar, seen on the second of them.\<close>

definition demo_status :: "MarketState \<Rightarrow> MarketStatus" where
  "demo_status st = \<lparr>ms_exchange = ''LSE'', ms_state = st, ms_extended_session = None, ms_next_transition_local = [],
     ms_next_transition_iso = [], ms_next_transition_label = []\<rparr>"

lemma demo_closures:
  obtains cs where "closures_in_range (\<lambda>m. demo_calendar) ''LSE'' (738944 - 738944 mod 7) (738944 - 738944 mod 7 + 4) = Inr cs"
proof (cases "closures_in_range (\<lambda>m. demo_calendar) ''LSE'' (738944 - 738944 mod 7) (738944 - 738944 mod 7 + 4)")
  case (Inl e)
  have "(case closures_in_range (\<lambda>m. demo_calendar) ''LSE'' (738944 - 738944 mod 7) (738944 - 738944 mod 7 + 4) of
      Inr cs \<Rightarrow> True | Inl e \<Rightarrow> False)"
    by code_simp
  with Inl show thesis by simp
qed (rule that)

theorem closures_strip_exact_witness:
  "\<exists>cards dated. closures_this_week [(''LSE'', demo_status CLOSED)] [] (\<lambda>m. demo_calendar) (days 738944) = Inr cards
     \<and> cards = map snd dated \<and> sorted_wrt card_le dated"
proof -
  have today: "738944 = days 738944 div day_us" by (simp add: days_def day_us_def)
  obtain cards where c: "closures_this_week [(''LSE'', demo_status CLOSED)] [] (\<lambda>m. demo_calendar) (days 738944) = Inr cards"
    by (rule demo_closures) (auto simp: closures_this_week_def dated_cards_def monday_of_def today [symmetric])
  obtain dated where "cards = map snd dated" "sorted_wrt card_le dated"
    using closures_strip_exact [OF c today] by (elim exE conjE)
  with c show ?thesis by (intro exI [of _ cards] exI [of _ dated] conjI)
qed

end
