(* ===== verification/Web.thy ===== *)
theory Web
  imports Render Jobs
begin

text \<open>
  \<open>app/main.py\<close>: the settings read from the environment, the choice of adapters, the token of the admin
  routes, and the routes themselves. A route answers a value, an HTTP error, or raises, which the
  server turns into a 500. FastAPI, the templates and the middleware of Starlette are not modelled;
  what a page is rendered with stands for the page, and the row lookups that can raise are run.
\<close>

datatype 'a response = Ok 'a | HttpError nat | Raises py_exc

fun respond :: "'a result \<Rightarrow> ('a \<Rightarrow> 'b response) \<Rightarrow> 'b response" where
  "respond (Inl e) f = Raises e"
| "respond (Inr x) f = f x"

section \<open>Settings\<close>

definition ALL_KNOWN_BROKERS :: "string list" where
  "ALL_KNOWN_BROKERS = [''IBKR'', ''Futu'', ''Tiger'', ''Longbridge'']"

text \<open>The set, as the list of its members in display order.\<close>

definition enabled_brokers :: "environ \<Rightarrow> string list" where
  "enabled_brokers env =
     (let tokens = map (\<lambda>t. py_lower (py_strip t)) (split_on comma (env_get env ''BROKERS_ENABLED'' ''ibkr''));
          out = filter (\<lambda>b. py_lower b \<in> set tokens) ALL_KNOWN_BROKERS
      in if out \<noteq> [] then out else [''IBKR''])"

definition env_optional_bool :: "environ \<Rightarrow> string \<Rightarrow> bool option" where
  "env_optional_bool env name =
     (case map_of env name of
        None \<Rightarrow> None
      | Some raw \<Rightarrow> if py_strip raw = [] then None else Some (env_bool env name False))"

definition env_tokens :: "environ \<Rightarrow> string \<Rightarrow> string \<Rightarrow> string list" where
  "env_tokens env name d = filter (\<lambda>t. t \<noteq> []) (map py_strip (split_on comma (env_get env name d)))"

text \<open>An adapter with the settings it is built with.\<close>

datatype AdapterSpec =
    IbkrSpec string int int
  | FutuSpec string int FutuConfig fl
  | LongbridgeSpec LbConfig fl
  | TigerSpec TigerSettings

fun spec_name :: "AdapterSpec \<Rightarrow> string" where
  "spec_name (IbkrSpec h p c) = ''IBKR''"
| "spec_name (FutuSpec h p c i) = ''Futu''"
| "spec_name (LongbridgeSpec c i) = ''Longbridge''"
| "spec_name (TigerSpec s) = ''Tiger''"

definition ibkr_spec :: "environ \<Rightarrow> AdapterSpec result" where
  "ibkr_spec env =
     rbind (py_int_text (env_get env ''IB_PORT'' ''4003'')) (\<lambda>port.
     rbind (py_int_text (env_get env ''IB_CLIENT_ID'' ''1'')) (\<lambda>client.
       Inr (IbkrSpec (env_get env ''IB_HOST'' ''ib-gateway'') port client)))"

definition futu_spec :: "environ \<Rightarrow> AdapterSpec result" where
  "futu_spec env =
     rbind (py_int_text (env_get env ''FUTU_PORT'' ''11111'')) (\<lambda>port.
     rbind (py_float (VStr (env_get env ''FUTU_POLL_INTERVAL_S'' ''30''))) (\<lambda>interval.
       Inr (FutuSpec (env_get env ''FUTU_HOST'' ''host.docker.internal'') port
         (futu_config (env_tokens env ''FUTU_MARKETS'' ''HK,US,SG'') (env_get env ''FUTU_SECURITY_FIRM'' ''FUTUSG'')
            (env_get env ''FUTU_TRD_ENV'' ''REAL'') (env_optional_bool env ''FUTU_ENCRYPT'')
            (env_bool env ''FUTU_REFRESH_CACHE'' False)) interval)))"

definition longbridge_spec :: "environ \<Rightarrow> AdapterSpec result" where
  "longbridge_spec env =
     rbind (py_float (VStr (env_get env ''LONGBRIDGE_POLL_INTERVAL_S'' ''30''))) (\<lambda>interval.
       Inr (LongbridgeSpec (longbridge_config (env_get env ''LONGBRIDGE_ACCOUNT_ID'' ''Longbridge'')
         (case map_of env ''LONGBRIDGE_POSITION_CHANNEL'' of None \<Rightarrow> None | Some c \<Rightarrow> if c = [] then None else Some c)
         (env_get env ''LONGBRIDGE_BASE_CURRENCY'' ''USD'')) interval))"

definition tiger_spec :: "(string \<Rightarrow> string result) \<Rightarrow> environ \<Rightarrow> AdapterSpec result" where
  "tiger_spec expand env = rbind (tiger_settings_from_env expand (map_of env)) (\<lambda>s. Inr (TigerSpec s))"

datatype Production = OneAdapter AdapterSpec | CompositeOf "AdapterSpec list"

definition spec_if :: "string list \<Rightarrow> string \<Rightarrow> AdapterSpec result \<Rightarrow> AdapterSpec list result" where
  "spec_if enabled name spec = (if name \<in> set enabled then rbind spec (\<lambda>s. Inr [s]) else Inr [])"

definition build_production_broker :: "(string \<Rightarrow> string result) \<Rightarrow> environ \<Rightarrow> Production result" where
  "build_production_broker expand env =
     (let enabled = enabled_brokers env
      in rbind (spec_if enabled ''IBKR'' (ibkr_spec env)) (\<lambda>a.
         rbind (spec_if enabled ''Futu'' (futu_spec env)) (\<lambda>b.
         rbind (spec_if enabled ''Longbridge'' (longbridge_spec env)) (\<lambda>c.
         rbind (spec_if enabled ''Tiger'' (tiger_spec expand env)) (\<lambda>d.
           (case a @ b @ c @ d of
              [] \<Rightarrow> Inl (RuntimeError ''No enabled broker adapters configured'')
            | [s] \<Rightarrow> Inr (OneAdapter s)
            | specs \<Rightarrow> Inr (CompositeOf specs)))))))"

section \<open>What the routes see of the broker\<close>

definition ref_broker :: "BrokerRef \<Rightarrow> Broker" where
  "ref_broker ref = (case ref of Single a \<Rightarrow> a | Several as \<Rightarrow> composite_broker as)"

definition status_label :: "(string, string) dict \<Rightarrow> string" where
  "status_label statuses =
     (if length statuses \<le> 1
      then (let name = (case statuses of [] \<Rightarrow> ''ibkr'' | (n, s) # ss \<Rightarrow> n)
            in case map_of [(''ibkr'', ''IBKR''), (''futu'', ''Futu''), (''tiger'', ''Tiger''), (''longbridge'', ''Longbridge'')] name of
                 Some l \<Rightarrow> l | None \<Rightarrow> py_upper name)
      else ''Brokers'')"

record Badge =
  bd_state :: string
  bd_backoff :: "fl option"
  bd_label :: string
  bd_restart_visible :: bool

definition badge :: "environ \<Rightarrow> BrokerRef \<Rightarrow> ConnectionState \<Rightarrow> (string, string) dict \<Rightarrow> Badge" where
  "badge env ref st statuses =
     \<lparr>bd_state = state_to_string st,
      bd_backoff = (case b_current_backoff_delay (ref_broker ref) of None \<Rightarrow> None | Some d \<Rightarrow> d),
      bd_label = status_label statuses,
      bd_restart_visible = gateway_restart_visible_for_statuses env statuses\<rparr>"

definition is_htmx_request :: "string option \<Rightarrow> bool" where
  "is_htmx_request hx = (py_lower (case hx of None \<Rightarrow> [] | Some v \<Rightarrow> v) = ''true'')"

text \<open>A fragment for HTMX, the status dictionary for everyone else.\<close>

definition healthz :: "environ \<Rightarrow> BrokerRef \<Rightarrow> string option \<Rightarrow> (Badge + (string, string) dict) response" where
  "healthz env ref hx =
     respond (b_get_connection_state (ref_broker ref)) (\<lambda>st.
     respond (broker_status_map ref) (\<lambda>statuses.
       Ok (if is_htmx_request hx then Inl (badge env ref st statuses) else Inr statuses)))"

text \<open>\<open>after\<close> is the broker as it is once the retry has been made.\<close>

definition healthz_retry :: "environ \<Rightarrow> outcomes \<Rightarrow> BrokerRef \<Rightarrow> BrokerRef \<Rightarrow> (nat \<times> broker_call) list \<times> Badge response" where
  "healthz_retry env outcome ref after =
     (case retry_broker_now outcome ref of
        Inl e \<Rightarrow> ([], Raises e)
      | Inr (calls, Inl e) \<Rightarrow> (calls, Raises e)
      | Inr (calls, Inr u) \<Rightarrow> (calls,
          respond (b_get_connection_state (ref_broker after)) (\<lambda>st.
          respond (broker_status_map after) (\<lambda>statuses. Ok (badge env after st statuses)))))"

section \<open>Admin routes\<close>

text \<open>\<open>secrets.compare_digest\<close> takes ASCII text only.\<close>

definition is_ascii :: "string \<Rightarrow> bool" where
  "is_ascii s = list_all (\<lambda>c. of_char c < (128 :: nat)) s"

definition compare_digest :: "string \<Rightarrow> string \<Rightarrow> bool result" where
  "compare_digest a b = (if is_ascii a \<and> is_ascii b then Inr (a = b) else Inl TypeError)"

definition require_admin_token :: "environ \<Rightarrow> string option \<Rightarrow> unit response" where
  "require_admin_token env header =
     (let expected = env_get env ''ADMIN_TOKEN'' []
      in if expected = [] then (if env_bool env ''ADMIN_ALLOW_NO_AUTH'' False then Ok () else HttpError 503)
         else respond (compare_digest (case header of None \<Rightarrow> [] | Some v \<Rightarrow> v) expected) (\<lambda>same.
           if same then Ok () else HttpError 401))"

text \<open>The guard of a route: what follows runs only if it lets the caller through.\<close>

definition guarded :: "unit response \<Rightarrow> 's \<Rightarrow> ('s \<times> 'a response) \<Rightarrow> 's \<times> 'a response" where
  "guarded auth s body =
     (case auth of Ok u \<Rightarrow> body | HttpError n \<Rightarrow> (s, HttpError n) | Raises e \<Rightarrow> (s, Raises e))"

definition admin_reconcile_fills ::
    "environ \<Rightarrow> string option \<Rightarrow> rate_lookup \<Rightarrow> BrokerRef \<Rightarrow> VendorFill list result \<Rightarrow> instant \<Rightarrow> (string \<Rightarrow> bool) \<Rightarrow>
       Store option \<Rightarrow> Store option \<times> nat response" where
  "admin_reconcile_fills env header fx ref fills_answer now db_fails store_opt =
     guarded (require_admin_token env header) store_opt
       (case store_opt of
          None \<Rightarrow> (None, HttpError 503)
        | Some s \<Rightarrow>
            (case reconcile_fills fx ref fills_answer now db_fails s of
               (s1, r) \<Rightarrow> (Some s1, respond r Ok)))"

fun snapshot_rows :: "instant \<Rightarrow> string \<Rightarrow> (string \<times> string \<Rightarrow> bool) \<Rightarrow> Store \<Rightarrow> AccountSummary list \<Rightarrow> Store \<times> nat response" where
  "snapshot_rows now session db_fails s [] = (s, Ok 0)"
| "snapshot_rows now session db_fails s (a # as) =
     (case build_equity_snapshot_row a now True session of
        Inl e \<Rightarrow> (s, Raises e)
      | Inr r \<Rightarrow>
          if db_fails (as_broker a, as_account_id a) then (s, Raises (OtherError ''database error''))
          else (case insert_equity_snapshot s (r, now) of
             (s1, new) \<Rightarrow>
               (case snapshot_rows now session db_fails s1 as of
                  (s2, Ok n) \<Rightarrow> (s2, Ok ((if new then 1 else 0) + n))
                | (s2, x) \<Rightarrow> (s2, x))))"

definition admin_snapshot ::
    "environ \<Rightarrow> string option \<Rightarrow> BrokerRef \<Rightarrow> instant \<Rightarrow> string \<Rightarrow> (string \<times> string \<Rightarrow> bool) \<Rightarrow>
       Store option \<Rightarrow> Store option \<times> nat response" where
  "admin_snapshot env header ref now session db_fails store_opt =
     guarded (require_admin_token env header) store_opt
       (case store_opt of
          None \<Rightarrow> (None, HttpError 503)
        | Some s \<Rightarrow>
            (case b_get_account_summary (ref_broker ref) of
               Inl CancelledError \<Rightarrow> (Some s, Raises CancelledError)
             | found \<Rightarrow>
                 (case snapshot_rows now session db_fails s (case found of Inl e \<Rightarrow> [] | Inr as \<Rightarrow> as) of
                    (s1, r) \<Rightarrow> (Some s1, r))))"

text \<open>The restart of the gateway: its steps and the calls of the wake are what it does.\<close>

definition admin_ibkr_gateway_restart ::
    "environ \<Rightarrow> string option \<Rightarrow> outcomes \<Rightarrow> BrokerRef \<Rightarrow> gateway_step list \<times> (GatewayError + GatewayRestartResult) \<Rightarrow>
       (gateway_step list \<times> (nat \<times> broker_call) list) \<times> int response" where
  "admin_ibkr_gateway_restart env header outcome ref restarted =
     guarded (require_admin_token env header) ([], [])
       (case restart_gateway_then_retry_ibkr outcome ref restarted of
          (calls, Inl GatewayRestartDisabled) \<Rightarrow> ((fst restarted, calls), HttpError 503)
        | (calls, Inl (GatewayRestartFailed m code out err)) \<Rightarrow> ((fst restarted, calls), HttpError 502)
        | (calls, Inl GatewayCancelled) \<Rightarrow> ((fst restarted, calls), Raises CancelledError)
        | (calls, Inr r) \<Rightarrow> ((fst restarted, calls), Ok (exit_code r)))"

section \<open>History and stream\<close>

definition equity_history :: "Store option \<Rightarrow> instant \<Rightarrow> string option \<Rightarrow> int \<Rightarrow> (string \<times> fl) list" where
  "equity_history store_opt now account n =
     (case store_opt of
        None \<Rightarrow> []
      | Some s \<Rightarrow>
          map (\<lambda>(t, v). (isoformat t, v))
            (get_equity_history s now (max 1 (min 400 n))
               (case account of None \<Rightarrow> None | Some a \<Rightarrow> if a = [] \<or> a = ''All'' then None else Some a)))"

definition or_all :: "string option \<Rightarrow> string" where
  "or_all v = (case v of None \<Rightarrow> ''All'' | Some s \<Rightarrow> if s = [] then ''All'' else s)"

definition stream_holdings ::
    "string option \<Rightarrow> string option \<Rightarrow> string option \<Rightarrow> Position list \<Rightarrow>
       (Position list \<times> Totals \<times> string \<times> (string, MarketStatus) dict) result" where
  "stream_holdings account asset broker_arg ps =
     render_stream_payload ps (or_all account) (or_all asset) (or_all broker_arg)"

section \<open>The page\<close>

definition not_implemented_empty :: "'a list result \<Rightarrow> 'a list result" where
  "not_implemented_empty r = (case r of Inl NotImplementedError \<Rightarrow> Inr [] | _ \<Rightarrow> r)"

text \<open>A filter of the page: unknown values resolve to All.\<close>

definition page_filter :: "string option \<Rightarrow> string list \<Rightarrow> string" where
  "page_filter v known = (case v of Some s \<Rightarrow> if s \<in> set known then s else ''All'' | None \<Rightarrow> ''All'')"

definition page_keep :: "string \<Rightarrow> (Position \<Rightarrow> string) \<Rightarrow> Position list \<Rightarrow> Position list" where
  "page_keep active field ps = (if active = ''All'' then ps else filter (\<lambda>p. field p = active) ps)"

record Page =
  pg_badge :: Badge
  pg_positions :: "Position list"
  pg_totals :: Totals
  pg_market_cards :: "(MarketStatus \<times> flag option) list"
  pg_market_by_ib :: "(string, MarketStatus) dict"
  pg_closures :: "ClosureCard list"
  pg_active_account :: string
  pg_active_asset :: string
  pg_active_broker :: string
  pg_account_summaries :: "AccountSummary list"
  pg_enabled_brokers :: "string list"

text \<open>The rows to show: the live ones, or the broker's when there are none and it is connected.\<close>

definition page_positions :: "BrokerRef \<Rightarrow> ConnectionState \<Rightarrow> LivePositions \<Rightarrow> Position list result" where
  "page_positions ref st live =
     (if get_all live = [] \<and> st = CONNECTED then not_implemented_empty (b_get_positions (ref_broker ref))
      else Inr (get_all live))"

definition page_order :: "Position list \<Rightarrow> Position list" where
  "page_order ps = order_by (\<lambda>p q. market_value_native q \<le> market_value_native p) ps"

definition index ::
    "environ \<Rightarrow> BrokerRef \<Rightarrow> LivePositions \<Rightarrow> (string \<Rightarrow> Calendar) \<Rightarrow> instant \<Rightarrow>
       string option \<Rightarrow> string option \<Rightarrow> string option \<Rightarrow> Page result" where
  "index env ref live cal_of now account asset broker_arg =
     rbind (b_get_connection_state (ref_broker ref)) (\<lambda>st.
     rbind (broker_status_map ref) (\<lambda>statuses.
     rbind (page_positions ref st live) (\<lambda>ps.
     rbind (not_implemented_empty (b_get_account_summary (ref_broker ref))) (\<lambda>summaries.
      (let a = page_filter account (filter (\<lambda>x. x \<noteq> [] \<and> x \<noteq> ''All'') (map as_account_id summaries @ map account_id ps));
           c = page_filter asset [''STK'', ''CASH''];
           b = page_filter broker_arg (enabled_brokers env);
           shown = page_order (page_keep b broker (page_keep c asset_class (page_keep a account_id ps)))
       in rbind (compute_totals shown) (\<lambda>totals.
          rbind (markets_from_positions cal_of now shown) (\<lambda>(cards, by_code, flags).
          rbind (closures_this_week by_code flags cal_of now) (\<lambda>closures.
          rbind (rmap_list holdings_row shown) (\<lambda>_.
            Inr \<lparr>pg_badge = badge env ref st statuses, pg_positions = shown, pg_totals = totals,
              pg_market_cards = cards, pg_market_by_ib = by_code, pg_closures = closures, pg_active_account = a, pg_active_asset = c,
              pg_active_broker = b, pg_account_summaries = summaries,
              pg_enabled_brokers = enabled_brokers env\<rparr>)))))))))"

section \<open>Lemmas\<close>

lemma page_order_mset [simp]: "mset (page_order ps) = mset ps"
  by (simp add: page_order_def)

lemma page_filter_cases:
  "page_filter v known = ''All'' \<or> (\<exists>s. v = Some s \<and> page_filter v known = s \<and> s \<in> set known)"
  by (auto simp: page_filter_def split: option.splits)

text \<open>The parts of a page that was answered.\<close>

definition page_rows :: "string \<Rightarrow> string \<Rightarrow> string \<Rightarrow> Position list \<Rightarrow> Position list" where
  "page_rows a c b ps = page_keep b broker (page_keep c asset_class (page_keep a account_id ps))"

lemma index_parts:
  assumes "index env ref live cal_of now account asset broker_arg = Inr pg" "get_all live \<noteq> []"
    and "not_implemented_empty (b_get_account_summary (ref_broker ref)) = Inr summaries"
  shows "pg_active_account pg = page_filter account
        (filter (\<lambda>x. x \<noteq> [] \<and> x \<noteq> ''All'') (map as_account_id summaries @ map account_id (get_all live)))"
    "pg_active_asset pg = page_filter asset [''STK'', ''CASH'']"
    "pg_active_broker pg = page_filter broker_arg (enabled_brokers env)"
    "mset (pg_positions pg) = mset (page_rows (pg_active_account pg) (pg_active_asset pg) (pg_active_broker pg) (get_all live))"
    "compute_totals (pg_positions pg) = Inr (pg_totals pg)"
    "\<exists>us. rmap_list holdings_row (pg_positions pg) = Inr us"
    "\<exists>cards flags. markets_from_positions cal_of now (pg_positions pg) = Inr (cards, pg_market_by_ib pg, flags)"
  using assms by (auto simp: index_def page_positions_def page_rows_def Let_def rbind_Inr_iff)

lemma index_summaries:
  assumes "index env ref live cal_of now account asset broker_arg = Inr pg"
  obtains summaries where "not_implemented_empty (b_get_account_summary (ref_broker ref)) = Inr summaries"
  using assms by (auto simp: index_def rbind_Inr_iff)

lemma or_all_nonempty: "or_all v \<noteq> []"
  by (auto simp: or_all_def split: option.splits)

lemma stream_rows:
  "apply_filters ps (or_all x) (or_all y) (or_all z) = page_rows (or_all x) (or_all y) (or_all z) ps"
  by (simp add: apply_filters_def page_rows_def keep_if_def page_keep_def or_all_nonempty)

lemma rows_render_perm:
  assumes "mset xs = mset ys" "rmap_list holdings_row xs = Inr us"
  shows "\<exists>vs. rmap_list holdings_row ys = Inr vs"
  using rmap_list_perm [OF assms] by blast

lemma spec_if_names:
  assumes "spec_if enabled name spec = Inr specs" "\<And>s. spec = Inr s \<Longrightarrow> spec_name s = name"
  shows "map spec_name specs = (if name \<in> set enabled then [name] else [])"
  using assms by (auto simp: spec_if_def rbind_Inr_iff split: if_splits)

lemma specs_named:
  "ibkr_spec env = Inr s \<Longrightarrow> spec_name s = ''IBKR''"
  "futu_spec env = Inr s \<Longrightarrow> spec_name s = ''Futu''"
  "longbridge_spec env = Inr s \<Longrightarrow> spec_name s = ''Longbridge''"
  "tiger_spec expand env = Inr s \<Longrightarrow> spec_name s = ''Tiger''"
  by (auto simp: ibkr_spec_def futu_spec_def longbridge_spec_def tiger_spec_def rbind_Inr_iff)

lemma py_int_text_raises: "py_int_text v = Inl e \<Longrightarrow> \<exists>m. e = ValueError m"
  by (auto simp: py_int_text_def split: option.splits)

lemma py_float_text_raises: "py_float (VStr v) = Inl e \<Longrightarrow> \<exists>m. e = ValueError m"
  by (auto split: option.splits)

lemma specs_raise:
  "ibkr_spec env = Inl e \<Longrightarrow> \<exists>m. e = ValueError m"
  "futu_spec env = Inl e \<Longrightarrow> \<exists>m. e = ValueError m"
  "longbridge_spec env = Inl e \<Longrightarrow> \<exists>m. e = ValueError m"
  unfolding ibkr_spec_def futu_spec_def longbridge_spec_def rbind_Inl_iff
  by (auto dest: py_int_text_raises py_float_text_raises simp del: py_float.simps)

text \<open>The home directory of Tiger's configuration cannot be found: expanding it raises.\<close>

definition home_unknown :: "(string \<Rightarrow> string result) \<Rightarrow> environ \<Rightarrow> py_exc \<Rightarrow> bool" where
  "home_unknown expand env e =
     (case env_text (map_of env) ''TIGER_CONFIG_DIR'' of None \<Rightarrow> False | Some dir \<Rightarrow> expand dir = Inl e)"

lemma env_text_stripped: "env_text env n = Some t \<Longrightarrow> py_strip t = t \<and> t \<noteq> []"
  by (auto simp: env_text_def Let_def split: if_splits)

lemma tiger_spec_raises:
  assumes "tiger_spec expand env = Inl e"
  shows "(\<exists>m. e = ValueError m) \<or> home_unknown expand env e"
proof -
  have "clean_path expand (env_text (map_of env) ''TIGER_CONFIG_DIR'') = Inl e \<or> (\<exists>v. py_float (VStr v) = Inl e)"
    using assms unfolding tiger_spec_def tiger_settings_from_env_def rbind_Inl_iff by auto
  then show ?thesis
  proof
    assume "clean_path expand (env_text (map_of env) ''TIGER_CONFIG_DIR'') = Inl e"
    then show ?thesis
      using env_text_stripped [of "map_of env" "''TIGER_CONFIG_DIR''"]
      by (auto simp: clean_path_def home_unknown_def rbind_Inl_iff Let_def split: option.splits if_splits)
  next
    assume "\<exists>v. py_float (VStr v) = Inl e"
    then show ?thesis using py_float_text_raises by blast
  qed
qed

lemma enabled_known: "enabled_brokers env \<noteq> [] \<and> set (enabled_brokers env) \<subseteq> set ALL_KNOWN_BROKERS \<and> distinct (enabled_brokers env)"
  by (auto simp: enabled_brokers_def Let_def ALL_KNOWN_BROKERS_def)

text \<open>The adapters in the order the program builds them.\<close>

definition enabled_in_order :: "environ \<Rightarrow> string list" where
  "enabled_in_order env = filter (\<lambda>b. b \<in> set (enabled_brokers env)) [''IBKR'', ''Futu'', ''Longbridge'', ''Tiger'']"

lemma enabled_in_order_set: "set (enabled_in_order env) = set (enabled_brokers env)"
proof -
  have "set ALL_KNOWN_BROKERS = set [''IBKR'', ''Futu'', ''Longbridge'', ''Tiger'']"
    by (auto simp: ALL_KNOWN_BROKERS_def)
  with enabled_known [of env] show ?thesis unfolding enabled_in_order_def set_filter by blast
qed

lemma enabled_alone: "enabled_in_order env = [x] \<Longrightarrow> enabled_brokers env = [x]"
proof -
  assume "enabled_in_order env = [x]"
  then have "set (enabled_brokers env) = {x}" using enabled_in_order_set [of env] by simp
  moreover have "distinct (enabled_brokers env)" "enabled_brokers env \<noteq> []" using enabled_known [of env] by blast+
  ultimately show ?thesis by (cases "enabled_brokers env"; cases "tl (enabled_brokers env)") auto
qed

lemma production_built:
  assumes "build_production_broker expand env = Inr r"
  shows "\<exists>specs. map spec_name specs = enabled_in_order env
    \<and> (specs = [] \<or> (\<exists>s. specs = [s] \<and> r = OneAdapter s) \<or> (2 \<le> length specs \<and> r = CompositeOf specs))"
proof -
  from assms obtain a b c d where
      a: "spec_if (enabled_brokers env) ''IBKR'' (ibkr_spec env) = Inr a"
    and b: "spec_if (enabled_brokers env) ''Futu'' (futu_spec env) = Inr b"
    and c: "spec_if (enabled_brokers env) ''Longbridge'' (longbridge_spec env) = Inr c"
    and d: "spec_if (enabled_brokers env) ''Tiger'' (tiger_spec expand env) = Inr d"
    and r: "(case a @ b @ c @ d of [] \<Rightarrow> Inl (RuntimeError ''No enabled broker adapters configured'')
              | [s] \<Rightarrow> Inr (OneAdapter s) | specs \<Rightarrow> Inr (CompositeOf specs)) = Inr r"
    unfolding build_production_broker_def Let_def rbind_Inr_iff by (elim exE conjE) (rule that)
  have "map spec_name (a @ b @ c @ d) = enabled_in_order env"
    unfolding enabled_in_order_def
    by (simp add: spec_if_names [OF a] spec_if_names [OF b] spec_if_names [OF c] spec_if_names [OF d] specs_named)
  moreover obtain specs where specs: "a @ b @ c @ d = specs" by simp
  ultimately have "map spec_name specs = enabled_in_order env" by simp
  with r show ?thesis
    unfolding specs by (intro exI [of _ specs]) (auto split: list.splits)
qed

lemma spec_if_raises: "spec_if enabled name spec = Inl e \<Longrightarrow> spec = Inl e"
  by (auto simp: spec_if_def rbind_Inl_iff split: if_splits)

lemma production_raises:
  assumes "build_production_broker expand env = Inl e"
  shows "(\<exists>m. e = ValueError m) \<or> (''Tiger'' \<in> set (enabled_brokers env) \<and> home_unknown expand env e) \<or> enabled_in_order env = []"
proof (cases "(\<exists>m. e = ValueError m) \<or> (''Tiger'' \<in> set (enabled_brokers env) \<and> home_unknown expand env e)")
  case False
  have ok: "spec_if (enabled_brokers env) n x \<noteq> Inl e" if "\<And>e'. x = Inl e' \<Longrightarrow> \<exists>m. e' = ValueError m" for n x
    using spec_if_raises [of _ n x e] that False by blast
  have tiger: "spec_if (enabled_brokers env) ''Tiger'' (tiger_spec expand env) \<noteq> Inl e"
    using tiger_spec_raises [of expand env e] False by (auto simp: spec_if_def rbind_Inl_iff)
  from assms obtain a b c d where
      a: "spec_if (enabled_brokers env) ''IBKR'' (ibkr_spec env) = Inr a"
    and b: "spec_if (enabled_brokers env) ''Futu'' (futu_spec env) = Inr b"
    and c: "spec_if (enabled_brokers env) ''Longbridge'' (longbridge_spec env) = Inr c"
    and d: "spec_if (enabled_brokers env) ''Tiger'' (tiger_spec expand env) = Inr d"
    and r: "(case a @ b @ c @ d of [] \<Rightarrow> Inl (RuntimeError ''No enabled broker adapters configured'')
              | [s] \<Rightarrow> Inr (OneAdapter s) | specs \<Rightarrow> Inr (CompositeOf specs)) = Inl e"
    unfolding build_production_broker_def Let_def rbind_Inl_iff
    using ok [OF specs_raise(1)] ok [OF specs_raise(2)] ok [OF specs_raise(3)] tiger
    by (elim disjE exE conjE) simp_all
  have "map spec_name (a @ b @ c @ d) = enabled_in_order env"
    unfolding enabled_in_order_def
    by (simp add: spec_if_names [OF a] spec_if_names [OF b] spec_if_names [OF c] spec_if_names [OF d] specs_named)
  with r show ?thesis by (auto split: list.splits)
qed auto

section \<open>Properties\<close>

text \<open>C24. The admin routes fail closed: a caller gets in only with the configured token, or, with no token
  configured, where the operator has opted out of authentication; everyone else is refused or runs
  into an error before any of the three routes reads, writes or starts anything.\<close>
theorem admin_routes_fail_closed:
  "(require_admin_token env header = Ok () \<longleftrightarrow>
      (if env_get env ''ADMIN_TOKEN'' [] = [] then env_bool env ''ADMIN_ALLOW_NO_AUTH'' False
       else is_ascii (env_get env ''ADMIN_TOKEN'' []) \<and> header = Some (env_get env ''ADMIN_TOKEN'' [])))
   \<and> (require_admin_token env header \<noteq> Ok () \<longrightarrow>
      fst (admin_reconcile_fills env header fx ref answer now fails st) = st
      \<and> fst (admin_snapshot env header ref now session db_fails st) = st
      \<and> fst (admin_ibkr_gateway_restart env header outcome ref restarted) = ([], [])
      \<and> (\<forall>n. snd (admin_reconcile_fills env header fx ref answer now fails st) \<noteq> Ok n)
      \<and> (\<forall>n. snd (admin_snapshot env header ref now session db_fails st) \<noteq> Ok n)
      \<and> (\<forall>n. snd (admin_ibkr_gateway_restart env header outcome ref restarted) \<noteq> Ok n))"
proof (intro conjI impI)
  show "require_admin_token env header = Ok () \<longleftrightarrow>
      (if env_get env ''ADMIN_TOKEN'' [] = [] then env_bool env ''ADMIN_ALLOW_NO_AUTH'' False
       else is_ascii (env_get env ''ADMIN_TOKEN'' []) \<and> header = Some (env_get env ''ADMIN_TOKEN'' []))"
    by (cases header) (auto simp: require_admin_token_def compare_digest_def Let_def)
qed (cases "require_admin_token env header";
    simp add: admin_reconcile_fills_def admin_snapshot_def admin_ibkr_gateway_restart_def guarded_def)+

definition demo_environ :: environ where
  "demo_environ = [(''ADMIN_TOKEN'', ''s3cret'')]"

theorem admin_routes_fail_closed_witness:
  "fst (admin_snapshot demo_environ (Some ''guess'') (Several []) 0 ''MANUAL'' (\<lambda>_. False) (Some empty_store)) = Some empty_store
   \<and> require_admin_token demo_environ (Some ''s3cret'') = Ok ()"
proof -
  have t: "is_ascii ''s3cret''" "env_get demo_environ ''ADMIN_TOKEN'' [] = ''s3cret''" by code_simp+
  note enter = admin_routes_fail_closed [of demo_environ _ None "Several []" "Inr []" 0 "\<lambda>_. False" "Some empty_store"
      "''MANUAL''" "\<lambda>_. False" "\<lambda>_ _. Inr ()" "([], Inl GatewayRestartDisabled)"]
  have "require_admin_token demo_environ (Some ''guess'') \<noteq> Ok ()" "require_admin_token demo_environ (Some ''s3cret'') = Ok ()"
    using enter [THEN conjunct1] t by simp_all
  with enter [THEN conjunct2] show ?thesis by blast
qed

text \<open>C23. The page and the stream agree but for the lunch notes. With rows in the store and where the page took the
  filters as they were given, the first push of the stream with the same filters shows the same rows,
  in another order at most, the same totals and the same account. The push is rendered without the
  market statuses, so no row of it bears a lunch note: it takes the note away from exactly the stock
  rows whose exchange is breaking for lunch, which bore one on the page.\<close>
theorem page_and_stream_agree:
  assumes "index env ref live cal_of now account asset broker_arg = Inr pg" "get_all live \<noteq> []"
    and "pg_active_account pg = or_all account" "pg_active_asset pg = or_all asset" "pg_active_broker pg = or_all broker_arg"
  shows "\<exists>rows market_by_ib. stream_holdings account asset broker_arg (get_all live)
        = Inr (rows, pg_totals pg, pg_active_account pg, market_by_ib)
    \<and> mset rows = mset (pg_positions pg)
    \<and> (\<forall>p\<in>set rows. lunch_note market_by_ib p = None
        \<and> lunch_note (pg_market_by_ib pg) p =
          (case status cal_of now (exchange p) of
             Inr (Some s) \<Rightarrow> if asset_class p = ''STK'' \<and> exchange p \<noteq> [] \<and> ms_state s = LUNCH
               then Some (ms_next_transition_local s) else None
           | _ \<Rightarrow> None))"
proof -
  obtain summaries where sm: "not_implemented_empty (b_get_account_summary (ref_broker ref)) = Inr summaries"
    by (rule index_summaries [OF assms(1)])
  note parts = index_parts [OF assms(1,2) sm]
  let ?rows = "apply_filters (get_all live) (or_all account) (or_all asset) (or_all broker_arg)"
  have perm: "mset (pg_positions pg) = mset ?rows"
    using parts(4) unfolding assms(3-5) stream_rows .
  have "compute_totals ?rows = Inr (pg_totals pg)"
    by (rule totals_order_independent [OF perm parts(5)])
  moreover obtain vs where "rmap_list holdings_row ?rows = Inr vs"
    using parts(6) rows_render_perm [OF perm] by blast
  ultimately have push: "stream_holdings account asset broker_arg (get_all live) = Inr (?rows, pg_totals pg, pg_active_account pg, [])"
    by (simp add: stream_holdings_def render_stream_payload_def Let_def or_all_nonempty assms(3))
  obtain cards flags where m: "markets_from_positions cal_of now (pg_positions pg) = Inr (cards, pg_market_by_ib pg, flags)"
    using parts(7) by blast
  have "lunch_note (pg_market_by_ib pg) p =
      (case status cal_of now (exchange p) of
         Inr (Some s) \<Rightarrow> if asset_class p = ''STK'' \<and> exchange p \<noteq> [] \<and> ms_state s = LUNCH
           then Some (ms_next_transition_local s) else None
       | _ \<Rightarrow> None)" if "p \<in> set ?rows" for p
    using that mset_eq_setD [OF perm]
    by (auto simp: lunch_note_def market_by_code [OF m] market_exchanges_set(2) split: option.splits sum.splits)
  with push perm show ?thesis by (intro exI [of _ ?rows] exI [of _ "[]"]) (simp add: lunch_note_def)
qed

definition demo_ref :: BrokerRef where
  "demo_ref = Single (demo_broker ''IBKR'' (Inr CONNECTED) (Inr []))"

definition demo_live :: LivePositions where
  "demo_live = set_position lp_new ((demo_row ''IBKR'' ''HKD'' 300)\<lparr>asset_class := ''CASH'', exchange := []\<rparr>)"

definition demo_now :: instant where
  "demo_now = days 738943 + 9 * 3600000000"

text \<open>A stock row while its exchange breaks for lunch: on the page it bears the note, on the push it does not.\<close>

definition lunch_live :: LivePositions where
  "lunch_live = set_position lp_new (demo_row ''IBKR'' ''700.HK'' 5)"

definition lunch_time :: instant where
  "lunch_time = days 738944 + 11 * 3600000000"

lemma lunch_page:
  "case index [] demo_ref lunch_live (\<lambda>_. demo_calendar) lunch_time (Some ''A'') None None of
     Inl e \<Rightarrow> False
   | Inr pg \<Rightarrow> pg_active_account pg = ''A'' \<and> pg_active_asset pg = ''All'' \<and> pg_active_broker pg = ''All''
       \<and> list_ex (\<lambda>p. lunch_note (pg_market_by_ib pg) p \<noteq> None) (pg_positions pg)"
  by code_simp

theorem page_and_stream_agree_witness:
  "\<exists>pg rows market_by_ib p. index [] demo_ref lunch_live (\<lambda>_. demo_calendar) lunch_time (Some ''A'') None None = Inr pg
     \<and> stream_holdings (Some ''A'') None None (get_all lunch_live) = Inr (rows, pg_totals pg, ''A'', market_by_ib)
     \<and> p \<in> set rows \<and> p \<in> set (pg_positions pg)
     \<and> lunch_note (pg_market_by_ib pg) p \<noteq> None \<and> lunch_note market_by_ib p = None"
proof -
  have l: "get_all lunch_live \<noteq> []" by code_simp
  have all: "or_all (Some ''A'') = ''A''" "or_all None = ''All''" by code_simp+
  from lunch_page obtain pg p where pg: "index [] demo_ref lunch_live (\<lambda>_. demo_calendar) lunch_time (Some ''A'') None None = Inr pg"
      "pg_active_account pg = or_all (Some ''A'')" "pg_active_asset pg = or_all None" "pg_active_broker pg = or_all None"
    and p: "p \<in> set (pg_positions pg)" "lunch_note (pg_market_by_ib pg) p \<noteq> None"
    unfolding all list_ex_iff by (auto split: sum.splits)
  obtain rows m where push: "stream_holdings (Some ''A'') None None (get_all lunch_live)
        = Inr (rows, pg_totals pg, pg_active_account pg, m)"
      "mset rows = mset (pg_positions pg)" "\<forall>p\<in>set rows. lunch_note m p = None"
    using page_and_stream_agree [OF pg(1) l pg(2-4)] by blast
  have "p \<in> set rows" using p(1) mset_eq_setD [OF push(2)] by simp
  with pg push p show ?thesis unfolding pg(2) all by blast
qed

text \<open>With an account it does not know, they disagree: the page falls back to all rows, and the stream
  then replaces them by none.\<close>
theorem unknown_account_empties_page:
  assumes "index env ref live cal_of now (Some x) None None = Inr pg" "get_all live \<noteq> []"
    and "x \<noteq> []" "x \<noteq> ''All''" "x \<notin> account_id ` set (get_all live)"
    and "b_get_account_summary (ref_broker ref) = Inr summaries" "x \<notin> as_account_id ` set summaries"
  shows "mset (pg_positions pg) = mset (get_all live)
    \<and> (\<exists>t. stream_holdings (Some x) None None (get_all live) = Inr ([], t, x, []))"
proof -
  have sm: "not_implemented_empty (b_get_account_summary (ref_broker ref)) = Inr summaries"
    using assms(6) by (simp add: not_implemented_empty_def)
  note parts = index_parts [OF assms(1,2) sm]
  have "pg_active_account pg = ''All''" "pg_active_asset pg = ''All''" "pg_active_broker pg = ''All''"
    using parts(1-3) assms(5,7) by (auto simp: page_filter_def)
  with parts(4) have "mset (pg_positions pg) = mset (get_all live)"
    by (simp add: page_rows_def page_keep_def)
  moreover have "apply_filters (get_all live) x ''All'' ''All'' = []"
    using assms(3-5) by (auto simp: apply_filters_def keep_if_def filter_empty_conv)
  then have "\<exists>t. stream_holdings (Some x) None None (get_all live) = Inr ([], t, x, [])"
    using assms(3) by (simp add: stream_holdings_def or_all_def render_stream_payload_def compute_totals_def Let_def)
  ultimately show ?thesis by blast
qed

theorem unknown_account_empties_page_witness:
  "case index [] demo_ref demo_live (\<lambda>_. demo_calendar) demo_now (Some ''gone'') None None of
     Inl e \<Rightarrow> False
   | Inr pg \<Rightarrow> mset (pg_positions pg) = mset (get_all demo_live)
       \<and> (\<exists>t. stream_holdings (Some ''gone'') None None (get_all demo_live) = Inr ([], t, ''gone'', []))"
proof -
  have l: "get_all demo_live \<noteq> []" "''gone'' \<notin> account_id ` set (get_all demo_live)" by code_simp+
  have "case index [] demo_ref demo_live (\<lambda>_. demo_calendar) demo_now (Some ''gone'') None None of
     Inl e \<Rightarrow> False | Inr pg \<Rightarrow> True" by code_simp
  moreover have "b_get_account_summary (ref_broker demo_ref) = Inr []" by code_simp
  ultimately show ?thesis
    using unknown_account_empties_page [of "[]" demo_ref demo_live "\<lambda>_. demo_calendar" demo_now "''gone''" _ "[]"] l
    by (auto split: sum.splits)
qed

text \<open>C25. One row can take the dashboard down: if any row has an exchange outside the core table, as
  Longbridge's static data can name, or is cash in a currency without a flag, as every adapter passes
  on, the page raises, and so does each push of a stream that shows the row.\<close>
theorem one_row_breaks_page:
  assumes "p \<in> set (get_all live)" "row_unknown p"
  shows "(\<exists>e. index env ref live cal_of now None None None = Inl e)
    \<and> (\<exists>e. stream_holdings None None None (get_all live) = Inl e)
    \<and> (\<forall>a c b. p \<in> set (apply_filters (get_all live) a c b) \<longrightarrow> (\<exists>e. render_stream_payload (get_all live) a c b = Inl e))"
proof -
  have "\<exists>e. index env ref live cal_of now None None None = Inl e"
  proof (cases "index env ref live cal_of now None None None")
    case (Inr pg)
    obtain summaries where sm: "not_implemented_empty (b_get_account_summary (ref_broker ref)) = Inr summaries"
      by (rule index_summaries [OF Inr])
    have "get_all live \<noteq> []" using assms(1) by auto
    note parts = index_parts [OF Inr this sm]
    have "pg_active_account pg = ''All''" "pg_active_asset pg = ''All''" "pg_active_broker pg = ''All''"
      using parts(1-3) by (simp_all add: page_filter_def)
    with parts(4) have "mset (pg_positions pg) = mset (get_all live)"
      by (simp add: page_rows_def page_keep_def)
    from mset_eq_setD [OF this] have "set (pg_positions pg) = set (get_all live)" .
    then have "p \<in> set (pg_positions pg)" using assms(1) by simp
    from parts(6) have "\<forall>x\<in>set (pg_positions pg). \<exists>y. holdings_row x = Inr y"
      unfolding rmap_list_Inr_iff list_all_iff .
    from bspec [OF this \<open>p \<in> set (pg_positions pg)\<close>] obtain u where "holdings_row p = Inr u" ..
    with unknown_row_raises [OF assms(2)] show ?thesis by simp
  qed blast
  moreover have "p \<in> set (apply_filters (get_all live) (or_all None) (or_all None) (or_all None))"
    using assms(1) by (simp add: or_all_def apply_filters_def keep_if_def)
  from unknown_row_stops_push [OF this assms(2)]
  have "\<exists>e. stream_holdings None None None (get_all live) = Inl e" by (simp add: stream_holdings_def)
  ultimately show ?thesis
    using unknown_row_stops_push [OF _ assms(2)] by (intro conjI allI impI)
qed

text \<open>The witness is a Longbridge row whose static data names the exchange NASD.\<close>

theorem one_row_breaks_page_witness:
  "\<exists>p. position_from_stock_row demo_lb_cfg None (demo_lb_row ''AAPL.US'') None
       (Some \<lparr>lx_symbol = ''AAPL.US'', lx_exchange = Some ''NASD'', lx_currency = None, lx_name_en = None\<rparr>) = Inr (Some p)
     \<and> (\<exists>e. index [] demo_ref (set_position lp_new p) (\<lambda>_. demo_calendar) demo_now None None None = Inl e)
     \<and> (\<exists>e. stream_holdings None None None (get_all (set_position lp_new p)) = Inl e)"
proof -
  let ?row = "position_from_stock_row demo_lb_cfg None (demo_lb_row ''AAPL.US'') None
       (Some \<lparr>lx_symbol = ''AAPL.US'', lx_exchange = Some ''NASD'', lx_currency = None, lx_name_en = None\<rparr>)"
  have "case ?row of Inr (Some p) \<Rightarrow> row_unknown p \<and> p \<in> set (get_all (set_position lp_new p)) | _ \<Rightarrow> False" by code_simp
  then obtain p where p: "?row = Inr (Some p)" "row_unknown p" "p \<in> set (get_all (set_position lp_new p))"
    by (auto split: sum.splits option.splits)
  from one_row_breaks_page [OF p(3,2)] p(1) show ?thesis by blast
qed

text \<open>C26. The program runs exactly the adapters that are enabled, in one fixed order, alone or behind the
  composite, and what stops it from building them is a setting it cannot use: a ValueError, or, with
  Tiger enabled and a directory for its configuration set, what expanding the home directory in that
  path raises, and nothing else.\<close>
theorem production_broker_exact:
  "case build_production_broker expand env of
     Inl e \<Rightarrow> (\<exists>m. e = ValueError m)
       \<or> (''Tiger'' \<in> set (enabled_brokers env)
          \<and> (\<exists>dir. env_text (map_of env) ''TIGER_CONFIG_DIR'' = Some dir \<and> expand dir = Inl e))
   | Inr (OneAdapter s) \<Rightarrow> enabled_brokers env = [spec_name s]
   | Inr (CompositeOf specs) \<Rightarrow> 2 \<le> length specs
       \<and> map spec_name specs = filter (\<lambda>b. b \<in> set (enabled_brokers env)) [''IBKR'', ''Futu'', ''Longbridge'', ''Tiger'']"
proof -
  have ne: "enabled_in_order env \<noteq> []"
    using enabled_in_order_set [of env] enabled_known [of env] by auto
  show ?thesis
  proof (cases "build_production_broker expand env")
    case (Inl e)
    with production_raises [OF Inl] ne show ?thesis by (auto simp: home_unknown_def split: option.splits)
  next
    case (Inr r)
    from production_built [OF Inr] obtain specs where specs: "map spec_name specs = enabled_in_order env"
        "specs = [] \<or> (\<exists>s. specs = [s] \<and> r = OneAdapter s) \<or> (2 \<le> length specs \<and> r = CompositeOf specs)"
      by (elim exE conjE)
    from specs(2) show ?thesis
    proof (elim disjE exE conjE)
      assume "specs = []" with specs(1) ne show ?thesis by simp
    next
      fix s assume s: "specs = [s]" "r = OneAdapter s"
      with specs(1) have "enabled_brokers env = [spec_name s]" by (intro enabled_alone) simp
      with Inr s show ?thesis by simp
    next
      assume "2 \<le> length specs" "r = CompositeOf specs"
      with Inr specs(1) show ?thesis by (simp add: enabled_in_order_def)
    qed
  qed
qed

end
