(* ===== verification/Lifespan.thy ===== *)
theory Lifespan
  imports Web Monitor
begin

text \<open>
  The lifespan of the application in \<open>app/main.py\<close>: what it opens and starts, in which order, with
  which settings, and what it closes. What a step gives is a parameter; a background task is the
  step that spawns it, whether the lifespan spawns it itself or the service it starts does.
  \<open>lifespan_start\<close> gives the steps that were begun and the broker, or the exception that stops the
  server from starting; the code after the \<open>yield\<close>, \<open>lifespan_stop\<close>, is only reached by a start that
  did not raise.
\<close>

datatype lifespan_step =
    OpenStore | StartFx | StartBroker
  | SpawnFxPoll | SpawnBrokerTask nat
  | SpawnReconcile "int \<times> int" | SpawnSnapshot | SpawnMonitor NotifierKind fl fl
  | CancelTask lifespan_step | DisconnectBroker | StopFx | CloseStore

fun production_specs :: "Production \<Rightarrow> AdapterSpec list" where
  "production_specs (OneAdapter s) = [s]"
| "production_specs (CompositeOf specs) = specs"

text \<open>\<open>select_ibkr_broker\<close> on the broker that was built.\<close>

definition monitored :: "Production \<Rightarrow> bool" where
  "monitored b = list_ex (\<lambda>s. py_lower (spec_name s) = ''ibkr'') (production_specs b)"

definition monitor_step :: "environ \<Rightarrow> lifespan_step" where
  "monitor_step env = SpawnMonitor (build_notifier env)
     (positive_env_float env ''CONNECTION_MONITOR_INTERVAL_S'' 30)
     (positive_env_float env ''IBKR_AUTH_ATTENTION_AFTER_S'' 120)"

text \<open>\<open>FxService.start\<close> spawns its poll of the public API as its last step (production passes an
  \<open>api_fetcher\<close>). What \<open>broker.start\<close> leaves running, the polls and the reconnect loops of the adapters,
  is numbered by the parameter.\<close>

definition fx_start_steps :: "unit result \<Rightarrow> lifespan_step list" where
  "fx_start_steps fx_started = StartFx # (case fx_started of Inl e \<Rightarrow> [] | Inr u \<Rightarrow> [SpawnFxPoll])"

definition lifespan_start ::
    "(string \<Rightarrow> string result) \<Rightarrow> environ \<Rightarrow> unit result \<Rightarrow> unit result \<Rightarrow>
       (Production \<Rightarrow> nat list \<times> unit result) \<Rightarrow> lifespan_step list \<times> Production result" where
  "lifespan_start expand env dir_made fx_started broker_started =
     (case dir_made of
        Inl e \<Rightarrow> ([], Inl e)
      | Inr u \<Rightarrow>
          (let opened = OpenStore # fx_start_steps fx_started
           in case fx_started of
             Inl e \<Rightarrow> (opened, Inl e)
           | Inr u \<Rightarrow>
               (case build_production_broker expand env of
                  Inl e \<Rightarrow> (opened, Inl e)
                | Inr b \<Rightarrow>
                    (case broker_started b of
                       (tasks, started) \<Rightarrow>
                       (let begun = opened @ StartBroker # map SpawnBrokerTask tasks
                        in case started of
                             Inl e \<Rightarrow> (begun, Inl e)
                           | Inr u \<Rightarrow>
                               (begun
                                @ [SpawnReconcile (parse_hhmm (env_get env ''RECONCILE_AT_HHMM'' ''23:00'')), SpawnSnapshot]
                                @ (if monitored b then [monitor_step env] else []), Inr b))))))"

text \<open>The three tasks of the lifespan itself, which its shutdown cancels; every background task; and the
  steps that end one.\<close>

fun is_spawn :: "lifespan_step \<Rightarrow> bool" where
  "is_spawn (SpawnReconcile hm) = True"
| "is_spawn SpawnSnapshot = True"
| "is_spawn (SpawnMonitor n i a) = True"
| "is_spawn s = False"

fun is_task :: "lifespan_step \<Rightarrow> bool" where
  "is_task SpawnFxPoll = True"
| "is_task (SpawnBrokerTask i) = True"
| "is_task s = is_spawn s"

fun is_stop :: "lifespan_step \<Rightarrow> bool" where
  "is_stop (CancelTask t) = True"
| "is_stop DisconnectBroker = True"
| "is_stop StopFx = True"
| "is_stop s = False"

text \<open>The shutdown: tasks that are done are left alone; an exception of a step is passed over, unless it is
  a cancellation, which only the waits for the tasks pass over too.\<close>

fun run_stops :: "(lifespan_step \<Rightarrow> py_exc option) \<Rightarrow> lifespan_step list \<Rightarrow> lifespan_step list" where
  "run_stops raised [] = []"
| "run_stops raised (CancelTask t # ss) = CancelTask t # run_stops raised ss"
| "run_stops raised (s # ss) = s # (if raised s = Some CancelledError then [] else run_stops raised ss)"

definition running :: "(lifespan_step \<Rightarrow> bool) \<Rightarrow> lifespan_step list \<Rightarrow> lifespan_step list" where
  "running finished started = filter (\<lambda>s. is_spawn s \<and> \<not> finished s) started"

definition lifespan_stop ::
    "(lifespan_step \<Rightarrow> py_exc option) \<Rightarrow> (lifespan_step \<Rightarrow> bool) \<Rightarrow> lifespan_step list \<Rightarrow> lifespan_step list" where
  "lifespan_stop raised finished started =
     run_stops raised (map CancelTask (running finished started) @ [DisconnectBroker, StopFx, CloseStore])"

section \<open>Lemmas\<close>

lemma spec_name_ibkr: "py_lower (spec_name s) = ''ibkr'' \<longleftrightarrow> spec_name s = ''IBKR''"
proof -
  have "py_lower ''IBKR'' = ''ibkr''" "py_lower ''Futu'' \<noteq> ''ibkr''" "py_lower ''Longbridge'' \<noteq> ''ibkr''" "py_lower ''Tiger'' \<noteq> ''ibkr''"
    by code_simp+
  then show ?thesis by (cases s) simp_all
qed

lemma monitored_iff:
  assumes "build_production_broker expand env = Inr b"
  shows "monitored b \<longleftrightarrow> ''IBKR'' \<in> set (enabled_brokers env)"
proof -
  obtain specs where specs: "map spec_name specs = enabled_in_order env"
    "specs = [] \<or> (\<exists>s. specs = [s] \<and> b = OneAdapter s) \<or> (2 \<le> length specs \<and> b = CompositeOf specs)"
    using production_built [OF assms] by (elim exE conjE)
  have "enabled_in_order env \<noteq> []" using enabled_in_order_set [of env] enabled_known [of env] by auto
  with specs have "production_specs b = specs" by auto
  then have "monitored b \<longleftrightarrow> ''IBKR'' \<in> set (map spec_name specs)"
    by (auto simp: monitored_def list_ex_iff spec_name_ibkr image_iff eq_commute [of "''IBKR''"])
  then show ?thesis by (simp add: specs(1) enabled_in_order_set)
qed

lemma positive_setting:
  assumes "0 < d" "is_finite d"
  shows "0 < positive_env_float env name d \<and> is_finite (positive_env_float env name d)"
  using assms by (auto simp: positive_env_float_def Let_def is_finite_iff split: option.splits)

lemma run_stops_tasks: "run_stops raised (map CancelTask ts @ ss) = map CancelTask ts @ run_stops raised ss"
  by (induction ts) simp_all

lemma is_task_broker [simp]: "filter is_task (map SpawnBrokerTask ts) = map SpawnBrokerTask ts"
  by (induction ts) simp_all

lemma lifespan_started:
  assumes "lifespan_start expand env dir_made fx_started broker_started = (steps, Inr b)"
  shows "filter is_task steps =
      SpawnFxPoll # map SpawnBrokerTask (fst (broker_started b))
        @ [SpawnReconcile (parse_hhmm (env_get env ''RECONCILE_AT_HHMM'' ''23:00'')), SpawnSnapshot]
        @ (if ''IBKR'' \<in> set (enabled_brokers env) then [monitor_step env] else [])"
proof -
  have "build_production_broker expand env = Inr b"
    "steps = [OpenStore, StartFx, SpawnFxPoll, StartBroker] @ map SpawnBrokerTask (fst (broker_started b)) @
        [SpawnReconcile (parse_hhmm (env_get env ''RECONCILE_AT_HHMM'' ''23:00'')), SpawnSnapshot]
      @ (if monitored b then [monitor_step env] else [])"
    using assms by (auto simp: lifespan_start_def fx_start_steps_def Let_def split: sum.splits prod.splits)
  moreover have "is_task (monitor_step env)" by (simp add: monitor_step_def)
  ultimately show ?thesis using monitored_iff by simp
qed

lemma lifespan_not_started:
  assumes "lifespan_start expand env dir_made fx_started broker_started = (steps, Inl e)"
  shows "filter is_task steps =
      (if dir_made = Inr () \<and> fx_started = Inr ()
       then SpawnFxPoll # (case build_production_broker expand env of
              Inl e \<Rightarrow> [] | Inr b \<Rightarrow> map SpawnBrokerTask (fst (broker_started b)))
       else []) \<and> \<not> list_ex is_stop steps"
  using assms
  by (auto simp: lifespan_start_def fx_start_steps_def Let_def list_ex_iff split: sum.splits prod.splits)

section \<open>Properties\<close>

text \<open>C35. Start-up, and the background tasks it leaves. One that fails has spawned none of the lifespan's own
  tasks, but it stops nothing it has started: once the FX service has started, its poll of the public
  API stays behind, and so do the tasks of a broker whose start was cut short. One that succeeds has
  spawned these, and then the daily reconciliation at a valid time, the snapshots, and the connection
  monitor exactly if IBKR is enabled, with positive settings whatever the environment says.\<close>
theorem lifespan_start_sound:
  "(case lifespan_start expand env dir_made fx_started broker_started of
      (steps, Inl e) \<Rightarrow> \<not> list_ex is_spawn steps \<and> \<not> list_ex is_stop steps
        \<and> filter is_task steps =
            (if dir_made = Inr () \<and> fx_started = Inr ()
             then SpawnFxPoll # (case build_production_broker expand env of
                    Inl e \<Rightarrow> [] | Inr b \<Rightarrow> map SpawnBrokerTask (fst (broker_started b)))
             else [])
    | (steps, Inr b) \<Rightarrow> (\<exists>h m n i a. filter is_task steps =
          SpawnFxPoll # map SpawnBrokerTask (fst (broker_started b))
            @ [SpawnReconcile (h, m), SpawnSnapshot]
            @ (if ''IBKR'' \<in> set (enabled_brokers env) then [SpawnMonitor n i a] else [])
        \<and> 0 \<le> h \<and> h < 24 \<and> 0 \<le> m \<and> m < 60 \<and> 0 < i \<and> is_finite i \<and> 0 < a \<and> is_finite a))"
proof -
  obtain steps r where r: "lifespan_start expand env dir_made fx_started broker_started = (steps, r)"
    by (cases "lifespan_start expand env dir_made fx_started broker_started")
  show ?thesis
  proof (cases r)
    case (Inl e)
    note left = lifespan_not_started [OF r [unfolded Inl]]
    have "\<not> list_ex is_spawn steps"
    proof
      assume "list_ex is_spawn steps"
      then obtain s where s: "s \<in> set steps" "is_spawn s" by (auto simp: list_ex_iff)
      from s(2) have "is_task s" by (cases s) simp_all
      with s(1) have "s \<in> set (filter is_task steps)" by simp
      with s(2) left show False by (auto split: if_splits sum.splits)
    qed
    with left r Inl show ?thesis by simp
  next
    case (Inr b)
    obtain h m where hm: "parse_hhmm (env_get env ''RECONCILE_AT_HHMM'' ''23:00'') = (h, m)" by fastforce
    have pos: "(0::fl) < 30" "(0::fl) < 120" "is_finite 30" "is_finite 120" by code_simp+
    note settings = positive_setting [OF pos(1,3), of env "''CONNECTION_MONITOR_INTERVAL_S''"]
      positive_setting [OF pos(2,4), of env "''IBKR_AUTH_ATTENTION_AFTER_S''"]
    from lifespan_started [OF r [unfolded Inr]] hm parse_hhmm_range [of "env_get env ''RECONCILE_AT_HHMM'' ''23:00''"]
      settings
    show ?thesis unfolding r Inr prod.case sum.case monitor_step_def
      by (intro exI [of _ h] exI [of _ m] exI conjI) auto
  qed
qed

text \<open>Shutdown: every task that still runs is cancelled, then the broker is disconnected, the FX
  service stopped and the database closed, whatever fails; only if the shutdown itself is cancelled
  while the broker disconnects or the FX service stops is the database left open.\<close>
lemma lifespan_stop_complete:
  "lifespan_stop raised finished started =
     map CancelTask (running finished started)
     @ DisconnectBroker # (if raised DisconnectBroker = Some CancelledError then []
                           else StopFx # (if raised StopFx = Some CancelledError then [] else [CloseStore]))"
  by (simp add: lifespan_stop_def run_stops_tasks)

end
