(* ===== verification/Scripts.thy ===== *)
theory Scripts
  imports Futu Recovery
begin

text \<open>
  Two of the operator's scripts. \<open>scripts/verify_read_only_api.py\<close> tries an order on the gateway and says by
  its exit code whether the gateway refused it; what the gateway does is a parameter.
  \<open>scripts/setup_opend.py\<close> checks, installs and starts Futu's OpenD; the directory is a list of files, and
  archives, sockets, the XML parser and the child process are parameters. An exception no one catches
  ends a script with exit code 1.
\<close>

definition script_exit :: "int result \<Rightarrow> int" where
  "script_exit r = (case r of Inl e \<Rightarrow> 1 | Inr n \<Rightarrow> n)"

section \<open>The read-only probe\<close>

definition READ_ONLY_HINTS :: "string list" where
  "READ_ONLY_HINTS =
     [''read-only'', ''read only'', ''READ_ONLY_API'', ''readonly'', ''order placement is disabled'']"

definition READ_ONLY_ERROR_CODES :: "int list" where
  "READ_ONLY_ERROR_CODES = [201, 504, 10148]"

definition ACCEPTED_STATUSES :: "string list" where
  "ACCEPTED_STATUSES = [''Submitted'', ''PreSubmitted'', ''Filled'', ''PartiallyFilled'']"

fun space_join :: "string list \<Rightarrow> string" where
  "space_join [] = []"
| "space_join [v] = v"
| "space_join (v # w # ws) = v @ CHR '' '' # space_join (w # ws)"

definition looks_like_read_only_rejection :: "string list \<Rightarrow> bool" where
  "looks_like_read_only_rejection messages =
     (let blob = py_lower (space_join messages) in list_ex (\<lambda>h. py_in (py_lower h) blob) READ_ONLY_HINTS)"

definition has_read_only_error_code :: "int list \<Rightarrow> bool" where
  "has_read_only_error_code codes = list_ex (\<lambda>c. c \<in> set READ_ONLY_ERROR_CODES) codes"

text \<open>What the run meets: the module, the connection, how many contracts are found, the call that places
  the order, and what is there three seconds later.\<close>

record OrderProbe =
  op_module :: bool
  op_connect :: "unit result"
  op_contracts :: "nat result"
  op_place :: "unit result"
  op_errors :: "(int \<times> string) list"
  op_status :: "string option"
  op_log :: "string list"

definition probe_messages :: "OrderProbe \<Rightarrow> string list" where
  "probe_messages p = map (\<lambda>(c, m). ''['' @ py_str_int c @ ''] '' @ m) (op_errors p) @ op_log p"

definition probe_accepted :: "OrderProbe \<Rightarrow> bool" where
  "probe_accepted p = (case op_status p of None \<Rightarrow> False | Some st \<Rightarrow> st \<in> set ACCEPTED_STATUSES)"

definition probe_verdict :: "OrderProbe \<Rightarrow> int" where
  "probe_verdict p =
     (let signal = has_read_only_error_code (map fst (op_errors p)) \<or> looks_like_read_only_rejection (probe_messages p)
      in if signal \<and> \<not> probe_accepted p then 0 else if probe_accepted p then 1 else 2)"

text \<open>\<open>main\<close>: \<open>chosen\<close> is the client id \<open>random\<close> gives.\<close>

definition verify_read_only :: "environ \<Rightarrow> int \<Rightarrow> OrderProbe \<Rightarrow> int result" where
  "verify_read_only env chosen p =
     (if \<not> op_module p then Inr 2
      else rbind (py_int_text (env_get env ''IB_PORT'' ''4003'')) (\<lambda>port.
           rbind (let c = env_get env ''IB_CLIENT_ID'' [] in if c = [] then Inr chosen else py_int_text c) (\<lambda>client.
             case op_connect p of
               Inl CancelledError \<Rightarrow> Inl CancelledError
             | Inl e \<Rightarrow> Inr 2
             | Inr u \<Rightarrow>
                 rbind (op_contracts p) (\<lambda>n.
                   if n = 0 then Inr 2
                   else rbind (op_place p) (\<lambda>v. Inr (probe_verdict p))))))"

section \<open>OpenD: the install directory\<close>

text \<open>An entry below the install directory, by the parts of its whole path; \<open>of_locked\<close> is one that cannot be
  changed.\<close>

record OdFile =
  of_path :: "string list"
  of_regular :: bool
  of_executable :: bool
  of_locked :: bool

datatype platform = Darwin | Windows | OtherPlatform

text \<open>The messages by what they say.\<close>

datatype od_message =
    NoInstallDir | NoExecutable | NoConfigFile | NoAppdata | AppleDouble "string list list"
  | NoArchive | DirectoryInUse | NotUnpacked
  | Unreadable | NoLogin | NoPassword | SampleLogin

record InstallCheck =
  ic_ok :: bool
  ic_executable :: "string list option"
  ic_config_file :: "string list option"
  ic_appdata_file :: "string list option"
  ic_messages :: "od_message list"

definition candidate_suffixes :: "platform \<Rightarrow> string list list" where
  "candidate_suffixes sys =
     (case sys of
        Darwin \<Rightarrow> [[''FutuOpenD.app'', ''Contents'', ''MacOS'', ''FutuOpenD''],
                   [''OpenD.app'', ''Contents'', ''MacOS'', ''OpenD''], [''FutuOpenD''], [''OpenD'']]
      | Windows \<Rightarrow> [[''FutuOpenD.exe''], [''OpenD.exe'']]
      | OtherPlatform \<Rightarrow> [[''FutuOpenD''], [''OpenD'']])"

definition has_suffix :: "string list \<Rightarrow> string list \<Rightarrow> bool" where
  "has_suffix p suffix = (drop (length p - length suffix) p = suffix)"

fun path_le :: "string list \<Rightarrow> string list \<Rightarrow> bool" where
  "path_le [] q = True"
| "path_le (x # xs) [] = False"
| "path_le (x # xs) (y # ys) = (if x = y then path_le xs ys else text_le x y)"

definition leaf_is :: "string \<Rightarrow> OdFile \<Rightarrow> bool" where
  "leaf_is name f = (of_path f \<noteq> [] \<and> last (of_path f) = name \<and> of_regular f)"

definition sorted_paths :: "OdFile list \<Rightarrow> string list list" where
  "sorted_paths fs = order_by path_le (map of_path fs)"

fun find_by_suffix :: "OdFile list \<Rightarrow> string list list \<Rightarrow> string list option" where
  "find_by_suffix fs [] = None"
| "find_by_suffix fs (sfx # sfxs) =
     (case sorted_paths (filter (\<lambda>f. leaf_is (last sfx) f \<and> has_suffix (of_path f) sfx) fs) of
        [] \<Rightarrow> find_by_suffix fs sfxs
      | p # ps \<Rightarrow> Some p)"

fun find_named_file :: "OdFile list \<Rightarrow> string list \<Rightarrow> string list option" where
  "find_named_file fs [] = None"
| "find_named_file fs (n # ns) =
     (case sorted_paths (filter (leaf_is n) fs) of
        [] \<Rightarrow> find_named_file fs ns
      | p # ps \<Rightarrow> Some p)"

definition is_appledouble :: "OdFile \<Rightarrow> bool" where
  "is_appledouble f = (of_path f \<noteq> [] \<and> take 2 (last (of_path f)) = ''._'' \<and> of_regular f)"

definition find_appledouble_files :: "OdFile list \<Rightarrow> nat option \<Rightarrow> string list list" where
  "find_appledouble_files fs limit =
     (let found = sorted_paths (filter is_appledouble fs)
      in case limit of None \<Rightarrow> found | Some n \<Rightarrow> take (max 1 n) found)"

definition remove_appledouble_files :: "OdFile list \<Rightarrow> OdFile list" where
  "remove_appledouble_files fs = filter (\<lambda>f. \<not> is_appledouble f \<or> of_locked f) fs"

definition ensure_executable :: "platform \<Rightarrow> string list option \<Rightarrow> OdFile list \<Rightarrow> OdFile list" where
  "ensure_executable sys p fs =
     (case p of
        None \<Rightarrow> fs
      | Some q \<Rightarrow>
          if sys = Windows then fs
          else map (\<lambda>f. if of_path f = q \<and> \<not> of_locked f then f\<lparr>of_executable := True\<rparr> else f) fs)"

definition validate_install :: "platform \<Rightarrow> OdFile list option \<Rightarrow> InstallCheck" where
  "validate_install sys dir =
     (case dir of
        None \<Rightarrow> \<lparr>ic_ok = False, ic_executable = None, ic_config_file = None, ic_appdata_file = None,
                 ic_messages = [NoInstallDir]\<rparr>
      | Some fs \<Rightarrow>
          (let executable = find_by_suffix fs (candidate_suffixes sys);
               config_file = find_named_file fs [''FutuOpenD.xml'', ''OpenD.xml''];
               appdata_file = find_named_file fs [''Appdata.dat''];
               doubles = find_appledouble_files fs (Some 3);
               messages = (if executable = None then [NoExecutable] else [])
                 @ (if config_file = None then [NoConfigFile] else [])
                 @ (if appdata_file = None then [NoAppdata] else [])
                 @ (if sys = Darwin \<and> doubles \<noteq> [] then [AppleDouble doubles] else [])
           in \<lparr>ic_ok = (messages = []), ic_executable = executable, ic_config_file = config_file,
               ic_appdata_file = appdata_file, ic_messages = messages\<rparr>))"

text \<open>The values of an XML file by their element; \<open>Inl\<close> is a file that cannot be parsed or read.\<close>

definition check_config :: "(string \<Rightarrow> string option) result \<Rightarrow> od_message list" where
  "check_config parsed =
     (case parsed of
        Inl e \<Rightarrow> [Unreadable]
      | Inr find_text \<Rightarrow>
          (let text = (\<lambda>n. py_strip (case find_text n of None \<Rightarrow> [] | Some v \<Rightarrow> v));
               account = text ''login_account''; pwd = text ''login_pwd''; md5 = text ''login_pwd_md5''
           in (if account = [] then [NoLogin] else [])
              @ (if pwd = [] \<and> md5 = [] then [NoPassword] else [])
              @ (if account = ''100000'' \<and> pwd = ''123456'' \<and> md5 = [] then [SampleLogin] else [])))"

definition refused :: "od_message \<Rightarrow> InstallCheck" where
  "refused m = \<lparr>ic_ok = False, ic_executable = None, ic_config_file = None, ic_appdata_file = None, ic_messages = [m]\<rparr>"

text \<open>The archive gives the files it unpacks, and whether unpacking raised; what is caught is an archive
  that cannot be read or is of no known kind.\<close>

fun unpack_caught :: "py_exc \<Rightarrow> bool" where
  "unpack_caught (ValueError m) = True"
| "unpack_caught (OtherError t) = (t = ''ReadError'')"
| "unpack_caught e = False"

definition unpack_into ::
    "platform \<Rightarrow> OdFile list \<times> unit result \<Rightarrow> OdFile list option \<times> InstallCheck result" where
  "unpack_into sys unpacked =
     (case unpacked of
        (fs, Inl e) \<Rightarrow> (Some fs, if unpack_caught e then Inr (refused NotUnpacked) else Inl e)
      | (fs, Inr u) \<Rightarrow>
          (let kept = (if sys = Darwin then remove_appledouble_files fs else fs);
               final = ensure_executable sys (ic_executable (validate_install sys (Some kept))) kept
           in (Some final, Inr (validate_install sys (Some final)))))"

definition install_archive ::
    "platform \<Rightarrow> bool \<Rightarrow> bool \<Rightarrow> OdFile list \<times> unit result \<Rightarrow> OdFile list option \<Rightarrow>
       OdFile list option \<times> InstallCheck result" where
  "install_archive sys force archive_exists unpacked dir =
     (if \<not> archive_exists then (dir, Inr (refused NoArchive))
      else (case dir of
        Some (f # fs) \<Rightarrow>
          if force then unpack_into sys unpacked
          else (let kept = (if sys = Darwin then remove_appledouble_files (f # fs) else f # fs);
                    existing = validate_install sys (Some kept)
                in (Some kept, Inr (if ic_ok existing then existing else refused DirectoryInUse)))
      | _ \<Rightarrow> unpack_into sys unpacked))"

section \<open>OpenD: starting it\<close>

definition build_start_command ::
    "(string list \<Rightarrow> string) \<Rightarrow> InstallCheck \<Rightarrow> string \<Rightarrow> int \<Rightarrow> string \<Rightarrow> int option \<Rightarrow> string list \<Rightarrow> string list result" where
  "build_start_command absolute install ip port lang console extra =
     (case (ic_ok install, ic_executable install, ic_config_file install) of
        (True, Some exe, Some cfg) \<Rightarrow>
          Inr ([absolute exe, ''-cfg_file='' @ absolute cfg, ''-api_ip='' @ ip, ''-api_port='' @ py_str_int port,
                ''-lang='' @ lang]
               @ (case console of None \<Rightarrow> [] | Some c \<Rightarrow> [''-console='' @ py_str_int c]) @ extra)
      | _ \<Rightarrow> Inl (ValueError ''OpenD install is incomplete''))"

text \<open>The loop that waits for the port: a turn is the clock, whether the port is open, and the exit code of
  the child if it has ended; the last pair is what is found once the time is over.\<close>

fun wait_for_port_or_exit :: "rat \<Rightarrow> (rat \<times> bool \<times> int option) list \<Rightarrow> bool \<times> int option \<Rightarrow> bool \<times> int option" where
  "wait_for_port_or_exit deadline [] final = final"
| "wait_for_port_or_exit deadline ((now, opened, code) # turns) final =
     (if now < deadline then
        (if opened then (True, code)
         else (case code of
                 Some c \<Rightarrow> (False, Some c)
               | None \<Rightarrow> wait_for_port_or_exit deadline turns final))
      else final)"

text \<open>The install directory after it, the command that is started, if one is, and the exit code; \<open>child\<close> is
  what the foreground child returns, \<open>launch\<close> whether the background one could be started.\<close>

definition cmd_start ::
    "(string list \<Rightarrow> string) \<Rightarrow> platform \<Rightarrow> OdFile list option \<Rightarrow> (string list \<Rightarrow> (string \<Rightarrow> string option) result) \<Rightarrow>
       string \<Rightarrow> int \<Rightarrow> string \<Rightarrow> bool \<Rightarrow> int result \<Rightarrow> unit result \<Rightarrow> rat \<Rightarrow> (rat \<times> bool \<times> int option) list \<Rightarrow>
       bool \<times> int option \<Rightarrow> OdFile list option \<times> string list option \<times> int result" where
  "cmd_start absolute sys dir parse ip port lang foreground child launch wait turns final =
     (let install = validate_install sys dir
      in if \<not> ic_ok install then (dir, None, Inr 2)
         else (case ic_config_file install of
           None \<Rightarrow> (dir, None, Inl TypeError)
         | Some cfg \<Rightarrow>
             if check_config (parse cfg) \<noteq> [] then (dir, None, Inr 2)
             else (let dir' = map_option (ensure_executable sys (ic_executable install)) dir
                   in case build_start_command absolute install ip port lang (Some (if foreground then 1 else 0)) [] of
                Inl e \<Rightarrow> (dir', None, Inl e)
              | Inr command \<Rightarrow>
                  (dir', Some command,
                   if foreground then child
                   else rbind launch (\<lambda>u.
                     if wait \<le> 0 then Inr 0
                     else (case wait_for_port_or_exit wait turns final of
                             (True, code) \<Rightarrow> Inr 0 | (False, code) \<Rightarrow> Inr 1))))))"

section \<open>OpenD: checking it\<close>

text \<open>The control group file is absent, unreadable or a text.\<close>

definition running_in_container :: "bool \<Rightarrow> string result option \<Rightarrow> bool" where
  "running_in_container dockerenv cgroup =
     (if dockerenv then True
      else (case cgroup of
              Some (Inr text) \<Rightarrow> list_ex (\<lambda>marker. py_in marker text) [''docker'', ''kubepods'', ''containerd'']
            | _ \<Rightarrow> False))"

definition default_check_host :: "environ \<Rightarrow> bool \<Rightarrow> string" where
  "default_check_host env in_docker =
     (let opend = env_get env ''OPEND_HOST'' []; futu = env_get env ''FUTU_HOST'' [];
          host = (if opend \<noteq> [] then opend else if futu \<noteq> [] then futu else ''127.0.0.1'')
      in if host = ''host.docker.internal'' \<and> \<not> in_docker then ''127.0.0.1'' else host)"

text \<open>The host and port that are tried, and the exit code; what follows a closed port only chooses what is
  printed.\<close>

definition cmd_check :: "environ \<Rightarrow> bool \<Rightarrow> (string \<Rightarrow> int \<Rightarrow> bool) \<Rightarrow> string \<Rightarrow> int \<Rightarrow> (string \<times> int) \<times> int" where
  "cmd_check env in_docker is_open given port =
     (let host = (if given \<noteq> [] then given else default_check_host env in_docker)
      in ((host, port), if is_open host port then 0 else 1))"

section \<open>OpenD: finding and installing an archive\<close>

text \<open>A file of the download directory: its name, whether it is a file, and when it was changed.\<close>

type_synonym archive_file = "string \<times> bool \<times> rat"

text \<open>A pattern \<open>*\<close> middle \<open>*\<close> ending.\<close>

definition archive_patterns :: "platform \<Rightarrow> (string \<times> string) list" where
  "archive_patterns sys =
     (if sys = Windows then [(''OpenD'', ''.zip''), (''opend'', ''.zip'')]
      else [(''OpenD'', ''.tar.gz''), (''opend'', ''.tar.gz''), (''OpenD'', ''.tgz''), (''opend'', ''.tgz'')])"

definition glob_match :: "string \<times> string \<Rightarrow> string \<Rightarrow> bool" where
  "glob_match pat name =
     (case pat of (mid, ending) \<Rightarrow>
        length ending \<le> length name \<and> drop (length name - length ending) name = ending
        \<and> py_in mid (take (length name - length ending) name))"

text \<open>The candidates in the order they are met, each once; the newest, and of several the first.\<close>

fun newest :: "archive_file list \<Rightarrow> archive_file option" where
  "newest [] = None"
| "newest (f # fs) =
     (case newest fs of None \<Rightarrow> Some f | Some g \<Rightarrow> if snd (snd g) \<le> snd (snd f) then Some f else Some g)"

definition discover_archive :: "platform \<Rightarrow> archive_file list option \<Rightarrow> string option" where
  "discover_archive sys dir =
     (case dir of
        None \<Rightarrow> None
      | Some fs \<Rightarrow>
          map_option fst (newest (rev (remdups (rev (concat (map (\<lambda>pat.
            filter (\<lambda>(n, regular, t). regular \<and> glob_match pat n) fs) (archive_patterns sys))))))))"

text \<open>The archive that is given, then the one a download gives, then one that is found; \<open>unpack\<close> says of an
  archive whether it exists and what it unpacks to.\<close>

definition cmd_install ::
    "platform \<Rightarrow> bool \<Rightarrow> string option \<Rightarrow> string result option \<Rightarrow> archive_file list option \<Rightarrow>
       (string \<Rightarrow> bool \<times> OdFile list \<times> unit result) \<Rightarrow> OdFile list option \<Rightarrow> OdFile list option \<times> int result" where
  "cmd_install sys force given download found unpack dir =
     (case (case download of None \<Rightarrow> Inr given | Some d \<Rightarrow> rbind d (\<lambda>a. Inr (Some a))) of
        Inl e \<Rightarrow> (dir, Inl e)
      | Inr choice \<Rightarrow>
          (case (case choice of None \<Rightarrow> discover_archive sys found | Some a \<Rightarrow> Some a) of
             None \<Rightarrow> (dir, Inr 2)
           | Some a \<Rightarrow>
               (case install_archive sys force (fst (unpack a)) (snd (unpack a)) dir of
                  (dir', Inl e) \<Rightarrow> (dir', Inl e)
                | (dir', Inr check) \<Rightarrow> (dir', Inr (if ic_ok check then 0 else 2)))))"

section \<open>Lemmas\<close>

lemma sorted_paths_mem: "sorted_paths fs = p # ps \<Longrightarrow> \<exists>f\<in>set fs. of_path f = p"
proof -
  assume "sorted_paths fs = p # ps"
  then have "p \<in> set (sorted_paths fs)" by simp
  then show ?thesis by (auto simp: sorted_paths_def set_order_by)
qed

lemma find_by_suffix_found:
  "find_by_suffix fs sfxs = Some p \<Longrightarrow>
     \<exists>sfx\<in>set sfxs. has_suffix p sfx \<and> (\<exists>f\<in>set fs. of_path f = p \<and> of_regular f)"
proof (induction sfxs)
  case (Cons sfx sfxs)
  show ?case
  proof (cases "sorted_paths (filter (\<lambda>f. leaf_is (last sfx) f \<and> has_suffix (of_path f) sfx) fs)")
    case Nil
    with Cons show ?thesis by auto
  next
    case (Cons q qs)
    with Cons.prems have "q = p" by simp
    with sorted_paths_mem [OF Cons] show ?thesis by (auto simp: leaf_is_def)
  qed
qed simp

lemma find_named_file_found:
  "find_named_file fs ns = Some p \<Longrightarrow> \<exists>f\<in>set fs. of_path f = p \<and> of_regular f"
proof (induction ns)
  case (Cons n ns)
  show ?case
  proof (cases "sorted_paths (filter (leaf_is n) fs)")
    case Nil
    with Cons show ?thesis by auto
  next
    case (Cons q qs)
    with Cons.prems have "q = p" by simp
    with sorted_paths_mem [OF Cons] show ?thesis by (auto simp: leaf_is_def)
  qed
qed simp

lemma validate_install_ok:
  assumes "ic_ok (validate_install sys dir)"
  obtains fs exe cfg where "dir = Some fs" "ic_executable (validate_install sys dir) = Some exe"
    "ic_config_file (validate_install sys dir) = Some cfg" "find_by_suffix fs (candidate_suffixes sys) = Some exe"
    "sys = Darwin \<Longrightarrow> find_appledouble_files fs (Some 3) = []"
  using assms by (cases dir) (auto simp: validate_install_def Let_def split: if_splits)

lemma wait_turns_bounded:
  fixes deadline :: rat
  assumes "successively (\<lambda>a b. min (fst a + 1/2) deadline \<le> fst b) (x # turns)"
    and "2 * (deadline - fst x) + 1 \<le> of_nat (length turns)"
  shows "list_ex (\<lambda>t. deadline \<le> fst t) (x # turns)"
  using assms
proof (induction turns arbitrary: x)
  case (Cons y ys)
  show ?case
  proof (cases "deadline \<le> fst x \<or> deadline \<le> fst y")
    case False
    with Cons.prems have y: "fst x + 1/2 \<le> fst y" by (simp add: min_def split: if_splits)
    have "2 * (deadline - fst y) + 1 \<le> of_nat (length ys)"
      using Cons.prems(2) y by (simp add: algebra_simps)
    then have "list_ex (\<lambda>t. deadline \<le> fst t) (y # ys)"
      using Cons.prems(1) by (intro Cons.IH) simp_all
    then show ?thesis by simp
  qed auto
qed auto

text \<open>Once a turn finds the time over, what comes after it does not matter.\<close>

lemma wait_stops:
  "list_ex (\<lambda>t. deadline \<le> fst t) turns \<Longrightarrow>
     wait_for_port_or_exit deadline (turns @ later) final = wait_for_port_or_exit deadline turns final"
  by (induction turns) (auto split: option.splits)

lemma install_ok:
  assumes "install_archive sys force there unpacked dir = (dir', Inr check)" "ic_ok check"
  shows "check = validate_install sys dir'"
  using assms
  by (auto simp: install_archive_def unpack_into_def refused_def Let_def
      split: if_splits option.splits list.splits prod.splits sum.splits)

lemma install_keeps:
  assumes "install_archive sys False there unpacked (Some (f # fs)) = (dir', Inr check)"
  shows "dir' = Some (f # fs) \<or> dir' = Some (remove_appledouble_files (f # fs))"
  using assms by (auto simp: install_archive_def Let_def split: if_splits)

lemma remove_appledouble_kept:
  "set (remove_appledouble_files fs) \<subseteq> set fs"
  "filter (\<lambda>f. \<not> is_appledouble f) (remove_appledouble_files fs) = filter (\<lambda>f. \<not> is_appledouble f) fs"
  by (auto simp: remove_appledouble_files_def intro: filter_cong)

section \<open>Properties\<close>

text \<open>The probe can vouch for a gateway that never refused anything: whatever order error arrives with
  code 504, which IB sends when the connection is gone, or with 201, with which it rejects an order
  for any reason, the run ends with exit code 0 as long as the order is not in an accepted state;
  and an exception after the connection is made ends it with 1, the code for an accepted order.\<close>
theorem read_only_false_verdicts:
  assumes "op_module p" "op_connect p = Inr ()" "env_get env ''IB_PORT'' ''4003'' = ''4003''"
    and "env_get env ''IB_CLIENT_ID'' [] = []"
  shows "(op_contracts p = Inr (Suc n) \<and> op_place p = Inr () \<and> \<not> probe_accepted p
        \<and> (\<exists>m. (504, m) \<in> set (op_errors p) \<or> (201, m) \<in> set (op_errors p))
      \<longrightarrow> script_exit (verify_read_only env chosen p) = 0)
    \<and> (op_contracts p = Inl e \<or> op_contracts p = Inr (Suc n) \<and> op_place p = Inl e
      \<longrightarrow> script_exit (verify_read_only env chosen p) = 1)"
proof -
  have port: "py_int_text ''4003'' = Inr 4003" by code_simp
  have run: "verify_read_only env chosen p =
      rbind (op_contracts p) (\<lambda>n. if n = 0 then Inr 2 else rbind (op_place p) (\<lambda>v. Inr (probe_verdict p)))"
    using assms port by (simp add: verify_read_only_def)
  have "probe_verdict p = 0"
    if "\<not> probe_accepted p" "\<exists>m. (504, m) \<in> set (op_errors p) \<or> (201, m) \<in> set (op_errors p)"
  proof -
    obtain c m where c: "(c, m) \<in> set (op_errors p)" "c = 504 \<or> c = 201"
      using \<open>\<exists>m. (504, m) \<in> set (op_errors p) \<or> (201, m) \<in> set (op_errors p)\<close> by blast
    then have "c \<in> set (map fst (op_errors p))" by force
    moreover have "c \<in> set READ_ONLY_ERROR_CODES" using c(2) by (auto simp: READ_ONLY_ERROR_CODES_def)
    ultimately have "has_read_only_error_code (map fst (op_errors p))"
      unfolding has_read_only_error_code_def list_ex_iff by (rule bexI [rotated])
    with that(1) show ?thesis by (simp add: probe_verdict_def Let_def)
  qed
  then show ?thesis unfolding run by (auto simp: script_exit_def)
qed

definition demo_probe :: OrderProbe where
  "demo_probe = \<lparr>op_module = True, op_connect = Inr (), op_contracts = Inr 1, op_place = Inr (),
     op_errors = [(504, ''Not connected'')], op_status = Some ''PendingSubmit'', op_log = []\<rparr>"

theorem read_only_false_verdicts_witness:
  "script_exit (verify_read_only [] 77 demo_probe) = 0
   \<and> script_exit (verify_read_only [] 77 (demo_probe\<lparr>op_contracts := Inl TimeoutError\<rparr>)) = 1"
proof -
  have e: "env_get [] ''IB_PORT'' ''4003'' = ''4003''" "env_get [] ''IB_CLIENT_ID'' [] = []" by code_simp+
  have "\<not> probe_accepted demo_probe" by code_simp
  then show ?thesis
    using read_only_false_verdicts [of demo_probe "[]" 0 77 TimeoutError]
      read_only_false_verdicts [of "demo_probe\<lparr>op_contracts := Inl TimeoutError\<rparr>" "[]" 0 77 TimeoutError] e
    by (simp add: demo_probe_def)
qed

text \<open>Installing OpenD is safe: unless told to replace it, a directory with anything in it loses nothing but
  AppleDouble files, and an installation is reported as complete only with an executable and a
  configuration that are files of the directory it leaves behind; the executable is one the
  platform starts.\<close>
theorem opend_install_safe:
  assumes "install_archive sys force there unpacked dir = (dir', Inr check)"
  shows "(\<not> force \<and> dir = Some fs \<and> fs \<noteq> [] \<longrightarrow> (\<exists>kept. dir' = Some kept \<and> set kept \<subseteq> set fs
        \<and> filter (\<lambda>f. \<not> is_appledouble f) kept = filter (\<lambda>f. \<not> is_appledouble f) fs))
    \<and> (ic_ok check \<longrightarrow> (\<exists>final exe cfg. dir' = Some final \<and> ic_executable check = Some exe \<and> ic_config_file check = Some cfg
        \<and> (\<exists>sfx\<in>set (candidate_suffixes sys). has_suffix exe sfx)
        \<and> (\<exists>f\<in>set final. of_path f = exe \<and> of_regular f) \<and> (\<exists>f\<in>set final. of_path f = cfg \<and> of_regular f)))"
proof (intro conjI impI)
  assume a: "\<not> force \<and> dir = Some fs \<and> fs \<noteq> []"
  then obtain f fs' where "fs = f # fs'" by (cases fs) auto
  with a assms install_keeps [of sys there unpacked f fs' dir' check]
  have "dir' = Some fs \<or> dir' = Some (remove_appledouble_files fs)" by simp
  then show "\<exists>kept. dir' = Some kept \<and> set kept \<subseteq> set fs
        \<and> filter (\<lambda>f. \<not> is_appledouble f) kept = filter (\<lambda>f. \<not> is_appledouble f) fs"
    using remove_appledouble_kept [of fs] by auto
next
  assume ok: "ic_ok check"
  have check: "check = validate_install sys dir'" by (rule install_ok [OF assms ok])
  obtain final exe cfg where v: "dir' = Some final" "ic_executable check = Some exe" "ic_config_file check = Some cfg"
      "find_by_suffix final (candidate_suffixes sys) = Some exe"
    using validate_install_ok [OF ok [unfolded check]] unfolding check by metis
  have "find_named_file final [''FutuOpenD.xml'', ''OpenD.xml''] = Some cfg"
    using v(3) unfolding check v(1) by (simp add: validate_install_def Let_def)
  from v find_by_suffix_found [OF v(4)] find_named_file_found [OF this]
  show "\<exists>final exe cfg. dir' = Some final \<and> ic_executable check = Some exe \<and> ic_config_file check = Some cfg
        \<and> (\<exists>sfx\<in>set (candidate_suffixes sys). has_suffix exe sfx)
        \<and> (\<exists>f\<in>set final. of_path f = exe \<and> of_regular f) \<and> (\<exists>f\<in>set final. of_path f = cfg \<and> of_regular f)"
    by (intro exI [of _ final] exI [of _ exe] exI [of _ cfg] conjI) auto
qed

definition demo_od_file :: "string list \<Rightarrow> OdFile" where
  "demo_od_file p = \<lparr>of_path = p, of_regular = True, of_executable = False, of_locked = False\<rparr>"

definition demo_od_dir :: "OdFile list" where
  "demo_od_dir = map demo_od_file [[''OpenD''], [''OpenD.xml''], [''Appdata.dat''], [''._OpenD'']]"

theorem opend_install_safe_witness:
  "case install_archive Darwin False True ([], Inr ()) (Some demo_od_dir) of
     (dir', Inr check) \<Rightarrow> ic_ok check \<and> (\<exists>kept. dir' = Some kept
         \<and> filter (\<lambda>f. \<not> is_appledouble f) kept = filter (\<lambda>f. \<not> is_appledouble f) demo_od_dir)
   | _ \<Rightarrow> False"
proof -
  have "case install_archive Darwin False True ([], Inr ()) (Some demo_od_dir) of
     (dir', Inr check) \<Rightarrow> ic_ok check | _ \<Rightarrow> False" by code_simp
  moreover have "demo_od_dir \<noteq> []" by code_simp
  ultimately show ?thesis
    using opend_install_safe [of Darwin False True "([], Inr ())" "Some demo_od_dir" _ _ demo_od_dir]
    by (auto split: prod.splits sum.splits)
qed

text \<open>OpenD is started only from a complete installation whose configuration names an account and a
  password and is not the bundled sample, with that executable and configuration, and after the
  executable has its permission set if that can be done; and the wait for
  its port ends: of clock readings at least half a second apart, or past the deadline, no more than
  two for each second and one more are looked at.\<close>
lemma opend_start_checked:
  assumes "cmd_start absolute sys dir parse ip port lang foreground child launch wait turns final = (dir', Some command, r)"
  shows "(\<exists>exe cfg find_text rest. ic_executable (validate_install sys dir) = Some exe
      \<and> ic_config_file (validate_install sys dir) = Some cfg \<and> parse cfg = Inr find_text
      \<and> command = absolute exe # (''-cfg_file='' @ absolute cfg) # rest
      \<and> check_config (Inr find_text) = []
      \<and> (\<exists>v. find_text ''login_account'' = Some v \<and> py_strip v \<noteq> [])
      \<and> dir' = map_option (ensure_executable sys (Some exe)) dir)
    \<and> (turns \<noteq> [] \<and> successively (\<lambda>a b. min (fst a + 1/2) wait \<le> fst b) turns
        \<and> 2 * (wait - fst (hd turns)) + 2 \<le> of_nat (length turns)
      \<longrightarrow> wait_for_port_or_exit wait (turns @ later) final = wait_for_port_or_exit wait turns final)"
proof (intro conjI impI)
  have ok: "ic_ok (validate_install sys dir)"
    using assms by (auto simp: cmd_start_def Let_def split: if_splits)
  obtain fs exe cfg where v: "ic_executable (validate_install sys dir) = Some exe"
      "ic_config_file (validate_install sys dir) = Some cfg"
    by (rule validate_install_ok [OF ok])
  have conf: "check_config (parse cfg) = []"
    using assms ok v by (auto simp: cmd_start_def Let_def split: if_splits)
  then obtain find_text where p: "parse cfg = Inr find_text"
    by (cases "parse cfg") (auto simp: check_config_def)
  have "\<exists>v. find_text ''login_account'' = Some v \<and> py_strip v \<noteq> []"
    using conf unfolding p check_config_def by (auto simp: Let_def py_strip_Nil split: if_splits option.splits)
  moreover obtain rest where "command = absolute exe # (''-cfg_file='' @ absolute cfg) # rest"
    using assms ok v conf by (auto simp: cmd_start_def build_start_command_def Let_def)
  moreover have "dir' = map_option (ensure_executable sys (Some exe)) dir"
    using assms ok v conf by (auto simp: cmd_start_def Let_def split: sum.splits)
  ultimately show "\<exists>exe cfg find_text rest. ic_executable (validate_install sys dir) = Some exe
      \<and> ic_config_file (validate_install sys dir) = Some cfg \<and> parse cfg = Inr find_text
      \<and> command = absolute exe # (''-cfg_file='' @ absolute cfg) # rest
      \<and> check_config (Inr find_text) = []
      \<and> (\<exists>v. find_text ''login_account'' = Some v \<and> py_strip v \<noteq> [])
      \<and> dir' = map_option (ensure_executable sys (Some exe)) dir"
    using v p conf by (intro exI [of _ exe] exI [of _ cfg] exI [of _ find_text] exI [of _ rest] conjI) simp_all
next
  assume t: "turns \<noteq> [] \<and> successively (\<lambda>a b. min (fst a + 1/2) wait \<le> fst b) turns
        \<and> 2 * (wait - fst (hd turns)) + 2 \<le> of_nat (length turns)"
  then obtain x ts where x: "turns = x # ts" by (cases turns) auto
  have "list_ex (\<lambda>t. wait \<le> fst t) (x # ts)"
    using t unfolding x by (intro wait_turns_bounded) simp_all
  then show "wait_for_port_or_exit wait (turns @ later) final = wait_for_port_or_exit wait turns final"
    unfolding x by (rule wait_stops)
qed

lemma opend_start_checked_witness:
  "case cmd_start (\<lambda>p. last p) OtherPlatform (Some demo_od_dir) (\<lambda>p. Inr (\<lambda>n. Some ''me'')) ''127.0.0.1'' 11111 ''en''
       False (Inr 0) (Inr ()) 1 [(0, False, None), (1/2, True, None)] (False, None) of
     (dir', Some command, r) \<Rightarrow> (\<exists>rest. command = ''OpenD'' # ''-cfg_file=OpenD.xml'' # rest)
   | _ \<Rightarrow> False"
proof -
  let ?start = "cmd_start (\<lambda>p. last p) OtherPlatform (Some demo_od_dir) (\<lambda>p. Inr (\<lambda>n. Some ''me'')) ''127.0.0.1'' 11111 ''en''
       False (Inr 0) (Inr ()) 1 [(0, False, None), (1/2, True, None)] (False, None)"
  have v: "ic_executable (validate_install OtherPlatform (Some demo_od_dir)) = Some [''OpenD'']"
    "ic_config_file (validate_install OtherPlatform (Some demo_od_dir)) = Some [''OpenD.xml'']"
    "ic_ok (validate_install OtherPlatform (Some demo_od_dir))"
    "check_config (Inr (\<lambda>n. Some ''me'')) = []" by code_simp+
  then obtain dir' command r where s: "?start = (dir', Some command, r)"
    by (simp add: cmd_start_def build_start_command_def Let_def)
  from opend_start_checked [OF s, THEN conjunct1]
  have "\<exists>rest. command = last [''OpenD''] # (''-cfg_file='' @ last [''OpenD.xml'']) # rest"
    unfolding v(1,2) option.inject by (elim exE conjE) (simp only:, rule exI, rule refl)
  then show ?thesis unfolding s by simp
qed

end
