(* ===== verification/IbkrSession.thy ===== *)
theory IbkrSession
  imports IbkrLink
begin

text \<open>
  \<open>app/adapters/ibkr.py\<close>, the IB objects: which of them \<open>connect\<close> creates and opens, which handlers of the
  adapter are attached to their events, which one the adapter and the FX service hold, and which
  sessions stay open. A connect is cut where it waits, for the session to open and for the rows to be
  seeded, so that sessions are lost, objects collected and other connects begun in between. The
  gateway may refuse a second session with a client id in use, which is the parameter \<open>exclusive\<close>; an
  IB object that nothing holds may be collected, which closes it.
\<close>

record IbObject =
  io_open :: bool
  io_disconnected :: nat
  io_exec_details :: nat
  io_portfolio :: nat

record WireConfig =
  wc_store :: bool
  wc_live :: bool
  wc_fx :: bool

text \<open>A connect in flight: whether the reconnect task makes it, the object it has created and what it waits
  for.\<close>

record Connecting =
  ct_by_loop :: bool
  ct_object :: nat
  ct_phase :: phase

record Wiring =
  w_objects :: "IbObject list"
  w_held :: "nat option"
  w_fx :: "nat option"
  w_connected :: bool
  w_connects :: "Connecting list"

definition wiring_new :: Wiring where
  "wiring_new = \<lparr>w_objects = [], w_held = None, w_fx = None, w_connected = False, w_connects = []\<rparr>"

definition ib_factory :: IbObject where
  "ib_factory = \<lparr>io_open = False, io_disconnected = 0, io_exec_details = 0, io_portfolio = 0\<rparr>"

text \<open>The three handlers, attached to the object that was opened.\<close>

definition attach_handlers :: "WireConfig \<Rightarrow> IbObject \<Rightarrow> IbObject" where
  "attach_handlers cfg ob =
     ob\<lparr>io_disconnected := Suc (io_disconnected ob),
        io_exec_details := io_exec_details ob + (if wc_store cfg then 1 else 0),
        io_portfolio := io_portfolio ob + (if wc_live cfg then 1 else 0)\<rparr>"

text \<open>What a failed seed detaches.\<close>

definition detach_handlers :: "IbObject \<Rightarrow> IbObject" where
  "detach_handlers ob = ob\<lparr>io_disconnected := io_disconnected ob - 1, io_portfolio := io_portfolio ob - 1\<rparr>"

definition change_object :: "nat \<Rightarrow> (IbObject \<Rightarrow> IbObject) \<Rightarrow> Wiring \<Rightarrow> Wiring" where
  "change_object i f w = w\<lparr>w_objects := (w_objects w)[i := f (w_objects w ! i)]\<rparr>"

text \<open>A connect begins: a new object, which \<open>connectAsync\<close> is to open. The reconnect loop lets go of the old
  object first.\<close>

definition session_begins :: "bool \<Rightarrow> Wiring \<Rightarrow> Wiring" where
  "session_begins by_loop w =
     w\<lparr>w_objects := w_objects w @ [ib_factory], w_held := (if by_loop then None else w_held w),
       w_connects := w_connects w @ [\<lparr>ct_by_loop = by_loop, ct_object = length (w_objects w), ct_phase = Opening\<rparr>]\<rparr>"

text \<open>The session is open, or could not be opened. Without a store of rows there is nothing to seed.\<close>

definition session_opened :: "WireConfig \<Rightarrow> nat \<Rightarrow> unit result \<Rightarrow> Wiring \<Rightarrow> Wiring" where
  "session_opened cfg k opened w =
     (let c = w_connects w ! k; i = ct_object c
      in case opened of
           Inl e \<Rightarrow> w\<lparr>w_connects := drop_nth k (w_connects w)\<rparr>
         | Inr u \<Rightarrow>
             (let w1 = (change_object i (\<lambda>ob. attach_handlers cfg (ob\<lparr>io_open := True\<rparr>)) w)
                         \<lparr>w_held := Some i, w_fx := (if wc_fx cfg then Some i else w_fx w)\<rparr>
              in if wc_live cfg then w1\<lparr>w_connects := (w_connects w)[k := c\<lparr>ct_phase := Streaming\<rparr>]\<rparr>
                 else w1\<lparr>w_connected := True, w_connects := drop_nth k (w_connects w)\<rparr>))"

text \<open>The seed is over. One that raises drops the object the adapter holds and takes two handlers back from
  the object of this connect; one that is cancelled does neither.\<close>

definition session_seeded :: "nat \<Rightarrow> unit result \<Rightarrow> Wiring \<Rightarrow> Wiring" where
  "session_seeded k seeded w =
     (let w1 = w\<lparr>w_connects := drop_nth k (w_connects w)\<rparr>
      in case seeded of
           Inr u \<Rightarrow> w1\<lparr>w_connected := True\<rparr>
         | Inl e \<Rightarrow>
             if e = CancelledError then w1
             else (change_object (ct_object (w_connects w ! k)) detach_handlers w1)\<lparr>w_held := None\<rparr>)"

text \<open>\<open>disconnect\<close> cancels the reconnect task and with it the task's connect; the event that
  \<open>ib.disconnect()\<close> fires finds the flag \<open>_disconnecting\<close> set.\<close>

definition session_disconnect :: "Wiring \<Rightarrow> Wiring" where
  "session_disconnect w =
     (let w1 = w\<lparr>w_connects := filter (\<lambda>c. \<not> ct_by_loop c) (w_connects w), w_connected := False, w_held := None\<rparr>
      in case w_held w of
           None \<Rightarrow> w1
         | Some i \<Rightarrow> change_object i (\<lambda>ob. ob\<lparr>io_portfolio := io_portfolio ob - 1, io_open := False\<rparr>) w1)"

text \<open>The events: the steps of the connect at a position of the list of those in flight; a session that
  IB ends, which only its disconnect handler makes known; a disconnect; and the collection of an object.\<close>

datatype session_event =
    ConnectBegins bool
  | Opened nat "unit result"
  | Seeded nat "unit result"
  | SessionLost nat
  | SessionDisconnect
  | Collected nat

definition gateway_answer :: "bool \<Rightarrow> unit result \<Rightarrow> Wiring \<Rightarrow> unit result" where
  "gateway_answer exclusive opened w =
     (if exclusive \<and> opened = Inr () \<and> list_ex io_open (w_objects w) then Inl TimeoutError else opened)"

definition close_object :: "nat \<Rightarrow> Wiring \<Rightarrow> Wiring" where
  "close_object i = change_object i (\<lambda>ob. ob\<lparr>io_open := False\<rparr>)"

definition connecting_at :: "nat \<Rightarrow> phase \<Rightarrow> Wiring \<Rightarrow> bool" where
  "connecting_at k ph w = (k < length (w_connects w) \<and> ct_phase (w_connects w ! k) = ph)"

fun session_step :: "bool \<Rightarrow> WireConfig \<Rightarrow> Wiring \<Rightarrow> session_event \<Rightarrow> Wiring" where
  "session_step exclusive cfg w (ConnectBegins by_loop) = (if w_connected w then w else session_begins by_loop w)"
| "session_step exclusive cfg w (Opened k opened) =
     (if connecting_at k Opening w then session_opened cfg k (gateway_answer exclusive opened w) w else w)"
| "session_step exclusive cfg w (Seeded k seeded) =
     (if connecting_at k Streaming w then session_seeded k seeded w else w)"
| "session_step exclusive cfg w (SessionLost i) =
     (if i < length (w_objects w) \<and> io_open (w_objects w ! i)
      then (close_object i w)\<lparr>w_connected := w_connected w \<and> io_disconnected (w_objects w ! i) = 0\<rparr>
      else w)"
| "session_step exclusive cfg w SessionDisconnect = session_disconnect w"
| "session_step exclusive cfg w (Collected i) =
     (if i < length (w_objects w) \<and> w_held w \<noteq> Some i \<and> w_fx w \<noteq> Some i \<and> i \<notin> ct_object ` set (w_connects w)
      then close_object i w else w)"

text \<open>Runs in which connects do not overlap: none begins while another is in flight, the adapter is not
  disconnected while \<open>start\<close> is connecting, and the seed is not cancelled but by a disconnect.\<close>

fun session_calm :: "Wiring \<Rightarrow> session_event \<Rightarrow> bool" where
  "session_calm w (ConnectBegins by_loop) = (w_connects w = [])"
| "session_calm w SessionDisconnect = list_all ct_by_loop (w_connects w)"
| "session_calm w (Seeded k seeded) = (seeded \<noteq> Inl CancelledError)"
| "session_calm w e = True"

fun calm_sessions :: "bool \<Rightarrow> WireConfig \<Rightarrow> Wiring \<Rightarrow> session_event list \<Rightarrow> bool" where
  "calm_sessions exclusive cfg w [] = True"
| "calm_sessions exclusive cfg w (e # es) =
     (session_calm w e \<and> calm_sessions exclusive cfg (session_step exclusive cfg w e) es)"

section \<open>Hooks\<close>

definition on_reconnected :: "'h \<Rightarrow> 'h list \<Rightarrow> 'h list" where
  "on_reconnected callback hooks = (if callback \<in> set hooks then hooks else hooks @ [callback])"

text \<open>The hooks that were called, and whether one ended the run.\<close>

fun fire_reconnect_hooks :: "('h \<Rightarrow> unit result) \<Rightarrow> 'h list \<Rightarrow> 'h list \<times> unit result" where
  "fire_reconnect_hooks call [] = ([], Inr ())"
| "fire_reconnect_hooks call (h # hs) =
     (if call h = Inl CancelledError then ([h], Inl CancelledError)
      else (case fire_reconnect_hooks call hs of (called, r) \<Rightarrow> (h # called, r)))"

lemma hooks_registered_once:
  "distinct hooks \<Longrightarrow> distinct (on_reconnected callback hooks) \<and> set (on_reconnected callback hooks) = insert callback (set hooks)"
  by (auto simp: on_reconnected_def)

text \<open>A hook that raises does not keep the others from being called.\<close>

lemma hooks_all_fired:
  "\<forall>h\<in>set hooks. call h \<noteq> Inl CancelledError \<Longrightarrow> fire_reconnect_hooks call hooks = (hooks, Inr ())"
  by (induction hooks) auto

section \<open>Lemmas\<close>

definition handlers_once :: "IbObject \<Rightarrow> bool" where
  "handlers_once ob = (io_disconnected ob \<le> 1 \<and> io_exec_details ob \<le> 1 \<and> io_portfolio ob \<le> 1)"

definition no_handlers :: "IbObject \<Rightarrow> bool" where
  "no_handlers ob = (io_disconnected ob = 0 \<and> io_exec_details ob = 0 \<and> io_portfolio ob = 0)"

lemmas object_defs = handlers_once_def no_handlers_def attach_handlers_def detach_handlers_def ib_factory_def

text \<open>Whatever overlaps: an object still to be opened has no handler yet and belongs to one connect.\<close>

definition once_ok :: "Wiring \<Rightarrow> bool" where
  "once_ok w =
     (list_all handlers_once (w_objects w)
      \<and> distinct (map ct_object (w_connects w))
      \<and> (\<forall>c\<in>set (w_connects w). ct_object c < length (w_objects w)
           \<and> (ct_phase c = Opening \<longrightarrow> no_handlers (w_objects w ! ct_object c))))"

lemma list_all_update: "list_all P xs \<Longrightarrow> (i < length xs \<Longrightarrow> P (xs ! i) \<Longrightarrow> P x) \<Longrightarrow> list_all P (xs[i := x])"
  by (cases "i < length xs") (auto simp: list_all_length nth_list_update)

lemma distinct_drop_nth: "distinct xs \<Longrightarrow> distinct (drop_nth k xs)"
proof (cases "k < length xs")
  case True
  assume "distinct xs"
  then have "distinct (take k xs @ xs ! k # drop (Suc k) xs)" using id_take_nth_drop [OF True] by simp
  then show ?thesis by simp
qed simp

lemma once_ok_change:
  assumes "once_ok w" "\<And>ob. handlers_once ob \<Longrightarrow> handlers_once (f ob)" "\<And>ob. no_handlers ob \<Longrightarrow> no_handlers (f ob)"
  shows "once_ok (change_object i f w)"
  using assms by (cases "i < length (w_objects w)")
    (auto simp: once_ok_def change_object_def nth_list_update intro!: list_all_update)

lemma once_ok_fewer:
  assumes "once_ok w" "set cs \<subseteq> set (w_connects w)" "distinct (map ct_object cs)"
  shows "once_ok (w\<lparr>w_connects := cs\<rparr>)"
  using assms by (auto simp: once_ok_def)

lemma once_ok_other [simp]:
  "once_ok (w\<lparr>w_held := h\<rparr>) = once_ok w" "once_ok (w\<lparr>w_fx := x\<rparr>) = once_ok w" "once_ok (w\<lparr>w_connected := b\<rparr>) = once_ok w"
  by (simp_all add: once_ok_def)

lemma once_ok_drop: "once_ok w \<Longrightarrow> once_ok (w\<lparr>w_connects := drop_nth k (w_connects w)\<rparr>)"
  using distinct_drop_nth [of "map ct_object (w_connects w)" k]
  by (intro once_ok_fewer) (auto simp: once_ok_def drop_map take_map dest: in_set_takeD in_set_dropD)

lemma once_ok_opens:
  assumes "once_ok w" "connecting_at k Opening w"
  shows "once_ok (session_opened cfg k opened w)"
proof (cases opened)
  case (Inl e)
  with once_ok_drop [OF assms(1), of k] show ?thesis by (simp add: session_opened_def)
next
  case (Inr u)
  let ?c = "w_connects w ! k"
  let ?f = "\<lambda>ob. attach_handlers cfg (ob\<lparr>io_open := True\<rparr>)"
  have k: "k < length (w_connects w)" "?c \<in> set (w_connects w)" "ct_phase ?c = Opening"
    using assms(2) by (simp_all add: connecting_at_def)
  then have i: "ct_object ?c < length (w_objects w)" "no_handlers (w_objects w ! ct_object ?c)"
    using assms(1) by (auto simp: once_ok_def)
  have others: "ct_object c \<noteq> ct_object ?c" if "c \<in> set (drop_nth k (w_connects w))" for c
  proof -
    have "distinct (map ct_object (take k (w_connects w) @ ?c # drop (Suc k) (w_connects w)))"
      using assms(1) unfolding id_take_nth_drop [OF k(1), symmetric] by (simp add: once_ok_def)
    moreover have "ct_object c \<in> set (map ct_object (take k (w_connects w))) \<union> set (map ct_object (drop (Suc k) (w_connects w)))"
      using that by auto
    ultimately show ?thesis by fastforce
  qed
  have objects: "list_all handlers_once ((w_objects w)[ct_object ?c := ?f (w_objects w ! ct_object ?c)])"
    using assms(1) i(2) by (intro list_all_update) (auto simp: once_ok_def object_defs)
  have same: "distinct (map ct_object ((w_connects w)[k := ?c\<lparr>ct_phase := Streaming\<rparr>]))"
  proof -
    have "map ct_object ((w_connects w)[k := ?c\<lparr>ct_phase := Streaming\<rparr>]) = (map ct_object (w_connects w))[k := map ct_object (w_connects w) ! k]"
      using k(1) by (simp add: map_update)
    then show ?thesis using assms(1) by (simp add: once_ok_def)
  qed
  have upd: "set ((w_connects w)[k := x]) = insert x (set (drop_nth k (w_connects w)))" for x
    using k(1) by (simp add: upd_conv_take_nth_drop)
  have rest: "ct_object c < length (w_objects w) \<and> (ct_phase c = Opening \<longrightarrow>
      no_handlers ((w_objects w)[ct_object ?c := ?f (w_objects w ! ct_object ?c)] ! ct_object c))"
    if "c \<in> set (drop_nth k (w_connects w))" for c
    using others [OF that] assms(1) in_drop_nth [OF that] by (auto simp: once_ok_def)
  have "distinct (map ct_object (drop_nth k (w_connects w)))"
    using once_ok_drop [OF assms(1), of k] by (simp add: once_ok_def)
  with Inr objects same upd rest i(1) show ?thesis
    by (cases "wc_live cfg")
      (simp_all add: session_opened_def once_ok_def change_object_def Let_def del: drop_nth_def)
qed

lemma once_ok_step:
  assumes "once_ok w"
  shows "once_ok (session_step exclusive cfg w e)"
proof (cases e)
  case (ConnectBegins by_loop)
  with assms show ?thesis
    by (auto simp: once_ok_def session_begins_def object_defs nth_append)
next
  case (Opened k opened)
  with assms show ?thesis by (simp add: once_ok_opens)
next
  case (Seeded k seeded)
  show ?thesis
  proof (cases "connecting_at k Streaming w")
    case True
    have "once_ok (change_object i detach_handlers (w\<lparr>w_connects := drop_nth k (w_connects w)\<rparr>))" for i
      by (rule once_ok_change [OF once_ok_drop [OF assms]]) (auto simp: object_defs)
    with once_ok_drop [OF assms, of k] Seeded True show ?thesis
      by (simp add: session_seeded_def Let_def del: drop_nth_def split: sum.splits)
  qed (use assms Seeded in simp)
next
  case (SessionLost i)
  have "once_ok (close_object i w)"
    unfolding close_object_def by (rule once_ok_change [OF assms]) (auto simp: object_defs)
  with assms SessionLost show ?thesis by simp
next
  case SessionDisconnect
  have "once_ok (w\<lparr>w_connects := filter (\<lambda>c. \<not> ct_by_loop c) (w_connects w)\<rparr>)"
    using assms by (intro once_ok_fewer) (auto simp: once_ok_def distinct_map inj_on_def)
  then have "once_ok (w\<lparr>w_connects := filter (\<lambda>c. \<not> ct_by_loop c) (w_connects w), w_connected := False, w_held := None\<rparr>)"
    by simp
  from this once_ok_change [OF this] show ?thesis
    unfolding SessionDisconnect by (auto simp: session_disconnect_def object_defs Let_def split: option.splits)
next
  case (Collected i)
  have "once_ok (close_object i w)"
    unfolding close_object_def by (rule once_ok_change [OF assms]) (auto simp: object_defs)
  with assms Collected show ?thesis by simp
qed

lemma once_ok_run: "once_ok w \<Longrightarrow> once_ok (foldl (session_step exclusive cfg) w es)"
  by (induction es arbitrary: w) (simp_all add: once_ok_step)

lemma once_ok_new: "once_ok wiring_new"
  by (simp add: once_ok_def wiring_new_def)

text \<open>Without overlaps: the state with no connect in flight, and with the one that is. \<open>lost\<close> are the objects
  whose session was lost so far.\<close>

definition fully_wired :: "WireConfig \<Rightarrow> IbObject \<Rightarrow> bool" where
  "fully_wired cfg ob = (io_disconnected ob = 1 \<and> io_exec_details ob = (if wc_store cfg then 1 else 0)
     \<and> io_portfolio ob = (if wc_live cfg then 1 else 0))"

definition silent :: "IbObject \<Rightarrow> bool" where
  "silent ob = (\<not> io_open ob \<or> io_disconnected ob = 0 \<and> io_portfolio ob = 0)"

definition wired_ok :: "WireConfig \<Rightarrow> nat set \<Rightarrow> Wiring \<Rightarrow> bool" where
  "wired_ok cfg lost w =
     ((\<forall>i < length (w_objects w). w_held w \<noteq> Some i \<longrightarrow> silent (w_objects w ! i))
      \<and> (case w_held w of None \<Rightarrow> \<not> w_connected w
         | Some i \<Rightarrow> i < length (w_objects w)
             \<and> (if w_connected w \<or> (\<exists>c\<in>set (w_connects w). ct_phase c = Streaming)
                then fully_wired cfg (w_objects w ! i) \<and> (io_open (w_objects w ! i) \<or> i \<in> lost)
                else \<not> io_open (w_objects w ! i)))
      \<and> (case w_connects w of [] \<Rightarrow> True
         | [c] \<Rightarrow> \<not> w_connected w \<and> ct_object c < length (w_objects w)
             \<and> (if ct_phase c = Opening then w_objects w ! ct_object c = ib_factory \<and> w_held w \<noteq> Some (ct_object c)
                else w_held w = Some (ct_object c))
         | _ \<Rightarrow> False))"

lemmas wiring_defs = wired_ok_def silent_def fully_wired_def object_defs change_object_def Let_def

lemma phase_cases: "ph \<noteq> Opening \<longleftrightarrow> ph = Streaming"
  by (cases ph) auto

lemma wired_ok_one:
  assumes "wired_ok cfg lost w" "connecting_at k ph w"
  obtains c where "w_connects w = [c]" "k = 0" "ct_phase c = ph"
  using assms by (auto simp: wired_ok_def connecting_at_def split: list.splits)

lemma wired_ok_begins:
  assumes "wired_ok cfg lost w" "w_connects w = []" "\<not> w_connected w"
  shows "wired_ok cfg lost (session_begins by_loop w)"
  using assms by (auto simp: wiring_defs session_begins_def nth_append less_Suc_eq split: option.splits)

lemma wired_ok_opens:
  assumes "wired_ok cfg lost w" "connecting_at k Opening w"
  shows "wired_ok cfg lost (session_opened cfg k opened w)"
proof -
  obtain c where c: "w_connects w = [c]" "k = 0" "ct_phase c = Opening" using assms by (rule wired_ok_one)
  then have w: "\<not> w_connected w" "ct_object c < length (w_objects w)" "w_objects w ! ct_object c = ib_factory"
    "w_held w \<noteq> Some (ct_object c)"
    "\<And>i. i < length (w_objects w) \<Longrightarrow> w_held w = Some i \<Longrightarrow> \<not> io_open (w_objects w ! i)"
    "\<And>i. i < length (w_objects w) \<Longrightarrow> w_held w \<noteq> Some i \<Longrightarrow> silent (w_objects w ! i)"
    "\<And>i. w_held w = Some i \<Longrightarrow> i < length (w_objects w)"
    using assms(1) by (auto simp: wired_ok_def split: if_splits)
  have closed_or_silent: "silent (w_objects w ! i)" if "i < length (w_objects w)" for i
    using w(5,6) that by (cases "w_held w = Some i") (auto simp: silent_def)
  show ?thesis
  proof (cases opened)
    case (Inl e)
    with c w show ?thesis by (auto simp: session_opened_def wired_ok_def split: option.splits)
  next
    case (Inr u)
    have shape: "fully_wired cfg (attach_handlers cfg (ib_factory\<lparr>io_open := True\<rparr>))"
      by (simp add: fully_wired_def object_defs)
    from Inr c w(1-3) closed_or_silent shape show ?thesis
      by (auto simp: session_opened_def wired_ok_def change_object_def nth_list_update Let_def attach_handlers_def)
  qed
qed

lemma wired_ok_seeds:
  assumes "wired_ok cfg lost w" "connecting_at k Streaming w" "seeded \<noteq> Inl CancelledError"
  shows "wired_ok cfg lost (session_seeded k seeded w)"
proof -
  obtain c where c: "w_connects w = [c]" "k = 0" "ct_phase c = Streaming" using assms(1,2) by (rule wired_ok_one)
  then have w: "\<not> w_connected w" "w_held w = Some (ct_object c)" "ct_object c < length (w_objects w)"
    "fully_wired cfg (w_objects w ! ct_object c)" "io_open (w_objects w ! ct_object c) \<or> ct_object c \<in> lost"
    "\<And>i. i < length (w_objects w) \<Longrightarrow> i \<noteq> ct_object c \<Longrightarrow> silent (w_objects w ! i)"
    using assms(1) by (auto simp: wired_ok_def)
  have "silent (detach_handlers (w_objects w ! ct_object c))"
    using w(4) by (simp add: silent_def fully_wired_def detach_handlers_def)
  with c w assms(3) show ?thesis
    by (cases seeded) (auto simp: session_seeded_def wired_ok_def change_object_def nth_list_update Let_def)
qed

lemma wired_ok_lost:
  assumes "wired_ok cfg lost w" "i < length (w_objects w)" "io_open (w_objects w ! i)"
  shows "wired_ok cfg (insert i lost) ((close_object i w)\<lparr>w_connected := w_connected w \<and> io_disconnected (w_objects w ! i) = 0\<rparr>)"
proof (cases "w_held w = Some i")
  case True
  with assms show ?thesis
    by (auto simp: wired_ok_def close_object_def change_object_def nth_list_update silent_def fully_wired_def
        split: list.splits if_splits)
next
  case False
  then have "io_disconnected (w_objects w ! i) = 0" using assms by (auto simp: wired_ok_def silent_def)
  moreover have "w_objects w ! i \<noteq> ib_factory" using assms(3) by (auto simp: ib_factory_def)
  ultimately show ?thesis using assms False
    by (auto simp: wired_ok_def close_object_def change_object_def nth_list_update silent_def
        split: list.splits option.splits if_splits)
qed

lemma wired_ok_collected:
  assumes "wired_ok cfg lost w" "i < length (w_objects w)" "w_held w \<noteq> Some i"
  shows "wired_ok cfg lost (close_object i w)"
  using assms by (auto simp: wired_ok_def close_object_def change_object_def nth_list_update silent_def ib_factory_def
      split: list.splits option.splits if_splits)

lemma wired_ok_disconnect:
  assumes "wired_ok cfg lost w" "list_all ct_by_loop (w_connects w)"
  shows "wired_ok cfg lost (session_disconnect w)"
proof -
  have "filter (\<lambda>c. \<not> ct_by_loop c) (w_connects w) = []" using assms(2) by (auto simp: list_all_iff)
  with assms(1) show ?thesis
    by (auto simp: wired_ok_def session_disconnect_def change_object_def nth_list_update silent_def Let_def
        split: option.splits)
qed

lemma wired_ok_more: "wired_ok cfg lost w \<Longrightarrow> lost \<subseteq> lost' \<Longrightarrow> wired_ok cfg lost' w"
  by (auto simp: wired_ok_def split: option.splits list.splits if_splits)

definition lost_by :: "session_event \<Rightarrow> nat set" where
  "lost_by e = (case e of SessionLost i \<Rightarrow> {i} | _ \<Rightarrow> {})"

lemma in_lost_by: "i \<in> lost_by e \<longleftrightarrow> e = SessionLost i"
  by (cases e) (auto simp: lost_by_def)

lemma wired_ok_step:
  assumes "wired_ok cfg lost w" "session_calm w e"
  shows "wired_ok cfg (lost_by e \<union> lost) (session_step exclusive cfg w e)"
  using assms wired_ok_more [OF assms(1), of "lost_by e \<union> lost"]
  by (cases e) (auto simp: lost_by_def wired_ok_begins wired_ok_opens wired_ok_seeds wired_ok_lost wired_ok_collected
      wired_ok_disconnect)

lemma wired_ok_run:
  "wired_ok cfg lost w \<Longrightarrow> calm_sessions exclusive cfg w es \<Longrightarrow>
   wired_ok cfg (\<Union>(lost_by ` set es) \<union> lost) (foldl (session_step exclusive cfg) w es)"
proof (induction es arbitrary: w lost)
  case (Cons e es)
  have "wired_ok cfg (lost_by e \<union> lost) (session_step exclusive cfg w e)" using Cons.prems wired_ok_step by simp
  from Cons.IH [OF this] Cons.prems show ?case by (simp add: Un_assoc Un_left_commute)
qed simp

lemma wired_ok_new: "wired_ok cfg {} wiring_new"
  by (simp add: wired_ok_def wiring_new_def)

text \<open>A session that is open, not held, and kept alive by the FX service. Every later attempt finds its
  client id in use.\<close>

definition blocked_by :: "nat \<Rightarrow> Wiring \<Rightarrow> bool" where
  "blocked_by n w = (n < length (w_objects w) \<and> io_open (w_objects w ! n) \<and> w_held w = None \<and> w_fx w = Some n
     \<and> \<not> w_connected w \<and> list_all (\<lambda>c. ct_phase c = Opening) (w_connects w))"

lemma blocked_by_step:
  assumes "blocked_by n w" "e \<noteq> SessionLost n"
  shows "blocked_by n (session_step True cfg w e)"
proof (cases e)
  case (ConnectBegins by_loop)
  with assms(1) show ?thesis by (auto simp: blocked_by_def session_begins_def nth_append)
next
  case (Opened k opened)
  have "list_ex io_open (w_objects w)" using assms(1) by (auto simp: blocked_by_def list_ex_length)
  then have "gateway_answer True opened w \<noteq> Inr ()" by (simp add: gateway_answer_def)
  then obtain e' where "gateway_answer True opened w = Inl e'" by (cases "gateway_answer True opened w") auto
  with Opened assms(1) show ?thesis
    by (auto simp: blocked_by_def session_opened_def list_all_iff dest: in_set_takeD in_set_dropD)
next
  case (Seeded k seeded)
  then have "session_step True cfg w e = w"
    using assms(1) by (auto simp: blocked_by_def connecting_at_def list_all_length)
  with assms(1) show ?thesis by simp
next
  case (SessionLost i)
  with assms show ?thesis by (auto simp: blocked_by_def close_object_def change_object_def)
next
  case SessionDisconnect
  with assms(1) show ?thesis by (auto simp: blocked_by_def session_disconnect_def list_all_iff)
next
  case (Collected i)
  with assms(1) show ?thesis by (auto simp: blocked_by_def close_object_def change_object_def)
qed

lemma blocked_by_run:
  "blocked_by n w \<Longrightarrow> SessionLost n \<notin> set es \<Longrightarrow> blocked_by n (foldl (session_step True cfg) w es)"
  by (induction es arbitrary: w) (auto simp: blocked_by_step)

section \<open>Properties\<close>

text \<open>C11. However often IBKR reconnects, and whatever overlaps, its handlers never accumulate: in every run, with
  any connects in flight at once, sessions lost at any moment and objects collected, no object has a
  handler twice. If moreover no connect begins while another is in flight, the adapter is not
  disconnected while its start connects, and no seed is cancelled but by a disconnect, then a connected
  adapter holds an object that has each handler it needs exactly once, and whose session is open unless it
  was lost, as one that drops during the seed is; and no other object that is still open can report a
  disconnect or a portfolio value, so that none of them disturbs the connection.\<close>
theorem session_wired_once:
  assumes "w = foldl (session_step exclusive cfg) wiring_new es"
  shows "list_all (\<lambda>ob. io_disconnected ob \<le> 1 \<and> io_exec_details ob \<le> 1 \<and> io_portfolio ob \<le> 1) (w_objects w)
    \<and> (calm_sessions exclusive cfg wiring_new es \<longrightarrow>
        (w_connected w \<longrightarrow> (\<exists>i < length (w_objects w). w_held w = Some i \<and> w_connects w = []
            \<and> io_disconnected (w_objects w ! i) = 1
            \<and> io_exec_details (w_objects w ! i) = (if wc_store cfg then 1 else 0)
            \<and> io_portfolio (w_objects w ! i) = (if wc_live cfg then 1 else 0)
            \<and> (io_open (w_objects w ! i) \<or> SessionLost i \<in> set es)))
        \<and> (\<forall>i < length (w_objects w). w_held w \<noteq> Some i \<and> io_open (w_objects w ! i)
            \<longrightarrow> io_disconnected (w_objects w ! i) = 0 \<and> io_portfolio (w_objects w ! i) = 0))"
proof -
  have once: "once_ok w" unfolding assms by (rule once_ok_run [OF once_ok_new])
  have lost: "\<Union>(lost_by ` set es) = {i. SessionLost i \<in> set es}"
    by (auto simp: in_lost_by)
  have "wired_ok cfg {i. SessionLost i \<in> set es} w" if "calm_sessions exclusive cfg wiring_new es"
    using wired_ok_run [OF wired_ok_new that] by (simp add: assms lost)
  with once show ?thesis
    by (auto simp: once_ok_def handlers_once_def list_all_iff wired_ok_def fully_wired_def silent_def
        split: option.splits list.splits)
qed

definition demo_wire :: WireConfig where
  "demo_wire = \<lparr>wc_store = True, wc_live = True, wc_fx = True\<rparr>"

abbreviation connects_at_once :: "session_event list" where
  "connects_at_once \<equiv> [ConnectBegins True, Opened 0 (Inr ()), Seeded 0 (Inr ())]"

text \<open>A session that drops while the rows are seeded, in a run without overlaps.\<close>
theorem session_wired_once_witness:
  "let w = foldl (session_step True demo_wire) wiring_new
       (connects_at_once @ [SessionLost 0, ConnectBegins True, Opened 0 (Inr ()), SessionLost 1, Seeded 0 (Inr ())])
   in w_connected w \<and> length (w_objects w) = 2
      \<and> list_all (\<lambda>ob. io_disconnected ob \<le> 1 \<and> io_exec_details ob \<le> 1 \<and> io_portfolio ob \<le> 1) (w_objects w)
      \<and> (\<exists>i < length (w_objects w). w_held w = Some i \<and> io_disconnected (w_objects w ! i) = 1)"
proof -
  let ?es = "connects_at_once @ [SessionLost 0, ConnectBegins True, Opened 0 (Inr ()), SessionLost 1, Seeded 0 (Inr ())]"
  let ?w = "foldl (session_step True demo_wire) wiring_new ?es"
  have w: "w_connected ?w" "length (w_objects ?w) = 2" by code_simp+
  have "calm_sessions True demo_wire wiring_new ?es"
    by (simp add: session_begins_def session_opened_def session_seeded_def connecting_at_def gateway_answer_def
        change_object_def close_object_def wiring_new_def demo_wire_def object_defs Let_def)
  with session_wired_once [OF refl, of True demo_wire ?es] w
  have "list_all (\<lambda>ob. io_disconnected ob \<le> 1 \<and> io_exec_details ob \<le> 1 \<and> io_portfolio ob \<le> 1) (w_objects ?w)"
    "\<exists>i < length (w_objects ?w). w_held ?w = Some i \<and> io_disconnected (w_objects ?w ! i) = 1"
    by blast+
  with w show ?thesis unfolding Let_def by blast
qed

text \<open>C12. A seed that fails locks IBKR out: the adapter drops the object it has just opened without closing
  it, the FX service keeps it alive, and at a gateway that refuses a client id in use no later
  attempt, however many and however they overlap, connects; neither a disconnect nor the garbage
  collector closes the session, only its loss does.\<close>
theorem failed_seed_blocks_reconnect:
  assumes "wc_live cfg" "wc_fx cfg" "\<not> w_connected w" "list_all (\<lambda>ob. \<not> io_open ob) (w_objects w)" "w_connects w = []"
    and "e \<noteq> CancelledError" "n = length (w_objects w)" "SessionLost n \<notin> set es"
    and "w' = foldl (session_step True cfg) w
      ([ConnectBegins by_loop, Opened 0 (Inr ()), Seeded 0 (Inl e)] @ es)"
  shows "\<not> w_connected w' \<and> n < length (w_objects w') \<and> io_open (w_objects w' ! n) \<and> w_held w' = None"
proof -
  have "\<not> list_ex io_open (w_objects w)" using assms(4) by (simp add: list_all_iff list_ex_iff)
  then have "blocked_by n (foldl (session_step True cfg) w [ConnectBegins by_loop, Opened 0 (Inr ()), Seeded 0 (Inl e)])"
    using assms(1-3,5-7)
    by (simp add: blocked_by_def gateway_answer_def session_begins_def session_opened_def session_seeded_def
        connecting_at_def change_object_def object_defs nth_append Let_def)
  from blocked_by_run [OF this assms(8), of cfg] show ?thesis unfolding assms(9) by (simp add: blocked_by_def)
qed

theorem failed_seed_blocks_reconnect_witness:
  "let w = foldl (session_step True demo_wire) wiring_new
       ([ConnectBegins False, Opened 0 (Inr ()), Seeded 0 (Inl TimeoutError)]
        @ [ConnectBegins True, Opened 0 (Inr ()), SessionDisconnect, Collected 0, ConnectBegins True, Opened 0 (Inr ())])
   in \<not> w_connected w \<and> io_open (w_objects w ! 0)"
  using failed_seed_blocks_reconnect [of demo_wire wiring_new TimeoutError 0
      "[ConnectBegins True, Opened 0 (Inr ()), SessionDisconnect, Collected 0, ConnectBegins True, Opened 0 (Inr ())]",
      OF _ _ _ _ _ _ _ _ refl]
  by (simp add: demo_wire_def wiring_new_def Let_def del: session_step.simps foldl_Cons)

text \<open>Without the FX service the object is collected in the end, and the next attempt connects.\<close>
lemma collected_seed_frees_client_id:
  "w_connected (foldl (session_step True (demo_wire\<lparr>wc_fx := False\<rparr>)) wiring_new
     ([ConnectBegins True, Opened 0 (Inr ()), Seeded 0 (Inl TimeoutError), Collected 0] @ connects_at_once))"
  by code_simp

text \<open>Connects that overlap can end CONNECTED without an object: the first is seeded, the second, opened last and
  therefore held, is not.\<close>
lemma overlapping_connects_lose_object:
  "let w = foldl (session_step False demo_wire) wiring_new
       [ConnectBegins False, ConnectBegins False, Opened 0 (Inr ()), Opened 1 (Inr ()), Seeded 0 (Inr ()),
        Seeded 0 (Inl TimeoutError)]
   in w_connected w \<and> w_held w = None \<and> list_all io_open (w_objects w)"
  by code_simp

end
