(* ===== verification/IbkrNightly.thy ===== *)
theory IbkrNightly
  imports IbkrStream
begin

text \<open>
  \<open>app/adapters/ibkr.py\<close>, the nightly refresh of the previous closes: the task that \<open>_start_streaming\<close> starts and
  \<open>_stop_streaming\<close> cancels, and the days on which its loop works. A cancelled task takes no more turn.
\<close>

section \<open>The task\<close>

text \<open>The task the adapter holds, the tasks whose loop still runs, and whether there is an IB object.\<close>

record Nightly =
  n_held :: "nat option"
  n_alive :: "nat list"
  n_created :: nat
  n_ib :: bool

definition nightly_new :: Nightly where
  "nightly_new = \<lparr>n_held = None, n_alive = [], n_created = 0, n_ib = False\<rparr>"

definition cancel_refresh :: "Nightly \<Rightarrow> Nightly" where
  "cancel_refresh n =
     (case n_held n of None \<Rightarrow> n | Some t \<Rightarrow> n\<lparr>n_alive := filter (\<lambda>u. u \<noteq> t) (n_alive n)\<rparr>)"

text \<open>The end of \<open>_start_streaming\<close>, which a seed that fails does not reach.\<close>

definition kick_off_refresh :: "Nightly \<Rightarrow> Nightly" where
  "kick_off_refresh n =
     (let m = cancel_refresh n
      in m\<lparr>n_held := Some (n_created m), n_alive := n_alive m @ [n_created m], n_created := Suc (n_created m)\<rparr>)"

text \<open>The end of \<open>_stop_streaming\<close>.\<close>

definition stop_refresh :: "Nightly \<Rightarrow> Nightly" where
  "stop_refresh n = (if n_ib n then (cancel_refresh n)\<lparr>n_held := None\<rparr> else n)"

text \<open>What happens to it: a connect whose seed succeeds, or fails; the reconnect loop letting go of the old
  object; and a disconnect, which without an object returns before it stops anything.\<close>

datatype nightly_event = ConnectSeeded | ConnectUnseeded | LetGo | NightlyDisconnect

fun nightly_step :: "Nightly \<Rightarrow> nightly_event \<Rightarrow> Nightly" where
  "nightly_step n ConnectSeeded = kick_off_refresh (n\<lparr>n_ib := True\<rparr>)"
| "nightly_step n ConnectUnseeded = n\<lparr>n_ib := False\<rparr>"
| "nightly_step n LetGo = n\<lparr>n_ib := False\<rparr>"
| "nightly_step n NightlyDisconnect = (if n_ib n then (stop_refresh n)\<lparr>n_ib := False\<rparr> else n)"

section \<open>The loop\<close>

text \<open>A turn of the loop: how late it wakes, how long the refresh takes and whether it fails. The result is the
  instant of the refresh and the instant at which the next turn begins.\<close>

record refresh_turn =
  rt_late :: int
  rt_takes :: int
  rt_fails :: bool

definition nightly_turn :: "instant \<Rightarrow> refresh_turn \<Rightarrow> instant \<times> instant" where
  "nightly_turn now t =
     (let run = now + daily_refresh_sleep now + rt_late t
      in (run, run + rt_takes t + (if rt_fails t then seconds 3600 else 0)))"

fun nightly_runs :: "instant \<Rightarrow> refresh_turn list \<Rightarrow> instant list" where
  "nightly_runs now [] = []"
| "nightly_runs now (t # ts) = (case nightly_turn now t of (run, next_now) \<Rightarrow> run # nightly_runs next_now ts)"

section \<open>Lemmas\<close>

definition nightly_ok :: "Nightly \<Rightarrow> bool" where
  "nightly_ok n =
     (n_alive n = (case n_held n of None \<Rightarrow> [] | Some t \<Rightarrow> [t])
      \<and> (case n_held n of None \<Rightarrow> True | Some t \<Rightarrow> t < n_created n))"

lemma nightly_ok_step: "nightly_ok n \<Longrightarrow> nightly_ok (nightly_step n e)"
  by (cases e)
    (auto simp: nightly_ok_def kick_off_refresh_def stop_refresh_def cancel_refresh_def Let_def split: option.splits)

lemma nightly_ok_run: "nightly_ok n \<Longrightarrow> nightly_ok (foldl nightly_step n es)"
  by (induction es arbitrary: n) (simp_all add: nightly_ok_step)

lemma nightly_ok_new: "nightly_ok nightly_new"
  by (simp add: nightly_ok_def nightly_new_def)

text \<open>A turn that is not too slow works on the day after the one it began on, and ends on that day.\<close>

definition in_time :: "refresh_turn \<Rightarrow> bool" where
  "in_time t = (0 \<le> rt_late t \<and> 0 \<le> rt_takes t \<and> rt_late t + rt_takes t < 22 * 3600000000)"

lemma day_of_offset: "0 \<le> r \<Longrightarrow> r < day_us \<Longrightarrow> (d * day_us + r) div day_us = d"
  by (intro div_eqI) (simp_all add: day_us_def)

lemma turn_next_day:
  assumes "in_time t" "nightly_turn now t = (run, next_now)"
  shows "run div day_us = now div day_us + 1" "run mod day_us = seconds 300 + rt_late t"
    "next_now div day_us = now div day_us + 1"
proof -
  let ?d = "now div day_us + 1"
  have run: "run = ?d * day_us + (seconds 300 + rt_late t)"
    using assms(2) daily_refresh_next_day [of now] by (simp add: nightly_turn_def Let_def)
  have small: "0 \<le> seconds 300 + rt_late t" "seconds 300 + rt_late t < day_us"
    "0 \<le> rt_late t + rt_takes t" "rt_late t + rt_takes t < 79200000000"
    using assms(1) by (simp_all add: in_time_def seconds_def day_us_def)
  show d: "run div day_us = ?d" unfolding run using small by (intro day_of_offset)
  show "run mod day_us = seconds 300 + rt_late t"
    using minus_div_mult_eq_mod [of run day_us] unfolding d by (simp add: run)
  have "next_now = ?d * day_us + (seconds 300 + rt_late t + rt_takes t + (if rt_fails t then seconds 3600 else 0))"
    using assms(2) run by (simp add: nightly_turn_def Let_def split: if_splits)
  moreover have "0 \<le> seconds 300 + rt_late t + rt_takes t + (if rt_fails t then seconds 3600 else 0)"
    "seconds 300 + rt_late t + rt_takes t + (if rt_fails t then seconds 3600 else 0) < day_us"
    using small by (simp_all add: seconds_def day_us_def)
  ultimately show "next_now div day_us = ?d" by (simp only: day_of_offset)
qed

section \<open>Properties\<close>

text \<open>However often IBKR reconnects, at most one nightly refresh runs, and it is the one the adapter holds and
  would cancel.\<close>
theorem one_nightly_refresh:
  "length (n_alive (foldl nightly_step nightly_new es)) \<le> 1
   \<and> set (n_alive (foldl nightly_step nightly_new es)) = set_option (n_held (foldl nightly_step nightly_new es))"
  using nightly_ok_run [OF nightly_ok_new, of es] by (auto simp: nightly_ok_def split: option.splits)

text \<open>A disconnect ends it, unless it comes in an outage: then the adapter has no IB object, returns early, and
  the refresh goes on.\<close>
theorem outage_disconnect_keeps_refresh:
  assumes "n = foldl nightly_step nightly_new es"
  shows "n_ib n \<Longrightarrow> n_alive (nightly_step n NightlyDisconnect) = []"
    and "\<not> n_ib n \<Longrightarrow> n_alive (nightly_step n NightlyDisconnect) = n_alive n"
  using nightly_ok_run [OF nightly_ok_new, of es] unfolding assms
  by (auto simp: nightly_ok_def stop_refresh_def cancel_refresh_def split: option.splits)

lemma outage_disconnect_example:
  "n_alive (foldl nightly_step nightly_new [ConnectSeeded, LetGo, NightlyDisconnect]) = [0]"
  by code_simp

text \<open>The previous closes are refreshed once on every UTC day, five minutes past midnight, whether or not a
  refresh fails, as long as none takes longer than 22 hours.\<close>
theorem nightly_refresh_daily:
  assumes "list_all in_time ts"
  shows "map (\<lambda>t. t div day_us) (nightly_runs now ts) = map (\<lambda>i. now div day_us + 1 + int i) [0..<length ts]
    \<and> map (\<lambda>t. t mod day_us) (nightly_runs now ts) = map (\<lambda>t. seconds 300 + rt_late t) ts"
  using assms
proof (induction ts arbitrary: now)
  case (Cons t ts)
  obtain run next_now where turn: "nightly_turn now t = (run, next_now)" by fastforce
  note next_day = turn_next_day [OF _ turn]
  have "map (\<lambda>t. t div day_us) (nightly_runs next_now ts)
      = map (\<lambda>i. now div day_us + 1 + int i) (map Suc [0..<length ts])"
    using Cons next_day(3) by simp
  then show ?case
    using Cons next_day turn by (simp add: map_Suc_upt upt_conv_Cons del: upt_Suc)
qed simp

theorem nightly_refresh_daily_witness:
  "map (\<lambda>t. t div day_us) (nightly_runs (days 738943)
      [\<lparr>rt_late = 5, rt_takes = 1000000, rt_fails = True\<rparr>, \<lparr>rt_late = 0, rt_takes = 0, rt_fails = False\<rparr>])
   = [738944, 738945]"
  using nightly_refresh_daily [of "[\<lparr>rt_late = 5, rt_takes = 1000000, rt_fails = True\<rparr>,
      \<lparr>rt_late = 0, rt_takes = 0, rt_fails = False\<rparr>]" "days 738943"]
  by (simp add: in_time_def days_def day_us_def)

end
