(* ===== verification/Pipeline.thy ===== *)
theory Pipeline
  imports Web IbkrStream
begin

text \<open>
  From the broker to the page: the IBKR adapter, the store of live positions and one client of the
  stream put together. A handler of the adapter runs on the rows of the store the client watches, and
  what it leaves there is what the store becomes; the event it sets resumes the client, whose next
  comparison decides what is sent.
\<close>

definition deliver ::
    "(Stream \<Rightarrow> Stream result) \<Rightarrow> Stream \<times> sse_system \<Rightarrow> (Stream \<times> sse_system) result" where
  "deliver handler sy =
     (case sy of (s, y) \<Rightarrow> rbind (handler (s\<lparr>s_rows := store y\<rparr>)) (\<lambda>s1. Inr (s1, produce y (s_rows s1))))"

definition deliver_tick ::
    "rate_lookup \<Rightarrow> int \<Rightarrow> IbTicker \<Rightarrow> Stream \<times> sse_system \<Rightarrow> (Stream \<times> sse_system) result" where
  "deliver_tick fx cid t = deliver (on_ticker_update fx (Some cid) t)"

definition deliver_disconnect :: "Stream \<times> sse_system \<Rightarrow> (Stream \<times> sse_system) result" where
  "deliver_disconnect = deliver (\<lambda>s. Inr (drop_stream s))"

text \<open>What a client that waits does next: it is resumed, sleeps for the throttle and compares.\<close>

definition client_turn :: "(Position \<Rightarrow> string) \<Rightarrow> sse_system \<Rightarrow> nat \<Rightarrow> sse_system" where
  "client_turn h y i = sse_compare h (sse_wake y i) i"

section \<open>Lemmas\<close>

lemma live_wf_event [simp]: "live_wf (s\<lparr>lp_changed := b\<rparr>) = live_wf s"
  by (simp add: live_wf_def)

definition client_wf :: "sse_client \<Rightarrow> bool" where
  "client_wf c = (dict_wf (last_hashes c) \<and> (case pc c of Yielding hs \<Rightarrow> dict_wf hs | _ \<Rightarrow> True))"

definition system_wf :: "sse_system \<Rightarrow> bool" where
  "system_wf y = (live_wf (store y) \<and> (\<forall>i < length (clients y). client_wf (clients y ! i)))"

lemma hashes_wf [simp]: "dict_wf (row_hashes h ps)"
  by (simp add: row_hashes_def)

lemma system_wf_set:
  "system_wf y \<Longrightarrow> client_wf c \<Longrightarrow> system_wf (set_client y i c)"
  by (cases "i < length (clients y)") (simp_all add: system_wf_def set_client_def nth_list_update)

lemma system_wf_produce: "system_wf y \<Longrightarrow> live_wf s \<Longrightarrow> system_wf (produce y s)"
  by (auto simp: system_wf_def produce_def wake_waiting_def client_wf_def)

lemma system_wf_store: "system_wf y \<Longrightarrow> live_wf s \<Longrightarrow> system_wf (y\<lparr>store := s\<rparr>)"
  by (simp add: system_wf_def)

lemma system_wf_step:
  assumes "sse_step h y z" "system_wf y"
  shows "system_wf z"
proof -
  have c: "client_wf (clients y ! i)" if "i < length (clients y)" for i using assms(2) that by (simp add: system_wf_def)
  have s: "live_wf (store y)" using assms(2) by (simp add: system_wf_def)
  show ?thesis
    using assms(1)
  proof (cases rule: sse_step.cases)
    case (enter i)
    have "client_wf ((clients y ! i)\<lparr>pc := q\<rparr>)" if "q \<in> {Ready, Waiting}" for q
      using c [OF enter(2)] that by (auto simp: client_wf_def)
    then show ?thesis
      using assms(2) s unfolding enter(1) sse_enter_def wait_for_change_def
      by (auto intro!: system_wf_set system_wf_store)
  next
    case (resume i hs)
    then have "dict_wf hs" using c [OF resume(2)] by (simp add: client_wf_def)
    then show ?thesis unfolding resume(1) by (intro system_wf_set assms(2)) (simp add: client_wf_def)
  qed (use assms(2) s c in \<open>auto simp: sse_wake_def sse_compare_def Let_def client_wf_def
      intro!: system_wf_set system_wf_store system_wf_produce\<close>)
qed

lemma system_wf_connected: "system_wf (connected h n)"
proof (induction n)
  case (Suc n)
  then show ?case by (auto simp: system_wf_def sse_connect_def client_wf_def nth_append)
qed (simp add: system_wf_def)

lemma system_wf_reachable: "sse_reachable h n y \<Longrightarrow> system_wf y"
  by (induction rule: sse_reachable.induct) (auto simp: system_wf_connected dest: system_wf_step)

lemma row_hash:
  assumes "live_wf l"
  shows "map_of (row_hashes h (get_all l)) k = map_option h (row_of l k)"
proof -
  have keys: "map (\<lambda>p. (pos_key p, h p)) (get_all l) = map (\<lambda>(k, p). (k, h p)) (lp_positions l)"
    using assms by (auto simp: get_all_def dict_values_def live_wf_def list_all_iff)
  have "distinct (map fst (map (\<lambda>(k, p). (k, h p)) (lp_positions l)))"
    using assms by (simp add: live_wf_def dict_wf_def o_def case_prod_unfold)
  then show ?thesis
    by (simp add: row_hashes_def keys dict_of_distinct row_of_def map_of_map)
qed

text \<open>A change of the store reaches a waiting client: its next turn sends the rows as they then are, as
  soon as one of them has another digest than before.\<close>

lemma change_reaches_client:
  assumes "sse_reachable h 1 y" "pc (clients y ! 0) = Waiting"
    and "live_wf l" "lp_changed l" "map_option h (row_of l k) \<noteq> map_option h (row_of (store y) k)"
  shows "pc (clients (client_turn h (produce y l) 0) ! 0) = Yielding (row_hashes h (get_all l))"
    and "get_all (store (client_turn h (produce y l) 0)) = get_all l"
proof -
  obtain c where c: "clients y = [c]" "pc c = Waiting" "shows_current h y c"
    using one_client_reachable [OF assms(1)] assms(2)
    by (auto simp: one_client_inv_def shows_current_def split: if_splits)
  have wf: "live_wf (store y)" "dict_wf (last_hashes c)"
    using system_wf_reachable [OF assms(1)] c(1) by (auto simp: system_wf_def client_wf_def)
  then have "map_of (last_hashes c) = map_of (row_hashes h (get_all (store y)))"
    using c(3) by (simp add: shows_current_def same_hashes_def dict_eq_iff_map_of)
  then have "\<not> same_hashes (row_hashes h (get_all l)) (last_hashes c)"
    using assms(5) wf(2) row_hash [OF assms(3), of h k] row_hash [OF wf(1), of h k]
    by (auto simp: same_hashes_def dict_eq_iff_map_of)
  moreover have "get_all (l\<lparr>lp_changed := False\<rparr>) = get_all l" by (simp add: get_all_def)
  ultimately show "pc (clients (client_turn h (produce y l) 0) ! 0) = Yielding (row_hashes h (get_all l))"
    "get_all (store (client_turn h (produce y l) 0)) = get_all l"
    using assms(4) c(1,2)
    by (simp_all add: client_turn_def sse_compare_def sse_wake_def produce_def wake_waiting_def set_client_def Let_def)
qed

text \<open>The text of a price can be read off the text that is digested.\<close>

lemma before_bar: "a @ bar @ r = b @ bar @ r' \<Longrightarrow> CHR 0x7C \<notin> set a \<Longrightarrow> CHR 0x7C \<notin> set b \<Longrightarrow> a = b"
proof (induction a arbitrary: b)
  case Nil
  then show ?case by (cases b) (auto simp: bar_def)
next
  case (Cons x a)
  then show ?case by (cases b) (auto simp: bar_def)
qed

lemma price_in_payload:
  assumes "hash_payload fmt p = hash_payload fmt q" "name_en p = name_en q" "currency p = currency q" "quantity p = quantity q"
    and "\<And>x. CHR 0x7C \<notin> set (fmt x)"
  shows "fmt (last_price p) = fmt (last_price q)"
proof -
  have "\<exists>r r'. fmt (last_price p) @ bar @ r = fmt (last_price q) @ bar @ r'"
    using assms(1-4) by (auto simp: hash_payload_def)
  then show ?thesis using before_bar assms(5) by blast
qed

lemma tick_row:
  assumes "on_ticker_update fx (Some cid) t s = Inr s'" "map_of (s_streaming s) cid = Some (p, c)"
    and "0 < coerce_last t" "\<not> feq (coerce_last t) (last_price p)"
  shows "\<exists>p'. s_rows s' = set_position (s_rows s) p' \<and> pos_key p' = pos_key p \<and> name_en p' = name_en p
    \<and> currency p' = currency p \<and> quantity p' = quantity p \<and> asset_class p' = asset_class p
    \<and> last_price p' = coerce_last t \<and> \<not> last_price_is_stale p'"
  using assms(1) assms(3,4) [unfolded fl_pos_not_le]
  unfolding on_ticker_update_def option.case assms(2) prod.case Let_def
  by (auto simp: rbind_Inr_iff pos_key_def)

lemma set_position_event:
  assumes "row_of s (pos_key p') = Some p" "\<not> pos_eq p p'"
  shows "lp_changed (set_position s p')"
  using assms by (simp add: set_position_def row_of_def Let_def)

text \<open>A row of the store is in the payload of a client whose filters let it through.\<close>

lemma keep_if_passes: "p \<in> set ps \<Longrightarrow> v \<in> {None, Some (field p)} \<Longrightarrow> p \<in> set (keep_if (or_all v) field ps)"
  by (auto simp: keep_if_def or_all_def)

lemma row_in_payload:
  assumes "p \<in> set ps" "stream_holdings account asset br ps = Inr (rows, totals, active, market_by_ib)"
    and "account \<in> {None, Some (account_id p)}" "asset \<in> {None, Some (asset_class p)}" "br \<in> {None, Some (broker p)}"
  shows "p \<in> set rows"
proof -
  have "rows = keep_if (or_all br) broker (keep_if (or_all asset) asset_class (keep_if (or_all account) account_id ps))"
    using assms(2) by (auto simp: stream_holdings_def render_stream_payload_def apply_filters_def Let_def rbind_Inr_iff)
  with assms(1,3-5) show ?thesis by (simp only: keep_if_passes)
qed

lemma turn_keeps_rows [simp]: "lp_positions (store (client_turn h y i)) = lp_positions (store y)"
  by (simp add: client_turn_def sse_compare_def sse_wake_def set_client_def Let_def)

lemma produced_store [simp]: "store (produce y l) = l"
  by (simp add: produce_def)

lemma mark_event: "mark_live_positions_stale l = l \<or> lp_changed (mark_live_positions_stale l)"
proof -
  have step: "mark_stale l' p = l \<or> lp_changed (mark_stale l' p)" if "l' = l \<or> lp_changed l'" for l' p
    using that set_position_changes [of l' "p\<lparr>last_price_is_stale := True\<rparr>"]
    by (auto simp: mark_stale_def set_position_changed)
  have "foldl mark_stale l' ps = l \<or> lp_changed (foldl mark_stale l' ps)" if "l' = l \<or> lp_changed l'" for l' ps
    using that by (induction ps arbitrary: l') (simp_all add: step)
  then show ?thesis by (simp add: mark_live_positions_stale_def)
qed

lemma stale_in_payload:
  "\<not> last_price_is_stale p \<Longrightarrow> hash_payload fmt (p\<lparr>last_price_is_stale := True\<rparr>) \<noteq> hash_payload fmt p"
  by (simp add: hash_payload_def flag01_def)

section \<open>Properties\<close>

text \<open>C4. A tick reaches the page. When IBKR reports a new positive price for a contract it streams and one
  client watches, the store's row takes that price and the waiting client's next turn sends the
  rows: the payload, under any filter the row passes, shows the row at the new price and no longer
  as stale. The one exception is a collision of the shortened digests of the old and the new row.\<close>
theorem tick_reaches_page:
  assumes "sse_reachable (hash_position sha fmt) 1 y" "pc (clients y ! 0) = Waiting"
    and "map_of (s_streaming s) cid = Some (p, c)" "row_of (store y) (pos_key p) = Some p"
    and "0 < coerce_last t" "fmt (coerce_last t) \<noteq> fmt (last_price p)" "\<And>x. CHR 0x7C \<notin> set (fmt x)"
    and "deliver_tick fx cid t (s, y) = Inr (s', y')" "z = client_turn (hash_position sha fmt) y' 0"
  shows "\<exists>p'. row_of (store z) (pos_key p) = Some p' \<and> last_price p' = coerce_last t \<and> \<not> last_price_is_stale p'
    \<and> hash_payload fmt p' \<noteq> hash_payload fmt p
    \<and> (sha (hash_payload fmt p') = sha (hash_payload fmt p)
       \<or> (pc (clients z ! 0) = Yielding (row_hashes (hash_position sha fmt) (get_all (store z)))
          \<and> (\<forall>account asset br rows totals active market_by_ib.
               account \<in> {None, Some (account_id p)} \<and> asset \<in> {None, Some (asset_class p)} \<and> br \<in> {None, Some (broker p)}
               \<and> stream_holdings account asset br (get_all (store z)) = Inr (rows, totals, active, market_by_ib)
               \<longrightarrow> p' \<in> set rows)))"
proof -
  let ?h = "hash_position sha fmt"
  obtain s1 where s1: "on_ticker_update fx (Some cid) t (s\<lparr>s_rows := store y\<rparr>) = Inr s1" "y' = produce y (s_rows s1)"
    using assms(8) by (auto simp: deliver_tick_def deliver_def rbind_Inr_iff)
  have new: "\<not> feq (coerce_last t) (last_price p)" using assms(6) feq_imp_eq by metis
  obtain p' where p': "s_rows s1 = set_position (store y) p'" "pos_key p' = pos_key p" "name_en p' = name_en p"
      "currency p' = currency p" "quantity p' = quantity p" "asset_class p' = asset_class p"
      "last_price p' = coerce_last t" "\<not> last_price_is_stale p'"
    using tick_row [OF s1(1) _ assms(5) new] assms(3) by auto
  have payload: "hash_payload fmt p' \<noteq> hash_payload fmt p"
    using price_in_payload [of fmt p' p, OF _ p'(3-5) assms(7)] p'(7) assms(6) by auto
  define l where "l = set_position (store y) p'"
  have "\<not> pos_eq p p'" using pos_eq_imp_eq payload by blast
  then have l: "live_wf l" "lp_changed l" "row_of l (pos_key p) = Some p'"
    using system_wf_reachable [OF assms(1)] assms(4) p'(2)
    by (simp_all add: l_def system_wf_def set_position_event row_of_set_position)
  have z: "z = client_turn ?h (produce y l) 0" using assms(9) s1(2) p'(1) by (simp add: l_def)
  have row: "row_of (store z) (pos_key p) = Some p'" using l(3) by (simp add: z row_of_def)
  have sent: "pc (clients z ! 0) = Yielding (row_hashes ?h (get_all (store z))) \<and> p' \<in> set (get_all (store z))"
    if "sha (hash_payload fmt p') \<noteq> sha (hash_payload fmt p)"
  proof -
    have "map_option ?h (row_of l (pos_key p)) \<noteq> map_option ?h (row_of (store y) (pos_key p))"
      using that l(3) assms(4) by (simp add: hash_position_def)
    from change_reaches_client [OF assms(1,2) l(1,2) this] get_all_rows [OF l(1), of p'] l(3) p'(2)
    show ?thesis by (simp add: z)
  qed
  have same: "account_id p' = account_id p" "broker p' = broker p" using p'(2) by (simp_all add: pos_key_def)
  from row p'(7,8) payload sent row_in_payload [of p' "get_all (store z)"] show ?thesis
    unfolding same p'(6) by (intro exI [of _ p'] conjI) blast+
qed

text \<open>An outage reaches the page as well: when the gateway drops, the waiting client is sent each stock row,
  of any broker, as stale.\<close>
theorem disconnect_reaches_page:
  assumes "sse_reachable (hash_position sha fmt) 1 y" "pc (clients y ! 0) = Waiting"
    and "row_of (store y) k = Some p" "asset_class p \<noteq> ''CASH''" "\<not> last_price_is_stale p"
    and "deliver_disconnect (s, y) = Inr (s', y')" "z = client_turn (hash_position sha fmt) y' 0"
  shows "row_of (store z) k = Some (p\<lparr>last_price_is_stale := True\<rparr>)
    \<and> (sha (hash_payload fmt (p\<lparr>last_price_is_stale := True\<rparr>)) = sha (hash_payload fmt p)
       \<or> pc (clients z ! 0) = Yielding (row_hashes (hash_position sha fmt) (get_all (store z))))"
proof -
  let ?h = "hash_position sha fmt" and ?p = "p\<lparr>last_price_is_stale := True\<rparr>"
  define l where "l = mark_live_positions_stale (store y)"
  have wf: "live_wf (store y)" using system_wf_reachable [OF assms(1)] by (simp add: system_wf_def)
  have row: "row_of l k = Some ?p" using assms(3,4) by (simp add: l_def row_of_mark [OF wf] marked_def)
  have "?p \<noteq> p" using stale_in_payload [OF assms(5)] by metis
  then have "l \<noteq> store y" using row assms(3) by auto
  then have l: "live_wf l" "lp_changed l"
    using mark_event [of "store y"] live_wf_mark_all [OF wf] by (auto simp: l_def)
  have y': "y' = produce y l" using assms(6) by (simp add: deliver_disconnect_def deliver_def drop_stream_def l_def)
  have "pc (clients z ! 0) = Yielding (row_hashes ?h (get_all (store z)))"
    if "sha (hash_payload fmt ?p) \<noteq> sha (hash_payload fmt p)"
  proof -
    have "map_option ?h (row_of l k) \<noteq> map_option ?h (row_of (store y) k)"
      using that row assms(3) by (simp add: hash_position_def)
    from change_reaches_client [OF assms(1,2) l this] show ?thesis by (simp add: assms(7) y')
  qed
  moreover have "row_of (store z) k = Some ?p" using row by (simp add: assms(7) y' row_of_def)
  ultimately show ?thesis by blast
qed

text \<open>A client that the event has not woken does nothing.\<close>

definition client_reaction :: "(Position \<Rightarrow> string) \<Rightarrow> sse_system \<Rightarrow> nat \<Rightarrow> sse_system" where
  "client_reaction h y i = (if pc (clients y ! i) = Woken then client_turn h y i else y)"

lemma reaction_exact:
  assumes "sse_reachable h 1 y" "pc (clients y ! 0) = Waiting" "live_wf l" "l = store y \<or> lp_changed l"
    and "z = client_reaction h (produce y l) 0"
  shows "row_of (store z) = row_of l"
    and "if \<exists>k. map_option h (row_of l k) \<noteq> map_option h (row_of (store y) k)
         then pc (clients z ! 0) = Yielding (row_hashes h (get_all (store z))) else pc (clients z ! 0) \<in> {Waiting, Idle}"
proof -
  obtain c where c: "clients y = [c]" "pc c = Waiting" "shows_current h y c" "\<not> lp_changed (store y)"
    using one_client_reachable [OF assms(1)] assms(2)
    by (auto simp: one_client_inv_def shows_current_def split: if_splits)
  show "row_of (store z) = row_of l"
    unfolding assms(5) client_reaction_def by (auto simp: row_of_def produce_def)
  show "if \<exists>k. map_option h (row_of l k) \<noteq> map_option h (row_of (store y) k)
         then pc (clients z ! 0) = Yielding (row_hashes h (get_all (store z))) else pc (clients z ! 0) \<in> {Waiting, Idle}"
  proof (cases "lp_changed l")
    case False
    with assms(4) have "l = store y" by simp
    with False c show ?thesis unfolding assms(5) by (simp add: client_reaction_def produce_def wake_waiting_def)
  next
    case True
    then have z: "z = client_turn h (produce y l) 0"
      using c unfolding assms(5) by (simp add: client_reaction_def produce_def wake_waiting_def)
    show ?thesis
    proof (cases "\<exists>k. map_option h (row_of l k) \<noteq> map_option h (row_of (store y) k)")
      case True
      then obtain k where k: "map_option h (row_of l k) \<noteq> map_option h (row_of (store y) k)" ..
      note sent = change_reaches_client [OF assms(1,2,3) \<open>lp_changed l\<close> k]
      from True sent show ?thesis unfolding z by simp
    next
      case False
      have wf: "live_wf (store y)" "dict_wf (last_hashes c)"
        using system_wf_reachable [OF assms(1)] c(1) by (auto simp: system_wf_def client_wf_def)
      then have "map_of (last_hashes c) = map_of (row_hashes h (get_all (store y)))"
        using c(3) by (simp add: shows_current_def same_hashes_def dict_eq_iff_map_of)
      moreover have "map_of (row_hashes h (get_all (store y))) = map_of (row_hashes h (get_all l))"
        using False by (intro ext) (simp only: row_hash [OF assms(3)] row_hash [OF wf(1)], metis)
      ultimately have "same_hashes (row_hashes h (get_all l)) (last_hashes c)"
        using wf(2) by (simp add: same_hashes_def dict_eq_iff_map_of)
      moreover have "get_all (l\<lparr>lp_changed := False\<rparr>) = get_all l" by (simp add: get_all_def)
      ultimately show ?thesis
        using False True c(1,2) unfolding z
        by (simp add: client_turn_def sse_compare_def sse_wake_def produce_def wake_waiting_def set_client_def Let_def)
    qed
  qed
qed

lemma poll_live:
  assumes "pa_ok delays s" "pa_polling s" "pa_live s = Some l"
    and "(b, s') \<in> {(''Tiger'', tiger_poll_loop delays fetched s),
      (''Longbridge'', longbridge_poll_loop delays fetched s), (''Futu'', futu_poll_loop delays fetched s)}"
  shows "pa_live s' = Some (case fetched of None \<Rightarrow> l | Some ps \<Rightarrow> replace_broker l b ps)"
proof -
  have "pa_state s = CONNECTED" using assms(1,2) by (simp add: pa_ok_def)
  with assms(3,4) show ?thesis
    by (cases fetched)
      (auto simp: tiger_poll_loop_def longbridge_poll_loop_def futu_poll_loop_def poll_turn_def refresh_live_def
        publish_def enter_reconnecting_def tiger_enter_reconnecting_def)
qed

text \<open>C6. With one client watching, a poll reaches the page, and nothing else does: after a poll of Futu,
  Longbridge or Tiger the client, if it waits and is the only one, is sent the rows as they now are exactly
  if the digest of some row is another than before or a row has come or gone; the broker's rows are then
  those it fetched and every other row is untouched. A poll that fails sends nothing.\<close>
theorem poll_reaches_page:
  assumes "sse_reachable h 1 y" "pc (clients y ! 0) = Waiting"
    and "pa_ok delays s" "pa_polling s" "pa_live s = Some (store y)"
    and "(b, s') \<in> {(''Tiger'', tiger_poll_loop delays fetched s),
      (''Longbridge'', longbridge_poll_loop delays fetched s), (''Futu'', futu_poll_loop delays fetched s)}"
    and "pa_live s' = Some l" "z = client_reaction h (produce y l) 0"
  shows "row_of (store z) = (case fetched of
        None \<Rightarrow> row_of (store y)
      | Some ps \<Rightarrow> (\<lambda>k. case map_of (rev (keyed ps)) k of Some p \<Rightarrow> Some p
                        | None \<Rightarrow> if fst k = b then None else row_of (store y) k))
    \<and> (if \<exists>k. map_option h (row_of (store z) k) \<noteq> map_option h (row_of (store y) k)
       then pc (clients z ! 0) = Yielding (row_hashes h (get_all (store z)))
       else pc (clients z ! 0) \<in> {Waiting, Idle})"
proof -
  have wf: "live_wf (store y)" using system_wf_reachable [OF assms(1)] by (simp add: system_wf_def)
  have l: "l = (case fetched of None \<Rightarrow> store y | Some ps \<Rightarrow> replace_broker (store y) b ps)"
    using poll_live [OF assms(3-6)] assms(7) by simp
  then have "live_wf l" "l = store y \<or> lp_changed l"
    using wf replace_broker_changes by (auto split: option.splits)
  note exact = reaction_exact [OF assms(1,2) this assms(8)]
  have "row_of l = (case fetched of
        None \<Rightarrow> row_of (store y)
      | Some ps \<Rightarrow> (\<lambda>k. case map_of (rev (keyed ps)) k of Some p \<Rightarrow> Some p
                        | None \<Rightarrow> if fst k = b then None else row_of (store y) k))"
    using row_of_replace_broker [OF wf] by (auto simp: l split: option.splits)
  with exact show ?thesis by simp
qed

definition demo_fmt :: "fl \<Rightarrow> string" where
  "demo_fmt x = (if x = 510 then ''510'' else ''1'')"

abbreviation demo_hash :: "Position \<Rightarrow> string" where
  "demo_hash \<equiv> hash_position (\<lambda>x. x) demo_fmt"

text \<open>A client that has been sent the demo row and waits.\<close>

definition demo_filled :: sse_system where
  "demo_filled = produce (connected demo_hash 1) (set_position lp_new (demo_ibkr ''U1''))"

definition demo_sent :: sse_system where
  "demo_sent = sse_compare demo_hash (sse_enter demo_filled 0) 0"

definition demo_waiting :: sse_system where
  "demo_waiting = sse_enter (set_client demo_sent 0 ((clients demo_sent ! 0)\<lparr>pc := Idle,
     last_hashes := row_hashes demo_hash [demo_ibkr ''U1'']\<rparr>)) 0"

lemma demo_waiting:
  "sse_reachable demo_hash 1 demo_waiting" "pc (clients demo_waiting ! 0) = Waiting"
  "row_of (store demo_waiting) (pos_key (demo_ibkr ''U1'')) = Some (demo_ibkr ''U1'')"
  "row_of (store demo_waiting) (''Tiger'', k) = None"
proof -
  let ?p = "demo_ibkr ''U1''"
  let ?l = "\<lambda>b. \<lparr>lp_positions = [(pos_key ?p, ?p)], lp_changed = b\<rparr>"
  let ?hs = "[(pos_key ?p, demo_hash ?p)]"
  have all: "get_all (?l b) = [?p]" "row_hashes demo_hash [?p] = ?hs" for b
    by (simp_all add: get_all_def dict_values_def row_hashes_def dict_of_distinct)
  have filled: "demo_filled = \<lparr>store = ?l True, clients = [\<lparr>pc = Idle, last_hashes = []\<rparr>]\<rparr>"
    by (simp add: demo_filled_def sse_connect_def lp_new_def produce_def set_position_def wake_waiting_def
        row_hashes_def get_all_def dict_values_def dict_of_def Let_def)
  have entered: "sse_enter demo_filled 0 = \<lparr>store = ?l False, clients = [\<lparr>pc = Ready, last_hashes = []\<rparr>]\<rparr>"
    by (simp add: filled sse_enter_def wait_for_change_def set_client_def)
  have sent: "demo_sent = \<lparr>store = ?l False, clients = [\<lparr>pc = Yielding ?hs, last_hashes = []\<rparr>]\<rparr>"
    by (simp add: demo_sent_def entered sse_compare_def all same_hashes_def dict_eq_by_def set_client_def Let_def)
  let ?kept = "set_client demo_sent 0 ((clients demo_sent ! 0)\<lparr>pc := Idle, last_hashes := ?hs\<rparr>)"
  have waiting: "demo_waiting = sse_enter ?kept 0" by (simp add: demo_waiting_def all(2))
  have s: "store (connected demo_hash 1) = lp_new" by (simp add: sse_connect_def)
  have "sse_reachable demo_hash 1 demo_filled"
    unfolding demo_filled_def s [symmetric] by (rule sse_reachable.step [OF sse_reachable.start sse_step.producer_set])
  from sse_reachable.step [OF this sse_step.enter [of 0]]
  have "sse_reachable demo_hash 1 (sse_enter demo_filled 0)" by (simp add: filled)
  from sse_reachable.step [OF this sse_step.compare [of 0]]
  have "sse_reachable demo_hash 1 demo_sent" by (simp add: demo_sent_def entered)
  from sse_reachable.step [OF this sse_step.resume [of 0 _ ?hs]]
  have "sse_reachable demo_hash 1 ?kept" by (simp add: sent)
  from sse_reachable.step [OF this sse_step.enter [of 0]]
  show "sse_reachable demo_hash 1 demo_waiting" by (simp add: waiting sent set_client_def)
  show "pc (clients demo_waiting ! 0) = Waiting" "row_of (store demo_waiting) (pos_key ?p) = Some ?p"
    "row_of (store demo_waiting) (''Tiger'', k) = None"
    by (simp_all add: waiting sent set_client_def sse_enter_def wait_for_change_def row_of_def pos_key_def
        demo_ibkr_def demo_row_def)
qed

theorem tick_reaches_page_witness:
  "case deliver_tick None 7 (demo_tick 510) (demo_seed [demo_ibkr ''U1''], demo_waiting) of
     Inl e \<Rightarrow> False
   | Inr (s', y') \<Rightarrow> (\<exists>p'. row_of (store (client_turn demo_hash y' 0)) (pos_key (demo_ibkr ''U1'')) = Some p' \<and> last_price p' = 510
       \<and> pc (clients (client_turn demo_hash y' 0) ! 0) \<noteq> Idle)"
proof -
  have last: "coerce_last (demo_tick 510) = 510"
    by (simp add: coerce_last_def demo_tick_def to_positive_float_def fl_simps)
  have d: "currency (demo_ibkr ''U1'') = ''USD''" "last_price (demo_ibkr ''U1'') = 1"
    "price_magnifier (demo_ibkr ''U1'') = 1" "ticker_is_delayed (demo_tick 510) = Inr False"
    by (simp_all add: demo_ibkr_def demo_row_def demo_tick_def ticker_is_delayed_def)
  have n: "\<not> (510::fl) \<le> 0" "(0::fl) < 510" "\<not> feq 510 1" "py_div x (fl_of_int 1) = Inr (x / fl_of_int 1)" for x
    by (simp_all add: fl_simps)
  obtain s' y' where s': "deliver_tick None 7 (demo_tick 510) (demo_seed [demo_ibkr ''U1''], demo_waiting) = Inr (s', y')"
    by (simp add: deliver_tick_def deliver_def on_ticker_update_def demo_seed_one last d n convert_to_usd_def Let_def)
  have f: "demo_fmt 510 \<noteq> demo_fmt 1" "CHR 0x7C \<notin> set (demo_fmt x)" for x
    by (simp_all add: demo_fmt_def fl_simps)
  obtain p' where "row_of (store (client_turn demo_hash y' 0)) (pos_key (demo_ibkr ''U1'')) = Some p'" "last_price p' = 510"
      "pc (clients (client_turn demo_hash y' 0) ! 0) = Yielding (row_hashes demo_hash (get_all (store (client_turn demo_hash y' 0))))"
    using tick_reaches_page [OF demo_waiting(1,2) demo_seed_one(1) demo_waiting(3) _ _ f(2) s' refl] last d(2) n(2) f(1)
    by auto
  with s' show ?thesis by simp
qed

text \<open>A Tiger row the store did not have is sent.\<close>

definition demo_tiger :: Position where
  "demo_tiger = (demo_ibkr ''U1'')\<lparr>broker := ''Tiger''\<rparr>"

theorem poll_reaches_page_witness:
  "let s = (adapter_new (Some (store demo_waiting)) True)\<lparr>pa_state := CONNECTED, pa_polling := True\<rparr>
   in case pa_live (tiger_poll_loop [5] (Some [demo_tiger]) s) of
        None \<Rightarrow> False
      | Some l \<Rightarrow> (let z = client_reaction demo_hash (produce demo_waiting l) 0
          in row_of (store z) (pos_key demo_tiger) = Some demo_tiger
             \<and> row_of (store z) (pos_key (demo_ibkr ''U1'')) = Some (demo_ibkr ''U1'')
             \<and> pc (clients z ! 0) = Yielding (row_hashes demo_hash (get_all (store z))))"
proof -
  let ?s = "(adapter_new (Some (store demo_waiting)) True)\<lparr>pa_state := CONNECTED, pa_polling := True\<rparr>"
  let ?s' = "tiger_poll_loop [5] (Some [demo_tiger]) ?s"
  have s: "pa_ok [5] ?s" "pa_polling ?s" "pa_live ?s = Some (store demo_waiting)"
    by (simp_all add: adapter_new_def pa_ok_def)
  have p: "(''Tiger'', ?s') \<in> {(''Tiger'', ?s'), (''Longbridge'', longbridge_poll_loop [5] (Some [demo_tiger]) ?s),
      (''Futu'', futu_poll_loop [5] (Some [demo_tiger]) ?s)}" by simp
  from poll_live [OF s p] have l: "pa_live ?s' = Some (replace_broker (store demo_waiting) ''Tiger'' [demo_tiger])" by simp
  obtain k where k: "pos_key demo_tiger = (''Tiger'', k)" by (simp add: pos_key_def demo_tiger_def)
  have other: "fst (pos_key (demo_ibkr ''U1'')) \<noteq> ''Tiger''" by (simp add: pos_key_def demo_ibkr_def demo_row_def)
  let ?z = "client_reaction demo_hash (produce demo_waiting (replace_broker (store demo_waiting) ''Tiger'' [demo_tiger])) 0"
  note poll = poll_reaches_page [OF demo_waiting(1,2) s p l refl, unfolded option.case]
  note claim = conjunct1 [OF poll] conjunct2 [OF poll]
  have rows: "row_of (store ?z) (pos_key demo_tiger) = Some demo_tiger"
    "row_of (store ?z) (pos_key (demo_ibkr ''U1'')) = Some (demo_ibkr ''U1'')"
    unfolding claim(1) using other demo_waiting(3) k by (auto simp: keyed_def)
  have "\<exists>k. map_option demo_hash (row_of (store ?z) k) \<noteq> map_option demo_hash (row_of (store demo_waiting) k)"
    using rows(1) demo_waiting(4) [of k] by (intro exI [of _ "pos_key demo_tiger"]) (simp add: k)
  with claim(2) rows l show ?thesis by (simp add: Let_def)
qed

end
