(* ===== verification/PollFlow.thy ===== *)
theory PollFlow
  imports Polling
begin

text \<open>
  The polling adapters await by await. \<open>Polling\<close> takes an attempt to connect as one step; here
  \<open>start\<close>, \<open>connect\<close> and the reconnect loop of \<open>app/adapters/futu.py\<close>, \<open>longbridge.py\<close> and
  \<open>tiger.py\<close> are cut where they wait for the network, so that what happens to the adapter in between
  is part of a run: the reconnect task begins, a poll answers, the adapter is disconnected, a second
  start begins. Cancelling a task and waiting for its end is one step: a cancelled task does nothing
  more to the state of the adapter.
\<close>

section \<open>The points where a connect waits\<close>

text \<open>The clients are built and asked for the first time; Futu, CONNECTED already, refreshes the rows;
  the clients are closed after a failure, by \<open>connect\<close> or then by \<open>start\<close>.\<close>

datatype await = Setup | Refreshing | Closing failure | Handling failure

datatype reply = SetupRaises failure | QueryFails failure | QueryAnswers "Position list"

datatype progress = Connects | RaisesWith failure | Awaits await

type_synonym advance = "await \<Rightarrow> reply \<Rightarrow> PollAdapter \<Rightarrow> PollAdapter \<times> progress"

fun fetch_advance :: "string \<Rightarrow> advance" where
  "fetch_advance b Setup (SetupRaises e) s = (s, RaisesWith e)"
| "fetch_advance b Setup (QueryFails e) s = (s, Awaits (Closing e))"
| "fetch_advance b Setup (QueryAnswers ps) s =
     (start_poll_task (publish b ps (s\<lparr>pa_state := CONNECTED, pa_backoff := None\<rparr>)), Connects)"
| "fetch_advance b (Closing e) r s = (s\<lparr>pa_state := DISCONNECTED\<rparr>, RaisesWith e)"
| "fetch_advance b ph r s = (s, Awaits ph)"

text \<open>A reply to Futu's first query is the list of accounts, without rows; the refresh may raise before
  it asks.\<close>

fun futu_advance :: "rat list \<Rightarrow> advance" where
  "futu_advance delays Setup (SetupRaises e) s = (s, RaisesWith e)"
| "futu_advance delays Setup (QueryFails e) s = (s\<lparr>pa_state := DISCONNECTED\<rparr>, Awaits (Closing e))"
| "futu_advance delays Setup (QueryAnswers ps) s =
     (let s1 = s\<lparr>pa_state := CONNECTED, pa_backoff := None\<rparr>
      in if pa_live s1 = None then (start_poll_task s1, Connects) else (s1, Awaits Refreshing))"
| "futu_advance delays Refreshing (QueryAnswers ps) s = (start_poll_task (publish ''Futu'' ps s), Connects)"
| "futu_advance delays Refreshing (SetupRaises e) s =
     ((enter_reconnecting delays s)\<lparr>pa_state := DISCONNECTED\<rparr>, Awaits (Closing e))"
| "futu_advance delays Refreshing (QueryFails e) s =
     ((enter_reconnecting delays s)\<lparr>pa_state := DISCONNECTED\<rparr>, Awaits (Closing e))"
| "futu_advance delays (Closing e) r s = (s, RaisesWith e)"
| "futu_advance delays (Handling e) r s = (s, Awaits (Handling e))"

section \<open>Everything at work on one adapter\<close>

text \<open>\<open>fl_adapter\<close> holds the adapter's own attributes: its \<open>pa_polling\<close> says whether the task of
  \<open>_poll_task\<close> is alive, and \<open>Asleep i\<close> that the reconnect task is in its turn \<open>i\<close>, asleep unless
  \<open>fl_attempt\<close> gives the point its connect waits at. \<open>fl_starts\<close> are the calls of \<open>start\<close> that have
  not returned, and \<open>fl_orphans\<close> counts the poll tasks alive that \<open>_poll_task\<close> no longer names.\<close>

record PollFlow =
  fl_adapter :: PollAdapter
  fl_attempt :: "await option"
  fl_starts :: "await list"
  fl_orphans :: nat

definition flow_new :: "LivePositions option \<Rightarrow> bool \<Rightarrow> PollFlow" where
  "flow_new live interval =
     \<lparr>fl_adapter = adapter_new live interval, fl_attempt = None, fl_starts = [], fl_orphans = 0\<rparr>"

datatype flow_event =
    StartBegins
  | StartMoves nat reply
  | LoopStarts
  | LoopAwakes
  | LoopMoves reply
  | Disconnects
  | PollAnswers "Position list option"
  | OrphanAnswers "Position list option"

text \<open>A connect that succeeds stores its poll task in \<open>_poll_task\<close>, whatever is there.\<close>

definition orphaned :: "PollAdapter \<Rightarrow> PollAdapter \<Rightarrow> nat" where
  "orphaned s s1 = (if pa_polling s \<and> pa_polling s1 then 1 else 0)"

text \<open>What \<open>start\<close> does with the exception, after it closed the clients: the end of the call.\<close>

definition start_handles :: "(PollAdapter \<Rightarrow> PollAdapter) \<Rightarrow> failure \<Rightarrow> PollAdapter \<Rightarrow> PollAdapter" where
  "start_handles enter e s =
     (case e of ConfigFailure \<Rightarrow> s\<lparr>pa_state := DISCONNECTED, pa_backoff := None\<rparr> | OtherFailure \<Rightarrow> enter s)"

definition start_moves :: "(PollAdapter \<Rightarrow> PollAdapter) \<Rightarrow> advance \<Rightarrow> nat \<Rightarrow> reply \<Rightarrow> PollFlow \<Rightarrow> PollFlow" where
  "start_moves enter advance n r s =
     (if n < length (fl_starts s)
      then (case fl_starts s ! n of
        Handling e \<Rightarrow> s\<lparr>fl_adapter := start_handles enter e (fl_adapter s), fl_starts := drop_nth n (fl_starts s)\<rparr>
      | ph \<Rightarrow> (case advance ph r (fl_adapter s) of
          (a, Connects) \<Rightarrow> s\<lparr>fl_adapter := a, fl_starts := drop_nth n (fl_starts s),
            fl_orphans := fl_orphans s + orphaned (fl_adapter s) a\<rparr>
        | (a, RaisesWith e) \<Rightarrow> s\<lparr>fl_adapter := a, fl_starts := (fl_starts s)[n := Handling e]\<rparr>
        | (a, Awaits ph') \<Rightarrow> s\<lparr>fl_adapter := a, fl_starts := (fl_starts s)[n := ph']\<rparr>))
      else s)"

definition loop_moves :: "rat list \<Rightarrow> advance \<Rightarrow> reply \<Rightarrow> PollFlow \<Rightarrow> PollFlow" where
  "loop_moves delays advance r s =
     (case (fl_attempt s, pa_loop (fl_adapter s)) of
        (Some ph, Asleep i) \<Rightarrow> (case advance ph r (fl_adapter s) of
          (a, Connects) \<Rightarrow> s\<lparr>fl_adapter := a\<lparr>pa_loop := NoTask, pa_backoff := None\<rparr>, fl_attempt := None,
            fl_orphans := fl_orphans s + orphaned (fl_adapter s) a\<rparr>
        | (a, RaisesWith ConfigFailure) \<Rightarrow>
            s\<lparr>fl_adapter := a\<lparr>pa_loop := NoTask, pa_state := DISCONNECTED, pa_backoff := None\<rparr>, fl_attempt := None\<rparr>
        | (a, RaisesWith OtherFailure) \<Rightarrow>
            s\<lparr>fl_adapter := reconnect_head delays (Suc i) (a\<lparr>pa_state := RECONNECTING\<rparr>), fl_attempt := None\<rparr>
        | (a, Awaits ph') \<Rightarrow> s\<lparr>fl_adapter := a, fl_attempt := Some ph'\<rparr>)
      | _ \<Rightarrow> s)"

text \<open>Callers start only a disconnected adapter; the start cancels the reconnect task, with the connect it
  may be in, and the poll task.\<close>

fun flow_step ::
    "rat list \<Rightarrow> (PollAdapter \<Rightarrow> PollAdapter) \<Rightarrow> advance \<Rightarrow> (Position list option \<Rightarrow> PollAdapter \<Rightarrow> PollAdapter) \<Rightarrow>
       PollFlow \<Rightarrow> flow_event \<Rightarrow> PollFlow" where
  "flow_step delays enter advance poll s StartBegins =
     (if pa_state (fl_adapter s) = DISCONNECTED
      then s\<lparr>fl_adapter := stop_polling (stop_reconnecting (fl_adapter s)), fl_attempt := None,
        fl_starts := fl_starts s @ [Setup]\<rparr>
      else s)"
| "flow_step delays enter advance poll s (StartMoves n r) = start_moves enter advance n r s"
| "flow_step delays enter advance poll s LoopStarts =
     (if pa_loop (fl_adapter s) = Created then s\<lparr>fl_adapter := reconnect_head delays 0 (fl_adapter s)\<rparr> else s)"
| "flow_step delays enter advance poll s LoopAwakes =
     (case (fl_attempt s, pa_loop (fl_adapter s)) of
        (None, Asleep i) \<Rightarrow>
          if pa_state (fl_adapter s) = CONNECTED then s\<lparr>fl_adapter := (fl_adapter s)\<lparr>pa_loop := NoTask\<rparr>\<rparr>
          else s\<lparr>fl_adapter := stop_polling (fl_adapter s), fl_attempt := Some Setup\<rparr>
      | _ \<Rightarrow> s)"
| "flow_step delays enter advance poll s (LoopMoves r) = loop_moves delays advance r s"
| "flow_step delays enter advance poll s Disconnects =
     s\<lparr>fl_adapter := poll_disconnect (fl_adapter s), fl_attempt := None\<rparr>"
| "flow_step delays enter advance poll s (PollAnswers fetched) =
     (if pa_polling (fl_adapter s) then s\<lparr>fl_adapter := poll fetched (fl_adapter s)\<rparr> else s)"
| "flow_step delays enter advance poll s (OrphanAnswers fetched) =
     (if 0 < fl_orphans s
      then let a = poll fetched ((fl_adapter s)\<lparr>pa_polling := True\<rparr>)
           in s\<lparr>fl_adapter := a\<lparr>pa_polling := pa_polling (fl_adapter s)\<rparr>,
                fl_orphans := (if pa_polling a then fl_orphans s else fl_orphans s - 1)\<rparr>
      else s)"

definition tiger_flow :: "rat list \<Rightarrow> PollFlow \<Rightarrow> flow_event \<Rightarrow> PollFlow" where
  "tiger_flow delays =
     flow_step delays (tiger_enter_reconnecting delays) (fetch_advance ''Tiger'') (tiger_poll_loop delays)"

definition longbridge_flow :: "rat list \<Rightarrow> PollFlow \<Rightarrow> flow_event \<Rightarrow> PollFlow" where
  "longbridge_flow delays =
     flow_step delays (enter_reconnecting delays) (fetch_advance ''Longbridge'') (longbridge_poll_loop delays)"

definition futu_flow :: "rat list \<Rightarrow> PollFlow \<Rightarrow> flow_event \<Rightarrow> PollFlow" where
  "futu_flow delays =
     flow_step delays (enter_reconnecting delays) (futu_advance delays) (futu_poll_loop delays)"

section \<open>Runs in which no two calls of the adapter overlap\<close>

text \<open>What is asked of the callers and the clock: no start begins and no disconnect happens while a start
  is still in flight, and the reconnect task a failing start of Futu has created does not wake before
  that start has closed its contexts.\<close>

fun flow_calm :: "PollFlow \<Rightarrow> flow_event \<Rightarrow> bool" where
  "flow_calm s StartBegins = (fl_starts s = [])"
| "flow_calm s Disconnects = (fl_starts s = [])"
| "flow_calm s LoopAwakes = (fl_starts s = [])"
| "flow_calm s e = True"

fun calm_run :: "(PollFlow \<Rightarrow> flow_event \<Rightarrow> PollFlow) \<Rightarrow> PollFlow \<Rightarrow> flow_event list \<Rightarrow> bool" where
  "calm_run f s [] = True"
| "calm_run f s (e # es) = (flow_calm s e \<and> calm_run f (f s e) es)"

text \<open>The state between two steps: with a start in flight, with an attempt of the reconnect task in
  flight, or with neither. \<open>early\<close> says that the adapter is CONNECTED before its first refresh.\<close>

definition delay_ok :: "rat list \<Rightarrow> PollAdapter \<Rightarrow> bool" where
  "delay_ok delays a = (case pa_loop a of
      Asleep i \<Rightarrow> i < length delays \<and> pa_backoff a = Some (delays ! i) | _ \<Rightarrow> pa_backoff a = None)"

definition delay_or_hidden :: "rat list \<Rightarrow> PollAdapter \<Rightarrow> bool" where
  "delay_or_hidden delays a = (case pa_loop a of
      Asleep i \<Rightarrow> i < length delays \<and> pa_backoff a \<in> {None, Some (delays ! i)} | _ \<Rightarrow> pa_backoff a = None)"

fun start_ok :: "bool \<Rightarrow> rat list \<Rightarrow> PollAdapter \<Rightarrow> await \<Rightarrow> bool" where
  "start_ok early delays a Refreshing =
     (early \<and> pa_state a = CONNECTED \<and> pa_loop a = NoTask \<and> pa_backoff a = None)"
| "start_ok early delays a Setup = (pa_state a = DISCONNECTED \<and> pa_loop a = NoTask \<and> pa_backoff a = None)"
| "start_ok early delays a ph = (pa_state a = DISCONNECTED \<and> delay_ok delays a \<and> (\<not> early \<longrightarrow> pa_loop a = NoTask))"

fun attempt_ok :: "bool \<Rightarrow> rat list \<Rightarrow> PollAdapter \<Rightarrow> await \<Rightarrow> bool" where
  "attempt_ok early delays a Refreshing = (early \<and> pa_state a = CONNECTED \<and> pa_backoff a = None)"
| "attempt_ok early delays a (Handling e) = False"
| "attempt_ok early delays a ph = (pa_state a \<noteq> CONNECTED \<and> (pa_state a = DISCONNECTED \<longrightarrow> early)
     \<and> (pa_state a = RECONNECTING \<longrightarrow> delay_ok delays a))"

definition quiet_ok :: "bool \<Rightarrow> rat list \<Rightarrow> PollAdapter \<Rightarrow> bool" where
  "quiet_ok early delays a =
     (pa_polling a = (pa_state a = CONNECTED \<and> pa_live a \<noteq> None \<and> pa_interval_positive a)
      \<and> (pa_state a = CONNECTED \<longrightarrow> pa_loop a = NoTask)
      \<and> (pa_state a = RECONNECTING \<longrightarrow> pa_loop a \<noteq> NoTask)
      \<and> (pa_state a = DISCONNECTED \<and> \<not> early \<longrightarrow> pa_loop a = NoTask)
      \<and> (pa_state a \<noteq> DISCONNECTED \<longrightarrow> delay_ok delays a)
      \<and> delay_or_hidden delays a)"

definition flow_ok :: "bool \<Rightarrow> rat list \<Rightarrow> PollFlow \<Rightarrow> bool" where
  "flow_ok early delays s =
     (fl_orphans s = 0 \<and>
      (case (fl_starts s, fl_attempt s) of
         ([], None) \<Rightarrow> quiet_ok early delays (fl_adapter s)
       | ([], Some ph) \<Rightarrow> \<not> pa_polling (fl_adapter s) \<and> (\<exists>i. pa_loop (fl_adapter s) = Asleep i)
           \<and> delay_or_hidden delays (fl_adapter s) \<and> attempt_ok early delays (fl_adapter s) ph
       | ([ph], None) \<Rightarrow> \<not> pa_polling (fl_adapter s) \<and> start_ok early delays (fl_adapter s) ph
       | _ \<Rightarrow> False))"

lemmas quiet_defs = quiet_ok_def delay_ok_def delay_or_hidden_def

lemma start_ok_head:
  "start_ok early delays a ph \<Longrightarrow> pa_loop a = Created \<Longrightarrow> start_ok early delays (reconnect_head delays 0 a) ph"
  by (cases ph) (auto simp: reconnect_head_def delay_ok_def)

lemma head_polling [simp]: "pa_polling (reconnect_head delays i a) = pa_polling a"
  by (simp add: reconnect_head_def)

text \<open>What the runs need of the adapter's own text: how a connect goes on from each point it waits at,
  how the reconnect loop is entered, and that a poll of a quiet adapter leaves it quiet.\<close>

locale flow_life =
  fixes early :: bool
    and delays :: "rat list"
    and enter :: "PollAdapter \<Rightarrow> PollAdapter"
    and advance :: advance
    and poll :: "Position list option \<Rightarrow> PollAdapter \<Rightarrow> PollAdapter"
  assumes start_advances: "start_ok early delays a ph \<Longrightarrow> \<not> pa_polling a \<Longrightarrow> \<forall>e. ph \<noteq> Handling e \<Longrightarrow>
      advance ph r a = (a', p) \<Longrightarrow>
      (case p of Connects \<Rightarrow> quiet_ok early delays a'
        | RaisesWith e \<Rightarrow> \<not> pa_polling a' \<and> start_ok early delays a' (Handling e)
        | Awaits ph' \<Rightarrow> \<not> pa_polling a' \<and> start_ok early delays a' ph')"
    and attempt_advances: "attempt_ok early delays a ph \<Longrightarrow> \<not> pa_polling a \<Longrightarrow> pa_loop a = Asleep i \<Longrightarrow>
      delay_or_hidden delays a \<Longrightarrow> advance ph r a = (a', p) \<Longrightarrow>
      (case p of Connects \<Rightarrow> pa_state a' = CONNECTED
            \<and> pa_polling a' = (pa_live a' \<noteq> None \<and> pa_interval_positive a')
        | RaisesWith e \<Rightarrow> \<not> pa_polling a'
        | Awaits ph' \<Rightarrow> \<not> pa_polling a' \<and> pa_loop a' = Asleep i \<and> delay_or_hidden delays a'
            \<and> attempt_ok early delays a' ph')"
    and enters: "pa_state a = DISCONNECTED \<Longrightarrow> delay_ok delays a \<Longrightarrow> \<not> pa_polling a \<Longrightarrow>
      (\<not> early \<longrightarrow> pa_loop a = NoTask) \<Longrightarrow> quiet_ok early delays (enter a)"
    and polls: "quiet_ok early delays a \<Longrightarrow> pa_polling a \<Longrightarrow> quiet_ok early delays (poll fetched a)"
begin

lemma start_moves_ok:
  assumes "flow_ok early delays s"
  shows "flow_ok early delays (start_moves enter advance n r s)"
proof (cases "fl_starts s")
  case (Cons ph phs)
  with assms have s: "fl_starts s = [ph]" "fl_attempt s = None" "fl_orphans s = 0"
    "\<not> pa_polling (fl_adapter s)" "start_ok early delays (fl_adapter s) ph"
    by (auto simp: flow_ok_def split: list.splits option.splits)
  show ?thesis
  proof (cases "n = 0 \<and> (\<forall>e. ph \<noteq> Handling e)")
    case True
    obtain a p where adv: "advance ph r (fl_adapter s) = (a, p)" by fastforce
    from start_advances [OF s(5,4) _ this] s adv True show ?thesis
      by (cases ph; cases p) (auto simp: start_moves_def flow_ok_def orphaned_def)
  next
    case False
    then show ?thesis
    proof (cases "n = 0")
      case True
      with False obtain e where "ph = Handling e" by auto
      with s True enters [of "fl_adapter s"] show ?thesis
        by (cases e) (auto simp: start_moves_def flow_ok_def start_handles_def quiet_defs split: poll_pc.splits)
    qed (use s assms in \<open>simp add: start_moves_def\<close>)
  qed
qed (use assms in \<open>simp add: start_moves_def\<close>)

lemma loop_moves_ok:
  assumes "flow_ok early delays s"
  shows "flow_ok early delays (loop_moves delays advance r s)"
proof (cases "fl_attempt s")
  case (Some ph)
  with assms obtain i where s: "fl_starts s = []" "fl_orphans s = 0" "\<not> pa_polling (fl_adapter s)"
    "pa_loop (fl_adapter s) = Asleep i" "delay_or_hidden delays (fl_adapter s)"
    "attempt_ok early delays (fl_adapter s) ph"
    by (auto simp: flow_ok_def split: list.splits option.splits)
  obtain a p where adv: "advance ph r (fl_adapter s) = (a, p)" by fastforce
  from attempt_advances [OF s(6,3,4,5) this] s adv Some show ?thesis
    by (cases p; (cases "case p of RaisesWith e \<Rightarrow> e | _ \<Rightarrow> OtherFailure")?)
      (auto simp: loop_moves_def flow_ok_def orphaned_def quiet_defs reconnect_head_def)
qed (use assms in \<open>simp add: loop_moves_def\<close>)

lemma step_ok:
  assumes "flow_ok early delays s" "flow_calm s e"
  shows "flow_ok early delays (flow_step delays enter advance poll s e)"
proof (cases e)
  case (PollAnswers fetched)
  with assms show ?thesis
    by (auto simp: flow_ok_def intro: polls split: list.splits option.splits)
next
  case (OrphanAnswers fetched)
  with assms show ?thesis by (simp add: flow_ok_def)
next
  case StartBegins
  with assms show ?thesis
    by (auto simp: flow_ok_def stop_polling_def stop_reconnecting_def)
next
  case LoopStarts
  show ?thesis
  proof (cases "fl_starts s")
    case Nil
    with LoopStarts assms show ?thesis
      by (auto simp: flow_ok_def quiet_defs reconnect_head_def split: option.splits poll_pc.splits)
  next
    case Cons
    with LoopStarts assms start_ok_head show ?thesis
      by (auto simp: flow_ok_def split: list.splits option.splits)
  qed
next
  case LoopAwakes
  with assms show ?thesis
    by (auto simp: flow_ok_def quiet_defs stop_polling_def split: list.splits option.splits poll_pc.splits)
next
  case Disconnects
  with assms show ?thesis
    by (auto simp: flow_ok_def quiet_defs poll_disconnect_def stop_polling_def stop_reconnecting_def split: list.splits option.splits)
qed (use assms in \<open>simp_all add: start_moves_ok loop_moves_ok\<close>)

lemma run_ok:
  "flow_ok early delays s \<Longrightarrow> calm_run (flow_step delays enter advance poll) s es \<Longrightarrow>
   flow_ok early delays (foldl (flow_step delays enter advance poll) s es)"
  by (induction es arbitrary: s) (auto intro: step_ok)

end

lemmas flow_defs = fetch_advance.simps futu_advance.simps connect_defs quiet_defs tiger_enter_reconnecting_def

lemma fetch_start_advances:
  assumes "start_ok False delays a ph" "\<not> pa_polling a" "\<forall>e. ph \<noteq> Handling e" "fetch_advance b ph r a = (a', p)"
  shows "case p of Connects \<Rightarrow> quiet_ok False delays a'
    | RaisesWith e \<Rightarrow> \<not> pa_polling a' \<and> start_ok False delays a' (Handling e)
    | Awaits ph' \<Rightarrow> \<not> pa_polling a' \<and> start_ok False delays a' ph'"
  using assms by (cases ph; cases r) (auto simp: flow_defs)

lemma fetch_attempt_advances:
  assumes "attempt_ok False delays a ph" "\<not> pa_polling a" "pa_loop a = Asleep i" "delay_or_hidden delays a"
    "fetch_advance b ph r a = (a', p)"
  shows "case p of Connects \<Rightarrow> pa_state a' = CONNECTED \<and> pa_polling a' = (pa_live a' \<noteq> None \<and> pa_interval_positive a')
    | RaisesWith e \<Rightarrow> \<not> pa_polling a'
    | Awaits ph' \<Rightarrow> \<not> pa_polling a' \<and> pa_loop a' = Asleep i \<and> delay_or_hidden delays a'
        \<and> attempt_ok False delays a' ph'"
  using assms by (cases ph; cases r) (auto simp: flow_defs)

lemma futu_start_advances:
  assumes "start_ok True delays a ph" "\<not> pa_polling a" "\<forall>e. ph \<noteq> Handling e" "futu_advance delays ph r a = (a', p)"
  shows "case p of Connects \<Rightarrow> quiet_ok True delays a'
    | RaisesWith e \<Rightarrow> \<not> pa_polling a' \<and> start_ok True delays a' (Handling e)
    | Awaits ph' \<Rightarrow> \<not> pa_polling a' \<and> start_ok True delays a' ph'"
  using assms by (cases ph; cases r) (auto simp: flow_defs split: if_splits)

lemma futu_attempt_advances:
  assumes "attempt_ok True delays a ph" "\<not> pa_polling a" "pa_loop a = Asleep i" "delay_or_hidden delays a"
    "futu_advance delays ph r a = (a', p)"
  shows "case p of Connects \<Rightarrow> pa_state a' = CONNECTED \<and> pa_polling a' = (pa_live a' \<noteq> None \<and> pa_interval_positive a')
    | RaisesWith e \<Rightarrow> \<not> pa_polling a'
    | Awaits ph' \<Rightarrow> \<not> pa_polling a' \<and> pa_loop a' = Asleep i \<and> delay_or_hidden delays a'
        \<and> attempt_ok True delays a' ph'"
  using assms by (cases ph; cases r) (auto simp: flow_defs split: if_splits)

lemma enters_quiet:
  assumes "pa_state a = DISCONNECTED" "delay_ok delays a" "\<not> pa_polling a" "\<not> early \<longrightarrow> pa_loop a = NoTask"
  shows "quiet_ok early delays (enter_reconnecting delays a)"
    and "quiet_ok early delays (tiger_enter_reconnecting delays a)"
  using assms by (auto simp: flow_defs split: poll_pc.splits)

lemma turn_quiet:
  assumes "quiet_ok early delays a" "pa_polling a"
  shows "quiet_ok early delays (poll_turn (enter_reconnecting delays) b fetched a)"
    and "quiet_ok early delays (poll_turn (tiger_enter_reconnecting delays) b fetched a)"
  using assms by (auto simp: flow_defs poll_turn_def refresh_live_def split: option.splits poll_pc.splits)

interpretation tiger_flow: flow_life False delays "tiger_enter_reconnecting delays"
  "fetch_advance ''Tiger''" "tiger_poll_loop delays" for delays
  by unfold_locales (simp_all add: fetch_start_advances fetch_attempt_advances enters_quiet turn_quiet tiger_poll_loop_def)

interpretation longbridge_flow: flow_life False delays "enter_reconnecting delays"
  "fetch_advance ''Longbridge''" "longbridge_poll_loop delays" for delays
  by unfold_locales (simp_all add: fetch_start_advances fetch_attempt_advances enters_quiet turn_quiet longbridge_poll_loop_def)

interpretation futu_flow: flow_life True delays "enter_reconnecting delays"
  "futu_advance delays" "futu_poll_loop delays" for delays
  by unfold_locales (simp_all add: futu_start_advances futu_attempt_advances enters_quiet turn_quiet futu_poll_loop_def)

lemma flow_ok_new [simp]: "flow_ok early delays (flow_new live interval)"
  by (simp add: flow_ok_def flow_new_def adapter_new_def quiet_defs)

section \<open>An attempt nothing interrupts\<close>

text \<open>The replies that make up an attempt of \<open>Polling\<close>; the closing of the clients takes any reply.\<close>

fun replies_of :: "attempt \<Rightarrow> reply list" where
  "replies_of (SetupFails e) = [SetupRaises e, SetupRaises e]"
| "replies_of (FetchFails e) = [QueryFails e, QueryFails e, QueryFails e]"
| "replies_of (Fetched ps) = [QueryAnswers ps]"

fun futu_replies_of :: "bool \<Rightarrow> futu_attempt \<Rightarrow> reply list" where
  "futu_replies_of live (FutuSetupFails e) = [SetupRaises e, SetupRaises e]"
| "futu_replies_of live (FutuLoadFails e) = [QueryFails e, QueryFails e, QueryFails e]"
| "futu_replies_of live (FutuLoaded (Inr ps)) = (if live then [QueryAnswers [], QueryAnswers ps] else [QueryAnswers []])"
| "futu_replies_of live (FutuLoaded (Inl e)) =
     (if live then [QueryAnswers [], QueryFails e, QueryFails e, QueryFails e] else [QueryAnswers []])"

lemmas move_defs = start_moves_def loop_moves_def start_handles_def orphaned_def poll_start_def
  reconnect_wake_def connect_defs

text \<open>A start, or a turn of the reconnect loop, that nothing interrupts is the one step \<open>Polling\<close> takes it for.\<close>

theorem uninterrupted_start:
  assumes "pa_state (fl_adapter s) = DISCONNECTED" "fl_starts s = []"
  shows "fl_adapter (foldl (tiger_flow delays) s (StartBegins # map (StartMoves 0) (replies_of a)))
      = tiger_start delays a (fl_adapter s)"
    and "fl_adapter (foldl (longbridge_flow delays) s (StartBegins # map (StartMoves 0) (replies_of a)))
      = longbridge_start delays a (fl_adapter s)"
    and "fl_adapter (foldl (futu_flow delays) s
          (StartBegins # map (StartMoves 0) (futu_replies_of (pa_live (fl_adapter s) \<noteq> None) fa)))
      = futu_start delays fa (fl_adapter s)"
proof -
  show "fl_adapter (foldl (tiger_flow delays) s (StartBegins # map (StartMoves 0) (replies_of a)))
      = tiger_start delays a (fl_adapter s)"
    using assms by (cases a; cases "case a of SetupFails e \<Rightarrow> e | FetchFails e \<Rightarrow> e | _ \<Rightarrow> OtherFailure")
      (simp_all add: tiger_flow_def tiger_start_def tiger_connect_def move_defs)
  show "fl_adapter (foldl (longbridge_flow delays) s (StartBegins # map (StartMoves 0) (replies_of a)))
      = longbridge_start delays a (fl_adapter s)"
    using assms by (cases a; cases "case a of SetupFails e \<Rightarrow> e | FetchFails e \<Rightarrow> e | _ \<Rightarrow> OtherFailure")
      (simp_all add: longbridge_flow_def longbridge_start_def longbridge_connect_def move_defs)
  show "fl_adapter (foldl (futu_flow delays) s
          (StartBegins # map (StartMoves 0) (futu_replies_of (pa_live (fl_adapter s) \<noteq> None) fa)))
      = futu_start delays fa (fl_adapter s)"
  proof (cases fa)
    case (FutuSetupFails e)
    with assms show ?thesis by (cases e) (simp_all add: futu_flow_def futu_start_def move_defs)
  next
    case (FutuLoadFails e)
    with assms show ?thesis by (cases e) (simp_all add: futu_flow_def futu_start_def move_defs)
  next
    case (FutuLoaded x)
    show ?thesis
    proof (cases "pa_live (fl_adapter s)")
      case None
      with FutuLoaded assms show ?thesis by (cases x) (simp_all add: futu_flow_def futu_start_def move_defs)
    next
      case (Some l)
      show ?thesis
      proof (cases x)
        case (Inl e)
        with Some FutuLoaded assms show ?thesis
          by (cases e; cases "delays = []") (simp_all add: futu_flow_def futu_start_def move_defs)
      qed (use Some FutuLoaded assms in \<open>simp add: futu_flow_def futu_start_def move_defs\<close>)
    qed
  qed
qed

lemma uninterrupted_turn:
  assumes "fl_attempt s = None" "pa_loop (fl_adapter s) = Asleep i"
  shows "fl_adapter (foldl (tiger_flow delays) s (LoopAwakes # map LoopMoves (replies_of a)))
      = tiger_reconnect_loop delays i a (fl_adapter s)"
    and "fl_adapter (foldl (longbridge_flow delays) s (LoopAwakes # map LoopMoves (replies_of a)))
      = longbridge_reconnect_loop delays i a (fl_adapter s)"
proof -
  show "fl_adapter (foldl (tiger_flow delays) s (LoopAwakes # map LoopMoves (replies_of a)))
      = tiger_reconnect_loop delays i a (fl_adapter s)"
    using assms by (cases a; cases "case a of SetupFails e \<Rightarrow> e | FetchFails e \<Rightarrow> e | _ \<Rightarrow> OtherFailure")
      (simp_all add: tiger_flow_def tiger_reconnect_loop_def tiger_connect_def move_defs)
  show "fl_adapter (foldl (longbridge_flow delays) s (LoopAwakes # map LoopMoves (replies_of a)))
      = longbridge_reconnect_loop delays i a (fl_adapter s)"
    using assms by (cases a; cases "case a of SetupFails e \<Rightarrow> e | FetchFails e \<Rightarrow> e | _ \<Rightarrow> OtherFailure")
      (simp_all add: longbridge_flow_def longbridge_reconnect_loop_def longbridge_connect_def move_defs)
qed

lemma uninterrupted_futu_turn:
  assumes "fl_attempt s = None" "pa_loop (fl_adapter s) = Asleep i"
  shows "fl_adapter (foldl (futu_flow delays) s
        (LoopAwakes # map LoopMoves (futu_replies_of (pa_live (fl_adapter s) \<noteq> None) fa)))
      = futu_reconnect_loop delays i fa (fl_adapter s)"
proof (cases fa)
  case (FutuSetupFails e)
  with assms show ?thesis by (cases e) (simp_all add: futu_flow_def futu_reconnect_loop_def move_defs)
next
  case (FutuLoadFails e)
  with assms show ?thesis by (cases e) (simp_all add: futu_flow_def futu_reconnect_loop_def move_defs)
next
  case (FutuLoaded x)
  show ?thesis
  proof (cases "pa_live (fl_adapter s)")
    case None
    with FutuLoaded assms show ?thesis by (cases x) (simp_all add: futu_flow_def futu_reconnect_loop_def move_defs)
  next
    case (Some l)
    show ?thesis
    proof (cases x)
      case (Inl e)
      with Some FutuLoaded assms show ?thesis
        by (cases "pa_state (fl_adapter s)"; cases e; cases "delays = []")
          (simp_all add: futu_flow_def futu_reconnect_loop_def move_defs)
    qed (use Some FutuLoaded assms in \<open>simp add: futu_flow_def futu_reconnect_loop_def move_defs\<close>)
  qed
qed

section \<open>Properties\<close>




text \<open>Without that restriction they do not stay consistent. Two starts that overlap, as two posts of
  \<open>/healthz/retry\<close> to a disconnected adapter do, both create a poll task; the first is lost from
  \<open>_poll_task\<close>, so a disconnect leaves it running, and Tiger's and Longbridge's goes on to write rows of the
  disconnected broker.\<close>
theorem overlapping_starts_leave_a_poll:
  fixes ps :: "Position list"
  defines "begun \<equiv> [StartBegins, StartBegins]"
  shows "(f, b) \<in> {(tiger_flow delays, ''Tiger''), (longbridge_flow delays, ''Longbridge'')} \<Longrightarrow>
      s = foldl f (flow_new (Some l) True)
        (begun @ [StartMoves 0 (QueryAnswers ps), StartMoves 0 (QueryAnswers ps), Disconnects, OrphanAnswers (Some qs)]) \<Longrightarrow>
      pa_state (fl_adapter s) = DISCONNECTED \<and> fl_starts s = [] \<and> fl_orphans s = 1
      \<and> pa_live (fl_adapter s) = Some (replace_broker (replace_broker (replace_broker l b ps) b ps) b qs)"
    and "s = foldl (futu_flow delays) (flow_new (Some l) True)
        (begun @ map (StartMoves 0) [QueryAnswers [], QueryAnswers ps, QueryAnswers [], QueryAnswers ps] @ [Disconnects]) \<Longrightarrow>
      pa_state (fl_adapter s) = DISCONNECTED \<and> fl_starts s = [] \<and> fl_orphans s = 1"
proof -
  show "(f, b) \<in> {(tiger_flow delays, ''Tiger''), (longbridge_flow delays, ''Longbridge'')} \<Longrightarrow>
      s = foldl f (flow_new (Some l) True)
        (begun @ [StartMoves 0 (QueryAnswers ps), StartMoves 0 (QueryAnswers ps), Disconnects, OrphanAnswers (Some qs)]) \<Longrightarrow>
      pa_state (fl_adapter s) = DISCONNECTED \<and> fl_starts s = [] \<and> fl_orphans s = 1
      \<and> pa_live (fl_adapter s) = Some (replace_broker (replace_broker (replace_broker l b ps) b ps) b qs)"
    by (auto simp: begun_def tiger_flow_def longbridge_flow_def move_defs flow_new_def adapter_new_def
        poll_disconnect_def tiger_poll_loop_def longbridge_poll_loop_def poll_turn_def refresh_live_def)
  show "s = foldl (futu_flow delays) (flow_new (Some l) True)
        (begun @ map (StartMoves 0) [QueryAnswers [], QueryAnswers ps, QueryAnswers [], QueryAnswers ps] @ [Disconnects]) \<Longrightarrow>
      pa_state (fl_adapter s) = DISCONNECTED \<and> fl_starts s = [] \<and> fl_orphans s = 1"
    by (simp add: begun_def futu_flow_def move_defs flow_new_def adapter_new_def poll_disconnect_def)
qed

end
