(* ===== verification/DumpSeeds.thy ===== *)
theory DumpSeeds
  imports Scripts Store
begin

text \<open>
  \<open>scripts/dump_seeds.py\<close>: the operator's look at the recorded fills and snapshots and at the live account
  summary. A run gives the lines it prints on its standard output and how it ends. A printed number is kept
  with its format specification. Options are given by their whole names with a value each. Which rows SQLite
  visits first is a parameter, as the statement fixes no order of rows that tie.
\<close>

section \<open>The window\<close>

text \<open>The dict of the code builds all three durations before it takes one, so that the bound on the days a
  \<open>timedelta\<close> can have holds for every unit. \<open>int\<close> refuses texts of more than 4300 digits.\<close>

definition duration_unit :: "char \<Rightarrow> int" where
  "duration_unit u = (if u = CHR ''d'' then day_us else if u = CHR ''h'' then seconds 3600 else seconds 60)"

definition is_duration :: "string \<Rightarrow> bool" where
  "is_duration s = (s \<noteq> [] \<and> last s \<in> set ''hdm'' \<and> py_isdigit (butlast s))"

definition parse_since :: "string \<Rightarrow> int result" where
  "parse_since text =
     (let s = py_lower (py_strip text); n = digits_val (butlast s)
      in if \<not> is_duration s then Inl (OtherError ''ArgumentTypeError'')
         else if 4300 < length (butlast s) then Inl (ValueError ''Exceeds the limit for integer string conversion'')
         else if 999999999 < n then Inl (OtherError ''OverflowError'')
         else Inr (int n * duration_unit (last s)))"

section \<open>Printed rows\<close>

datatype cell = Text string | Number string fl

datatype dump_line =
    NoRows string "instant option"
  | RowCount nat string "instant option"
  | Blank
  | ColumnHeads string
  | Ruler nat
  | Cells "cell list"

definition join_with :: "string \<Rightarrow> string list \<Rightarrow> string" where
  "join_with sep parts = (case parts of [] \<Rightarrow> [] | p # ps \<Rightarrow> p @ concat (map (\<lambda>q. sep @ q) ps))"

definition format_row :: "('v \<Rightarrow> string) \<Rightarrow> (string, 'v) dict \<Rightarrow> string list \<Rightarrow> string" where
  "format_row str r columns =
     join_with '' | '' (map (\<lambda>c. case map_of r c of None \<Rightarrow> [] | Some v \<Rightarrow> str v) columns)"

text \<open>Formatting a missing number raises.\<close>

definition format_number :: "string \<Rightarrow> fl option \<Rightarrow> cell result" where
  "format_number spec x = (case x of None \<Rightarrow> Inl TypeError | Some v \<Rightarrow> Inr (Number spec v))"

definition number_or_dash :: "string \<Rightarrow> fl option \<Rightarrow> cell" where
  "number_or_dash spec x = (case x of None \<Rightarrow> Text ''-'' | Some v \<Rightarrow> Number spec v)"

definition snapshot_cells :: "EquityRow \<Rightarrow> cell list result" where
  "snapshot_cells r =
     Inr [Text (isoformat (er_snapshot_at r)), Text (er_snapshot_session r), Text (er_account_id r),
          Text (er_base_currency r), Number '',.2f'' (er_net_liquidation_native r),
          Number '',.2f'' (er_net_liquidation_usd r), Number '',.2f'' (er_gross_position_value_usd r),
          Number '',.2f'' (er_cash_usd r)]"

definition fill_cells :: "FillRow \<Rightarrow> cell list result" where
  "fill_cells r =
     rbind (format_number ''g'' (fr_fees_native r)) (\<lambda>fees.
       Inr [Text (isoformat (fr_filled_at r)), Text (fr_account_id r), Text (fr_canonical_symbol r),
            Text (fr_side r), Number ''g'' (fr_quantity r), Number ''g'' (fr_price r), Text (fr_currency r),
            number_or_dash ''.4f'' (fr_fx_rate_at_fill r), fees, number_or_dash ''.2f'' (fr_fees_usd r),
            Text (fr_execution_id r)])"

definition summary_cells :: "AccountSummary \<Rightarrow> cell list result" where
  "summary_cells a =
     Inr [Text (as_account_id a), Text (base_currency a), Number '',.2f'' (net_liquidation_native a),
          Number '',.2f'' (net_liquidation_usd a), Number '',.2f'' (gross_position_value_usd a),
          Number '',.2f'' (cash_usd a), Number '',.2f'' (buying_power_usd a)]"

text \<open>The loop prints row by row, so the rows before a failure are out.\<close>

fun print_rows :: "('r \<Rightarrow> cell list result) \<Rightarrow> 'r list \<Rightarrow> dump_line list \<times> unit result" where
  "print_rows cells [] = ([], Inr ())"
| "print_rows cells (r # rs) =
     (case cells r of
        Inl e \<Rightarrow> ([], Inl e)
      | Inr cs \<Rightarrow> (case print_rows cells rs of (ls, res) \<Rightarrow> (Cells cs # ls, res)))"

text \<open>The common text of the three functions: a notice when there is nothing, else a heading and the rows.\<close>

definition dump_table ::
    "string \<Rightarrow> instant option \<Rightarrow> string \<Rightarrow> nat \<Rightarrow> ('r \<Rightarrow> cell list result) \<Rightarrow> 'r list \<Rightarrow> dump_line list \<times> unit result" where
  "dump_table what since heads width cells rs =
     (if rs = [] then ([NoRows what since], Inr ())
      else (case print_rows cells rs of (ls, res) \<Rightarrow>
              ([RowCount (length rs) what since, Blank, ColumnHeads heads, Ruler width] @ ls, res)))"

section \<open>The queries\<close>

definition DUMP_LIMIT :: nat where
  "DUMP_LIMIT = 500"

definition later_first :: "('r \<Rightarrow> instant) \<Rightarrow> 'r \<Rightarrow> 'r \<Rightarrow> bool" where
  "later_first tm x y = text_le (isoformat (tm y)) (isoformat (tm x))"

definition newest_since :: "('r \<Rightarrow> instant) \<Rightarrow> instant \<Rightarrow> 'r list \<Rightarrow> 'r list" where
  "newest_since tm since visited =
     take DUMP_LIMIT (order_by (later_first tm)
       (filter (\<lambda>r. text_le (isoformat since) (isoformat (tm r))) visited))"

definition dump_equity_snapshots ::
    "(EquityRow list \<Rightarrow> EquityRow list) \<Rightarrow> Store \<Rightarrow> instant \<Rightarrow> dump_line list \<times> unit result" where
  "dump_equity_snapshots visit s since =
     dump_table ''equity_snapshots'' (Some since)
       ''snapshot_at | session | account | base | NLV native | NLV USD | GPV USD | cash USD'' 100 snapshot_cells
       (newest_since er_snapshot_at since (visit (map fst (equity_snapshots s))))"

definition dump_fills ::
    "(FillRow list \<Rightarrow> FillRow list) \<Rightarrow> Store \<Rightarrow> instant \<Rightarrow> dump_line list \<times> unit result" where
  "dump_fills visit s since =
     dump_table ''fills'' (Some since)
       ''filled_at | account | symbol | side | qty | price | ccy | fx | fees_native | fees_usd | exec_id'' 120 fill_cells
       (newest_since fr_filled_at since (visit (map fst (fills s))))"

section \<open>The account summary\<close>

text \<open>What the run meets: the module, the adapter's connect, its answer and its disconnect.\<close>

record SummaryProbe =
  sp_module :: bool
  sp_connect :: "unit result"
  sp_summaries :: "AccountSummary list result"
  sp_disconnect :: "unit result"

text \<open>The result is the lines, whether the adapter was disconnected, and the exit code or what is raised.
  What \<open>finally\<close> raises replaces what was raised before.\<close>

definition dump_account_summary ::
    "environ \<Rightarrow> int \<Rightarrow> SummaryProbe \<Rightarrow> (dump_line list \<times> bool) \<times> int result" where
  "dump_account_summary env chosen p =
     (if \<not> sp_module p then (([], False), Inr 2)
      else
        (case rbind (py_int_text (env_get env ''IB_PORT'' ''4003'')) (\<lambda>port.
                (let c = env_get env ''IB_CLIENT_ID'' [] in if c = [] then Inr chosen else py_int_text c)) of
           Inl e \<Rightarrow> (([], False), Inl e)
         | Inr client \<Rightarrow>
             (case sp_connect p of
                Inl CancelledError \<Rightarrow> (([], False), Inl CancelledError)
              | Inl e \<Rightarrow> (([], False), Inr 2)
              | Inr u \<Rightarrow>
                  (case (case sp_summaries p of
                           Inl e \<Rightarrow> ([], Inl e)
                         | Inr as \<Rightarrow> dump_table ''account summary'' None
                             ''account | base | NLV native | NLV USD | GPV USD | cash USD | buying power USD''
                             100 summary_cells as) of
                     (ls, res) \<Rightarrow> ((ls, True), rbind (sp_disconnect p) (\<lambda>v. rbind res (\<lambda>w. Inr 0)))))))"

section \<open>The command line\<close>

record DumpArgs =
  da_table :: "string option"
  da_since :: int

definition TABLES :: "string list" where
  "TABLES = [''equity_snapshots'', ''fills'', ''account-summary'']"

definition default_since :: int where
  "default_since = (case parse_since ''7d'' of Inr d \<Rightarrow> d | Inl e \<Rightarrow> 0)"

text \<open>An option's conversion that raises an \<open>ArgumentTypeError\<close>, a \<open>TypeError\<close> or a \<open>ValueError\<close> ends the
  program with code 2, as a value out of the choices and a missing option do; anything else is raised.\<close>

fun usage_error :: "py_exc \<Rightarrow> bool" where
  "usage_error (ValueError m) = True"
| "usage_error TypeError = True"
| "usage_error (OtherError m) = (m = ''ArgumentTypeError'')"
| "usage_error _ = False"

fun parse_options :: "DumpArgs \<Rightarrow> (string \<times> string) list \<Rightarrow> DumpArgs option result" where
  "parse_options a [] = Inr (if da_table a = None then None else Some a)"
| "parse_options a ((name, v) # rest) =
     (if name = ''--table'' then
        (if v \<in> set TABLES then parse_options (a\<lparr>da_table := Some v\<rparr>) rest else Inr None)
      else if name = ''--since'' then
        (case parse_since v of
           Inl e \<Rightarrow> if usage_error e then Inr None else Inl e
         | Inr d \<Rightarrow> parse_options (a\<lparr>da_since := d\<rparr>) rest)
      else Inr None)"

text \<open>The database as the run finds it: no file, one the queries fail on, or the tables.\<close>

record DumpWorld =
  dw_env :: environ
  dw_chosen :: int
  dw_probe :: SummaryProbe
  dw_db :: "Store result option"
  dw_now :: instant
  dw_visit_fills :: "FillRow list \<Rightarrow> FillRow list"
  dw_visit_snapshots :: "EquityRow list \<Rightarrow> EquityRow list"

text \<open>The opened database is closed on every path. It is opened by the first query, so a window that
  begins before the year 1 raises with nothing open.\<close>

definition dump_stored :: "DumpWorld \<Rightarrow> DumpArgs \<Rightarrow> Store result \<Rightarrow> dump_line list \<times> int result" where
  "dump_stored w a db =
     (let since = dw_now w - da_since a
      in if since < 0 then ([], Inl (OtherError ''OverflowError''))
         else (case db of
                 Inl e \<Rightarrow> ([], Inl e)
               | Inr s \<Rightarrow>
                   (case (if da_table a = Some ''equity_snapshots''
                          then dump_equity_snapshots (dw_visit_snapshots w) s since
                          else dump_fills (dw_visit_fills w) s since) of
                      (ls, res) \<Rightarrow> (ls, rbind res (\<lambda>u. Inr 0)))))"

definition dump_main :: "DumpWorld \<Rightarrow> (string \<times> string) list \<Rightarrow> dump_line list \<times> int result" where
  "dump_main w argv =
     (case parse_options \<lparr>da_table = None, da_since = default_since\<rparr> argv of
        Inl e \<Rightarrow> ([], Inl e)
      | Inr None \<Rightarrow> ([], Inr 2)
      | Inr (Some a) \<Rightarrow>
          if da_table a = Some ''account-summary''
          then (case dump_account_summary (dw_env w) (dw_chosen w) (dw_probe w) of ((ls, disc), res) \<Rightarrow> (ls, res))
          else (case dw_db w of None \<Rightarrow> ([], Inr 2) | Some db \<Rightarrow> dump_stored w a db))"

section \<open>Lemmas\<close>

lemma later_first_in_time:
  assumes "\<And>r. r \<in> set rs \<Longrightarrow> 0 \<le> tm r \<and> tm r < max_instant"
  shows "sorted_wrt (later_first tm) rs \<longleftrightarrow> sorted_wrt (\<lambda>x y. tm y \<le> tm x) rs"
  using assms by (induction rs) (auto simp: later_first_def isoformat_order_lemma)

lemma later_first_order: "sorted_wrt (later_first tm) (order_by (later_first tm) rs)"
  by (rule sorted_order_by) (use text_le_total text_le_trans in \<open>auto simp: later_first_def\<close>)

text \<open>The rows a query gives are the front of the window in falling order of time.\<close>

lemma newest_since_front:
  assumes "mset visited = mset rs" and range: "\<And>r. r \<in> set rs \<Longrightarrow> 0 \<le> tm r \<and> tm r < max_instant"
    and "0 \<le> since" "since < max_instant"
  shows "\<exists>older. mset (newest_since tm since visited @ older) = mset (filter (\<lambda>r. since \<le> tm r) rs)
    \<and> sorted_wrt (\<lambda>x y. tm y \<le> tm x) (newest_since tm since visited @ older)
    \<and> (older = [] \<or> length (newest_since tm since visited) = DUMP_LIMIT)"
proof -
  have rows: "set visited = set rs" using assms(1) by (metis set_mset_mset)
  let ?w = "filter (\<lambda>r. text_le (isoformat since) (isoformat (tm r))) visited"
  let ?o = "order_by (later_first tm) ?w"
  have w: "?w = filter (\<lambda>r. since \<le> tm r) visited"
    by (rule filter_cong) (use rows range assms(3,4) in \<open>auto simp: isoformat_order_lemma\<close>)
  have split: "newest_since tm since visited @ drop DUMP_LIMIT ?o = ?o" by (simp add: newest_since_def)
  have m: "mset ?o = mset (filter (\<lambda>r. since \<le> tm r) rs)" using assms(1) by (simp add: w)
  have "sorted_wrt (\<lambda>x y. tm y \<le> tm x) ?o"
    using later_first_order [of tm ?w] rows range by (subst (asm) later_first_in_time) auto
  moreover have "drop DUMP_LIMIT ?o = [] \<or> length (newest_since tm since visited) = DUMP_LIMIT"
    by (auto simp: newest_since_def)
  ultimately show ?thesis using m split by (intro exI [of _ "drop DUMP_LIMIT ?o"]) simp
qed

definition printed_cells :: "dump_line list \<Rightarrow> cell list list" where
  "printed_cells ls = concat (map (\<lambda>l. case l of Cells cs \<Rightarrow> [cs] | _ \<Rightarrow> []) ls)"

lemma print_rows_cells:
  "map Inr (printed_cells (fst (print_rows cells rs))) = map cells (takeWhile (\<lambda>r. \<exists>cs. cells r = Inr cs) rs)"
  by (induction rs) (auto simp: printed_cells_def split: sum.splits prod.splits)

lemma dump_table_result:
  "map Inr (printed_cells (fst (dump_table what since heads width cells rs)))
     = map cells (takeWhile (\<lambda>r. \<exists>cs. cells r = Inr cs) rs)"
  "snd (dump_table what since heads width cells rs) = snd (print_rows cells rs)"
proof -
  show "map Inr (printed_cells (fst (dump_table what since heads width cells rs)))
     = map cells (takeWhile (\<lambda>r. \<exists>cs. cells r = Inr cs) rs)"
    using print_rows_cells [of cells rs]
    by (cases rs) (auto simp: dump_table_def printed_cells_def split: prod.splits)
  show "snd (dump_table what since heads width cells rs) = snd (print_rows cells rs)"
    by (cases rs) (auto simp: dump_table_def split: prod.splits)
qed

lemma fill_cells_fail: "fr_fees_native r = None \<Longrightarrow> fill_cells r = Inl TypeError"
  by (simp add: fill_cells_def format_number_def)

lemma fill_cells_fine: "fr_fees_native r \<noteq> None \<Longrightarrow> \<exists>cs. fill_cells r = Inr cs"
  by (auto simp: fill_cells_def format_number_def)

lemma fill_cells_ok_iff: "(\<exists>cs. fill_cells r = Inr cs) \<longleftrightarrow> fr_fees_native r \<noteq> None"
  using fill_cells_fail [of r] fill_cells_fine [of r] by (metis Inl_Inr_False)

lemma print_fills_raise:
  "snd (print_rows fill_cells rs)
     = (if \<exists>r\<in>set rs. fr_fees_native r = None then Inl TypeError else Inr ())"
proof (induction rs)
  case (Cons r rs)
  show ?case
  proof (cases "fr_fees_native r = None")
    case False
    then obtain cs where "fill_cells r = Inr cs" using fill_cells_fine by blast
    with False Cons.IH show ?thesis by (cases "print_rows fill_cells rs") simp
  qed (simp add: fill_cells_fail)
qed simp

section \<open>Properties\<close>

text \<open>\<open>--table fills\<close> works on the fills of the window from the newest back, five hundred at most, in falling
  order of time whatever order SQLite visits the rows in; it prints them up to the first one recorded without
  native fees, and ends with a TypeError exactly if there is one.\<close>
theorem dump_fills_newest:
  assumes "mset (visit (map fst (fills s))) = mset (map fst (fills s))"
    and "list_all (\<lambda>(r, c). 0 \<le> fr_filled_at r \<and> fr_filled_at r < max_instant) (fills s)"
    and "0 \<le> since" "since < max_instant"
  shows "\<exists>shown older.
      mset (shown @ older) = mset (filter (\<lambda>r. since \<le> fr_filled_at r) (map fst (fills s)))
    \<and> sorted_wrt (\<lambda>x y. fr_filled_at y \<le> fr_filled_at x) (shown @ older)
    \<and> (older = [] \<or> length shown = 500)
    \<and> map Inr (printed_cells (fst (dump_fills visit s since)))
        = map fill_cells (takeWhile (\<lambda>r. fr_fees_native r \<noteq> None) shown)
    \<and> snd (dump_fills visit s since)
        = (if \<exists>r\<in>set shown. fr_fees_native r = None then Inl TypeError else Inr ())"
proof -
  let ?shown = "newest_since fr_filled_at since (visit (map fst (fills s)))"
  have range: "\<And>r. r \<in> set (map fst (fills s)) \<Longrightarrow> 0 \<le> fr_filled_at r \<and> fr_filled_at r < max_instant"
    using assms(2) by (auto simp: list_all_iff)
  obtain older where older:
    "mset (?shown @ older) = mset (filter (\<lambda>r. since \<le> fr_filled_at r) (map fst (fills s)))"
    "sorted_wrt (\<lambda>x y. fr_filled_at y \<le> fr_filled_at x) (?shown @ older)"
    "older = [] \<or> length ?shown = 500"
    using newest_since_front [where tm = fr_filled_at, OF assms(1) range assms(3,4)] unfolding DUMP_LIMIT_def by blast
  have res: "snd (dump_fills visit s since)
      = (if \<exists>r\<in>set ?shown. fr_fees_native r = None then Inl TypeError else Inr ())"
    by (simp add: dump_fills_def dump_table_result print_fills_raise)
  show ?thesis
    by (intro exI [of _ ?shown] exI [of _ older] conjI older res)
      (simp add: dump_fills_def dump_table_result fill_cells_ok_iff)
qed

theorem dump_fills_newest_witness:
  "snd (dump_fills rev (empty_store\<lparr>fills := [(demo_fill ''e1'' 1 5, 9), (demo_fill ''e2'' 1 9, 9)]\<rparr>) 5) = Inr ()
   \<and> length (printed_cells (fst (dump_fills rev
       (empty_store\<lparr>fills := [(demo_fill ''e1'' 1 5, 9), (demo_fill ''e2'' 1 9, 9)]\<rparr>) 5))) = 2"
proof -
  let ?s = "empty_store\<lparr>fills := [(demo_fill ''e1'' 1 5, 9), (demo_fill ''e2'' 1 9, 9)]\<rparr>"
  have fees: "fr_fees_native (demo_fill e p t) \<noteq> None" for e p t by (simp add: demo_fill_def)
  have 1: "mset (rev (map fst (fills ?s))) = mset (map fst (fills ?s))" by simp
  have 2: "list_all (\<lambda>(r, c). 0 \<le> fr_filled_at r \<and> fr_filled_at r < max_instant) (fills ?s)"
    "(0::int) \<le> 5" "5 < max_instant"
    by (simp_all add: demo_fill_def max_instant_def days_def day_us_def)
  obtain shown older where d:
    "mset (shown @ older) = mset (filter (\<lambda>r. 5 \<le> fr_filled_at r) (map fst (fills ?s)))"
    "older = [] \<or> length shown = 500"
    "map Inr (printed_cells (fst (dump_fills rev ?s 5)))
        = map fill_cells (takeWhile (\<lambda>r. fr_fees_native r \<noteq> None) shown)"
    "snd (dump_fills rev ?s 5) = (if \<exists>r\<in>set shown. fr_fees_native r = None then Inl TypeError else Inr ())"
    using dump_fills_newest [of rev ?s 5, OF 1 2] by blast
  have m: "mset (shown @ older) = mset [demo_fill ''e1'' 1 5, demo_fill ''e2'' 1 9]"
    using d(1) by (simp add: demo_fill_def)
  then have "length (shown @ older) = 2" by (metis mset_eq_length length_Cons list.size(3) numeral_2_eq_2)
  with d(2) have two: "older = []" "length shown = 2" by auto
  have "set shown = {demo_fill ''e1'' 1 5, demo_fill ''e2'' 1 9}"
    using m two(1) by (metis append_Nil2 set_mset_mset list.simps(15) set_empty)
  then have all: "\<forall>r\<in>set shown. fr_fees_native r \<noteq> None" using fees by auto
  then have "takeWhile (\<lambda>r. fr_fees_native r \<noteq> None) shown = shown" by (simp add: takeWhile_eq_all_conv)
  then have "length (printed_cells (fst (dump_fills rev ?s 5))) = 2"
    using d(3) two(2) by (metis length_map)
  with d(4) all show ?thesis by simp
qed

lemma py_lower_digits: "list_all py_isdigit_char ds \<Longrightarrow> py_lower ds = ds"
proof (induction ds)
  case (Cons d ds)
  then have "\<not> py_isupper_char d" by (auto simp: py_isdigit_char_def py_isupper_char_def)
  with Cons show ?case by (simp add: py_lower_def py_lower_char_def)
qed (simp add: py_lower_def)

text \<open>A window is read back from its text, in either case of the unit, up to 999999999 of any unit; one more
  raises an OverflowError, also where the duration itself could be held, as minutes or hours.\<close>
theorem parse_since_exact:
  assumes "(u, v) \<in> {(CHR ''h'', CHR ''h''), (CHR ''d'', CHR ''d''), (CHR ''m'', CHR ''m''),
                      (CHR ''H'', CHR ''h''), (CHR ''D'', CHR ''d''), (CHR ''M'', CHR ''m'')}"
    and "length (nat_str n) \<le> 4300"
  shows "parse_since (nat_str n @ [u]) =
    (if n \<le> 999999999 then Inr (int n * duration_unit v) else Inl (OtherError ''OverflowError''))"
proof -
  have digits: "list_all py_isdigit_char (nat_str n)" by (rule nat_str_digits)
  have "hd (nat_str n @ [u]) \<in> set (nat_str n)" by simp
  then have "\<not> py_isspace (hd (nat_str n @ [u]))" using digits by (auto simp: list_all_iff digit_not_special)
  moreover have "\<not> py_isspace (last (nat_str n @ [u]))"
    using assms(1) by (auto simp: py_isspace_def py_spaces_def)
  ultimately have strip: "py_strip (nat_str n @ [u]) = nat_str n @ [u]" by (intro py_strip_id) auto
  have "py_lower [u] = [v]" using assms(1) by (auto simp: py_lower_def py_lower_char_def py_isupper_char_def)
  then have low: "py_lower (py_strip (nat_str n @ [u])) = nat_str n @ [v]"
    using digits py_lower_digits strip by (simp add: py_lower_def)
  have "v \<in> set ''hdm''" using assms(1) by auto
  then show ?thesis
    unfolding parse_since_def low Let_def
    using digits assms(2) by (simp add: is_duration_def py_isdigit_def digits_val_nat_str)
qed

theorem parse_since_exact_witness:
  "parse_since ''24H'' = Inr day_us"
  using parse_since_exact [of "CHR ''H''" "CHR ''h''" 24]
  by (simp add: nat_str.simps digit_char_def duration_unit_def seconds_def day_us_def)

end
