(* ===== verification/MockSite.thy ===== *)
theory MockSite
  imports Web
begin

text \<open>
  \<open>scripts/serve_mock.py\<close>: the dashboard over a made-up portfolio of two brokers. The rows are those of the
  script, and the page, the stream and the composite are the program's own, so that what the script shows is
  what they do with these rows. An unset option of the script is what it takes by default.
\<close>

section \<open>The rows\<close>

definition mock_stk ::
    "string \<Rightarrow> string \<Rightarrow> string \<Rightarrow> string \<Rightarrow> string \<Rightarrow> string \<Rightarrow> fl \<Rightarrow> fl \<Rightarrow> fl \<Rightarrow> fl \<Rightarrow> fl \<Rightarrow>
       string option \<Rightarrow> string option \<Rightarrow> Position" where
  "mock_stk b account native name exch ccy qty avg last_px prev fx_to_usd canonical key =
     (let mv_native = qty * last_px; pnl_native = (last_px - avg) * qty
      in \<lparr>broker = b, account_id = account,
          native_key = (case key of None \<Rightarrow> b @ ''-'' @ native
                        | Some k \<Rightarrow> if k = [] then b @ ''-'' @ native else k),
          canonical_symbol = (case canonical of None \<Rightarrow> native @ ''.US''
                              | Some c \<Rightarrow> if c = [] then native @ ''.US'' else c),
          native_symbol = native, exchange = exch, currency = ccy, name_en = name, asset_class = ''STK'',
          quantity = qty, avg_cost = avg, last_price = last_px,
          market_value_native = mv_native, market_value_usd = mv_native * fx_to_usd,
          unrealized_pnl_native = pnl_native, unrealized_pnl_usd = pnl_native * fx_to_usd,
          fx_is_stale = False, fx_is_fallback = False, fx_unavailable = False,
          last_price_is_previous_close = False, last_price_is_broker_mark = False,
          last_price_is_delayed = False, last_price_is_stale = False,
          price_magnifier = 1, previous_close = prev\<rparr>)"

definition mock_cash :: "string \<Rightarrow> string \<Rightarrow> string \<Rightarrow> fl \<Rightarrow> fl \<Rightarrow> Position" where
  "mock_cash b account ccy amount fx_to_usd =
     \<lparr>broker = b, account_id = account, native_key = b @ ''-CASH-'' @ ccy,
      canonical_symbol = ''CASH.'' @ ccy, native_symbol = ccy, exchange = [], currency = ccy,
      name_en = ccy @ '' cash'', asset_class = ''CASH'', quantity = amount, avg_cost = 1, last_price = 1,
      market_value_native = amount, market_value_usd = amount * fx_to_usd,
      unrealized_pnl_native = 0, unrealized_pnl_usd = 0,
      fx_is_stale = False, fx_is_fallback = False, fx_unavailable = False,
      last_price_is_previous_close = False, last_price_is_broker_mark = False,
      last_price_is_delayed = False, last_price_is_stale = False,
      price_magnifier = 1, previous_close = 0\<rparr>"

definition IBKR_POSITIONS :: "Position list" where
  "IBKR_POSITIONS =
     [mock_stk ''IBKR'' ''DEMO-IBKR'' ''NVDA'' ''NVIDIA Corp'' ''NASDAQ'' ''USD'' (180) (420) (Fin (2562 / 5)) (Fin (2541 / 5)) (1) None None,
      mock_stk ''IBKR'' ''DEMO-IBKR'' ''AAPL'' ''Apple Inc'' ''NASDAQ'' ''USD'' (250) (Fin (1523 / 10)) (Fin (759 / 4)) (Fin (956 / 5)) (1) None None,
      mock_stk ''IBKR'' ''DEMO-IBKR'' ''MSFT'' ''Microsoft Corp'' ''NASDAQ'' ''USD'' (120) (Fin (1478 / 5)) (Fin (8257 / 20)) (Fin (4101 / 10)) (1) None None,
      mock_stk ''IBKR'' ''DEMO-IBKR'' ''7203'' ''Toyota Motor Corp'' ''TSEJ'' ''JPY'' (400) (2100) (2685) (2702) (Fin (4 / 625)) (Some ''7203.JP'') None,
      mock_stk ''IBKR'' ''DEMO-IBKR'' ''BP'' ''BP plc'' ''LSE'' ''GBP'' (600) (Fin (24 / 5)) (Fin (271 / 50)) (Fin (537 / 100)) (Fin (127 / 100)) (Some ''BP.UK'') None,
      mock_cash ''IBKR'' ''DEMO-IBKR'' ''USD'' (12450) (1),
      mock_cash ''IBKR'' ''DEMO-IBKR'' ''JPY'' (285000) (Fin (4 / 625))]"

definition FUTU_POSITIONS :: "Position list" where
  "FUTU_POSITIONS =
     [mock_stk ''Futu'' ''DEMO-FUTU'' ''700'' ''Tencent Holdings Ltd'' ''SEHK'' ''HKD'' (400) (Fin (611 / 2)) (Fin (1992 / 5)) (Fin (1979 / 5)) (Fin (641 / 5000)) (Some ''700.HK'') None,
      mock_stk ''Futu'' ''DEMO-FUTU'' ''5'' ''HSBC Holdings plc'' ''SEHK'' ''HKD'' (800) (Fin (291 / 5)) (Fin (1443 / 20)) (Fin (719 / 10)) (Fin (641 / 5000)) (Some ''5.HK'') None,
      mock_stk ''Futu'' ''DEMO-FUTU'' ''TSLA'' ''Tesla Inc'' ''NASDAQ'' ''USD'' (85) (Fin (1052 / 5)) (Fin (1214 / 5)) (Fin (2481 / 10)) (1) None None,
      mock_stk ''Futu'' ''DEMO-FUTU'' ''2330'' ''Taiwan Semiconductor Mfg'' ''TWSE'' ''TWD'' (300) (580) (712) (706) (Fin (39 / 1250)) (Some ''2330.TW'') None,
      mock_cash ''Futu'' ''DEMO-FUTU'' ''HKD'' (28400) (Fin (641 / 5000))]"

section \<open>The site\<close>

text \<open>\<open>_MockAdapter\<close> has the calls of the protocol and \<open>start\<close>, and none of the optional members.\<close>

definition mock_adapter :: "string \<Rightarrow> Position list \<Rightarrow> AccountSummary list option \<Rightarrow> Broker" where
  "mock_adapter nm ps summaries =
     \<lparr>b_name = nm, b_get_connection_state = Inr CONNECTED, b_get_positions = Inr ps,
      b_get_account_summary = Inr (case summaries of None \<Rightarrow> [] | Some as \<Rightarrow> as),
      b_current_backoff_delay = None, b_has_start = True, b_has_retry_now = False\<rparr>"

definition build_broker :: "Broker list result" where
  "build_broker =
     composite_new [mock_adapter ''IBKR'' IBKR_POSITIONS None, mock_adapter ''Futu'' FUTU_POSITIONS None]"

record MockSite =
  ms_env :: environ
  ms_broker :: "Broker list"
  ms_live :: LivePositions
  ms_frozen :: "instant option"
  ms_port :: int

definition mock_clock :: "environ \<Rightarrow> instant option" where
  "mock_clock env =
     (if py_lower (env_get env ''MOCK_CLOCK'' []) \<in> set [''demo'', ''1'', ''true'', ''yes'', ''on'']
      then Some (days 739944 + seconds (4 * 3600 + 30 * 60)) else None)"

definition env_setdefault :: "environ \<Rightarrow> string \<Rightarrow> string \<Rightarrow> environ" where
  "env_setdefault env name v = (case map_of env name of None \<Rightarrow> env @ [(name, v)] | Some old \<Rightarrow> env)"

definition mock_live :: LivePositions where
  "mock_live = replace_all lp_new (IBKR_POSITIONS @ FUTU_POSITIONS)"

definition mock_main :: "environ \<Rightarrow> MockSite result" where
  "mock_main env0 =
     (let env = env_setdefault env0 ''BROKERS_ENABLED'' ''ibkr,futu''
      in rbind build_broker (\<lambda>adapters.
         rbind (py_int_text (env_get env ''PORT'' ''8765'')) (\<lambda>port.
           Inr \<lparr>ms_env = env, ms_broker = adapters, ms_live = mock_live,
                ms_frozen = mock_clock env, ms_port = port\<rparr>)))"

section \<open>Lemmas\<close>

lemma mock_keys_distinct: "distinct (map pos_key (IBKR_POSITIONS @ FUTU_POSITIONS))"
  by code_simp

lemma mock_rows_render: "list_all (\<lambda>p. holdings_row p = Inr ()) (IBKR_POSITIONS @ FUTU_POSITIONS)"
  by code_simp

lemma mock_magnifiers: "list_all (\<lambda>p. price_magnifier p = 1) (IBKR_POSITIONS @ FUTU_POSITIONS)"
  by (simp add: IBKR_POSITIONS_def FUTU_POSITIONS_def mock_stk_def mock_cash_def Let_def)

lemma mock_frozen_date: "isoformat (days 739944 + seconds (4 * 3600 + 30 * 60)) = ''2026-11-25T04:30:00+00:00''"
  by code_simp

lemma mock_live_rows: "get_all mock_live = IBKR_POSITIONS @ FUTU_POSITIONS"
proof -
  have "dict_of (keyed (IBKR_POSITIONS @ FUTU_POSITIONS)) = keyed (IBKR_POSITIONS @ FUTU_POSITIONS)"
    using mock_keys_distinct by (intro dict_of_distinct) (simp add: keyed_def o_def)
  moreover have "keyed (IBKR_POSITIONS @ FUTU_POSITIONS) \<noteq> []" by (simp add: keyed_def IBKR_POSITIONS_def)
  ultimately show ?thesis
    by (simp add: mock_live_def replace_all_def lp_new_def get_all_def dict_eq_by_def dict_values_def Let_def)
      (simp add: keyed_def o_def)
qed

lemma mock_stream_renders: "\<exists>page. stream_holdings a c b (get_all mock_live) = Inr page"
  unfolding stream_holdings_def push_return_iff mock_live_rows
proof (unfold list_all_iff, rule ballI)
  fix p assume "p \<in> set (apply_filters (IBKR_POSITIONS @ FUTU_POSITIONS) (or_all a) (or_all c) (or_all b))"
  then have p: "p \<in> set (IBKR_POSITIONS @ FUTU_POSITIONS)"
    by (auto simp: apply_filters_def keep_if_def split: if_splits)
  then have "price_magnifier p \<noteq> 0" "holdings_row p = Inr ()"
    using mock_magnifiers mock_rows_render unfolding list_all_iff by auto
  then show "(fx_unavailable p \<or> (\<exists>v. intraday_pnl_usd p = Inr v)) \<and> holdings_row p = Inr ()"
    using intraday_pnl_usd_total by blast
qed

section \<open>Properties\<close>

text \<open>The mock site shows its portfolio: its store has every row of the script under a key of its own, in the
  order of the script, the composite broker answers the same rows and is connected, and a push of the
  stream succeeds whatever the filters are.\<close>
theorem mock_site_serves:
  assumes "mock_main env = Inr m"
  shows "get_all (ms_live m) = IBKR_POSITIONS @ FUTU_POSITIONS
    \<and> composite_positions (ms_broker m) = Inr (get_all (ms_live m))
    \<and> composite_state (ms_broker m) = Inr CONNECTED
    \<and> (\<forall>a c b. \<exists>page. stream_holdings a c b (get_all (ms_live m)) = Inr page)"
proof -
  let ?as = "[mock_adapter ''IBKR'' IBKR_POSITIONS None, mock_adapter ''Futu'' FUTU_POSITIONS None]"
  have m: "ms_live m = mock_live" "ms_broker m = ?as"
    using assms by (auto simp: mock_main_def build_broker_def composite_new_def Let_def rbind_Inr_iff)
  have "composite_positions ?as = Inr (IBKR_POSITIONS @ FUTU_POSITIONS)"
    by (simp add: composite_positions_def mock_adapter_def)
  moreover have "composite_state ?as = Inr CONNECTED"
    by (simp add: composite_state_def get_connection_states_def state_pair_def mock_adapter_def dict_of_def
        dict_values_def combine_states_def)
  ultimately show ?thesis using mock_stream_renders by (simp add: m mock_live_rows)
qed

theorem mock_site_serves_witness:
  "case mock_main [(''PORT'', ''9000'')] of
     Inl e \<Rightarrow> False
   | Inr m \<Rightarrow> ms_port m = 9000 \<and> (\<exists>page. stream_holdings (Some ''DEMO-FUTU'') None None (get_all (ms_live m)) = Inr page)"
proof -
  have port: "py_int_text ''9000'' = Inr 9000" by code_simp
  then obtain m where m: "mock_main [(''PORT'', ''9000'')] = Inr m" "ms_port m = 9000"
    by (auto simp: mock_main_def build_broker_def composite_new_def Let_def env_get_def env_setdefault_def)
  from mock_site_serves [OF m(1)]
  have "\<exists>page. stream_holdings (Some ''DEMO-FUTU'') None None (get_all (ms_live m)) = Inr page" by blast
  with m show ?thesis by simp
qed

end
