(* ===== verification/Edges.thy ===== *)
theory Edges
  imports Web DumpSeeds
begin

text \<open>
  Where the program meets HTTP and the terminal: the fetchers of closes and rates, the delivery of a notice,
  the headers and the host filter of the application, the log of a crashed loop, the polling of rates, and
  the defaults of \<open>setup_opend.py\<close>'s argument parser. What a request gives is a parameter.
\<close>

section \<open>Requests\<close>

text \<open>A response: what \<open>raise_for_status\<close> does, and what \<open>json()\<close> gives.\<close>

record HttpAnswer =
  ha_status_check :: "unit result"
  ha_json :: "json result"

definition answer_json :: "HttpAnswer result \<Rightarrow> json result" where
  "answer_json request = rbind request (\<lambda>a. rbind (ha_status_check a) (\<lambda>u. ha_json a))"

text \<open>\<open>None\<close> of the fetchers stands for a logged failure; a cancellation passes.\<close>

definition default_api_fetcher :: "HttpAnswer result \<Rightarrow> json result" where
  "default_api_fetcher request =
     (case answer_json request of
        Inl e \<Rightarrow> if e = CancelledError then Inl e else Inr JNull
      | Inr payload \<Rightarrow> Inr payload)"

definition yahoo_url :: "string \<Rightarrow> string" where
  "yahoo_url symbol = ''https://query1.finance.yahoo.com/v8/finance/chart/'' @ symbol"

definition default_yahoo_fetcher :: "(string \<Rightarrow> HttpAnswer result) \<Rightarrow> string \<Rightarrow> fl option result" where
  "default_yahoo_fetcher get symbol =
     (case answer_json (get (yahoo_url symbol)) of
        Inl e \<Rightarrow> if e = CancelledError then Inl e else Inr None
      | Inr payload \<Rightarrow> Inr (extract_latest_close payload))"

section \<open>Notices\<close>

text \<open>What a post can raise: an \<open>httpx.HTTPError\<close> with its message, or something else.\<close>

datatype post_failure = HTTPError string | OtherFailure py_exc

record TelegramPost =
  tp_url :: string
  tp_chat_id :: string
  tp_text :: string

definition telegram_send :: "(TelegramPost \<Rightarrow> post_failure option) \<Rightarrow> string \<Rightarrow> string \<Rightarrow> string \<Rightarrow> unit result" where
  "telegram_send post bot_token chat_id text =
     (case post \<lparr>tp_url = ''https://api.telegram.org/bot'' @ bot_token @ ''/sendMessage'',
                 tp_chat_id = chat_id, tp_text = text\<rparr> of
        None \<Rightarrow> Inr ()
      | Some (HTTPError message) \<Rightarrow> Inl (RuntimeError ''telegram notification failed'')
      | Some (OtherFailure e) \<Rightarrow> Inl e)"

definition notifier_send :: "(TelegramPost \<Rightarrow> post_failure option) \<Rightarrow> NotifierKind \<Rightarrow> string \<Rightarrow> unit result" where
  "notifier_send post kind text =
     (case kind of NullNotifier \<Rightarrow> Inr () | TelegramNotifier token chat \<Rightarrow> telegram_send post token chat text)"

section \<open>The application\<close>

definition in_quotes :: "string \<Rightarrow> string" where
  "in_quotes w = single_quote # w @ [single_quote]"

definition CONTENT_SECURITY_POLICY :: string where
  "CONTENT_SECURITY_POLICY = join_with ''; ''
     [''default-src '' @ in_quotes ''self'', ''base-uri '' @ in_quotes ''none'', ''object-src '' @ in_quotes ''none'',
      ''frame-ancestors '' @ in_quotes ''none'', ''form-action '' @ in_quotes ''self'',
      ''img-src '' @ in_quotes ''self'' @ '' data:'',
      ''script-src '' @ in_quotes ''self'' @ '' '' @ in_quotes ''unsafe-eval'',
      ''style-src '' @ in_quotes ''self'' @ '' '' @ in_quotes ''unsafe-inline'' @ '' https://fonts.googleapis.com'',
      ''font-src '' @ in_quotes ''self'' @ '' https://fonts.gstatic.com'', ''connect-src '' @ in_quotes ''self'']"

text \<open>The middleware, over the operation \<open>setdefault\<close> of the framework's headers.\<close>

definition security_headers :: "('h \<Rightarrow> string \<Rightarrow> string \<Rightarrow> 'h) \<Rightarrow> 'h \<Rightarrow> 'h" where
  "security_headers setdefault h =
     setdefault (setdefault (setdefault h ''Content-Security-Policy'' CONTENT_SECURITY_POLICY)
       ''X-Content-Type-Options'' ''nosniff'') ''Referrer-Policy'' ''no-referrer''"

text \<open>The hosts the application answers to; \<open>None\<close> is no filter.\<close>

definition allowed_hosts :: "environ \<Rightarrow> string list option" where
  "allowed_hosts env =
     (let hosts = env_tokens env ''ALLOWED_HOSTS'' [] in if hosts = [] then None else Some hosts)"

text \<open>How a background task ends, and what is logged of it.\<close>

datatype task_end = TaskCancelled | TaskReturned | TaskRaised py_exc

definition log_loop_crash :: "string \<Rightarrow> task_end \<Rightarrow> (string \<times> py_exc) option" where
  "log_loop_crash name how = (case how of TaskRaised e \<Rightarrow> Some (name, e) | _ \<Rightarrow> None)"

section \<open>Polling the rates\<close>

text \<open>The poll loop over what it meets: a turn is the clock, whether the database works, and the fetch.\<close>

fun api_poll_loop :: "FxService \<Rightarrow> (instant \<times> bool \<times> json result option) list \<Rightarrow> FxService" where
  "api_poll_loop s [] = s"
| "api_poll_loop s ((now, db, fetched) # turns) =
     api_poll_loop (case refresh_from_api s now db fetched of Inl e \<Rightarrow> s | Inr s1 \<Rightarrow> s1) turns"

text \<open>The poll task: the one the service holds, and those whose loop runs.\<close>

record FxTask =
  ft_held :: "nat option"
  ft_alive :: "nat list"
  ft_created :: nat

definition fx_task_start :: "bool \<Rightarrow> FxTask \<Rightarrow> FxTask" where
  "fx_task_start has_fetcher t =
     (if has_fetcher
      then \<lparr>ft_held = Some (ft_created t), ft_alive = ft_alive t @ [ft_created t], ft_created = Suc (ft_created t)\<rparr>
      else t)"

definition fx_task_stop :: "FxTask \<Rightarrow> FxTask" where
  "fx_task_stop t =
     (case ft_held t of
        None \<Rightarrow> t
      | Some i \<Rightarrow> t\<lparr>ft_held := None, ft_alive := filter (\<lambda>j. j \<noteq> i) (ft_alive t)\<rparr>)"

section \<open>The arguments of \<open>setup_opend.py\<close>\<close>

text \<open>The defaults are read from the environment while the parser is built, for every command.\<close>

record OdDefaults =
  od_check_port :: int
  od_api_ip :: string
  od_api_port :: int
  od_lang :: string
  od_wait_seconds :: fl

definition build_parser :: "environ \<Rightarrow> OdDefaults result" where
  "build_parser env =
     rbind (py_int_text (env_get env ''FUTU_PORT'' ''11111'')) (\<lambda>port.
     rbind (py_float (VStr (env_get env ''OPEND_START_WAIT_SECONDS'' ''30''))) (\<lambda>wait.
       Inr \<lparr>od_check_port = port, od_api_ip = env_get env ''OPEND_API_IP'' ''127.0.0.1'', od_api_port = port,
            od_lang = env_get env ''OPEND_LANG'' ''en'', od_wait_seconds = wait\<rparr>))"

text \<open>\<open>run\<close> is the parsing of the arguments with these defaults and the command they choose.\<close>

definition od_main :: "environ \<Rightarrow> (OdDefaults \<Rightarrow> int result) \<Rightarrow> int result" where
  "od_main env run = rbind (build_parser env) run"

section \<open>Lemmas\<close>

text \<open>A fetcher never raises but for a cancellation, so that a caller sees a failure as no answer.\<close>

lemma default_api_fetcher_raises: "default_api_fetcher request = Inl e \<Longrightarrow> e = CancelledError"
  by (auto simp: default_api_fetcher_def split: sum.splits if_splits)

lemma default_yahoo_fetcher_raises: "default_yahoo_fetcher get symbol = Inl e \<Longrightarrow> e = CancelledError"
  by (auto simp: default_yahoo_fetcher_def split: sum.splits if_splits)

lemma extract_latest_close_positive: "extract_latest_close payload = Some f \<Longrightarrow> 0 < f"
  by (auto simp: extract_latest_close_def dest!: first_positive_SomeD positive_number_pos split: option.splits json.splits)

text \<open>With the framework's \<open>setdefault\<close>, every response has the three headers, and keeps those a route has set.\<close>

lemma security_headers_set:
  assumes "\<And>h n v m. get (setdefault h n v) m = (if m = n \<and> get h n = None then Some v else get h m)"
  shows "get (security_headers setdefault h) m =
    (case get h m of
       Some v \<Rightarrow> Some v
     | None \<Rightarrow> map_of [(''Content-Security-Policy'', CONTENT_SECURITY_POLICY), (''X-Content-Type-Options'', ''nosniff''),
                (''Referrer-Policy'', ''no-referrer'')] m)"
  by (auto simp: security_headers_def assms split: option.splits)

text \<open>However long it polls, the service stays in a state the properties of \<open>Fx\<close> are about.\<close>

lemma api_poll_loop_reachable: "fx_reachable s \<Longrightarrow> fx_reachable (api_poll_loop s turns)"
proof (induction turns arbitrary: s)
  case (Cons t turns)
  obtain now db fetched where t: "t = (now, db, fetched)" by (cases t)
  obtain s1 where s1: "refresh_from_api s now db fetched = Inr s1"
    using fx_ok_refresh [OF fx_reachable_ok [OF Cons.prems]] by blast
  have "fx_reachable s1" by (rule fx_reachable.step [OF Cons.prems fx_step.refresh [OF s1]])
  with Cons.IH t s1 show ?case by simp
qed simp

lemma fx_task_stopped:
  "ft_alive t = [] \<Longrightarrow> ft_held t = None \<Longrightarrow> ft_alive (fx_task_stop (fx_task_start has_fetcher t)) = []"
  by (simp add: fx_task_start_def fx_task_stop_def)

text \<open>A second start forgets the first task, and no stop ends that one.\<close>

lemma fx_task_started_twice:
  "ft_alive (fx_task_stop (fx_task_start True (fx_task_start True \<lparr>ft_held = None, ft_alive = [], ft_created = 0\<rparr>))) = [0]"
  by code_simp

section \<open>Properties\<close>

text \<open>The bot token stays secret: an HTTP failure, whose message has the URL and with it the token, is reported
  with the same fixed text for every token, and a notice is delivered exactly when the post is accepted.\<close>
theorem telegram_token_not_reported:
  assumes "post \<lparr>tp_url = ''https://api.telegram.org/bot'' @ token @ ''/sendMessage'', tp_chat_id = chat, tp_text = text\<rparr>
    \<notin> range (Some \<circ> OtherFailure)"
  shows "notifier_send post (TelegramNotifier token chat) text \<in> {Inr (), Inl (RuntimeError ''telegram notification failed'')}
    \<and> (notifier_send post (TelegramNotifier token chat) text = Inr () \<longleftrightarrow>
       post \<lparr>tp_url = ''https://api.telegram.org/bot'' @ token @ ''/sendMessage'', tp_chat_id = chat, tp_text = text\<rparr> = None)"
  using assms by (auto simp: notifier_send_def telegram_send_def split: option.splits post_failure.splits)

text \<open>One malformed setting of \<open>start\<close> or \<open>check\<close> stops every command of the setup script, \<open>install\<close> as well,
  with a traceback.\<close>
theorem malformed_setting_stops_setup:
  assumes "py_int_of_str (env_get env ''FUTU_PORT'' ''11111'') = None
    \<or> py_float_of_str (env_get env ''OPEND_START_WAIT_SECONDS'' ''30'') = None"
  shows "\<exists>m. od_main env run = Inl (ValueError m) \<and> script_exit (od_main env run) = 1"
  using assms
  by (auto simp: od_main_def build_parser_def script_exit_def py_int_text_def split: option.splits)

theorem malformed_setting_stops_setup_witness:
  "script_exit (od_main [(''FUTU_PORT'', ''11111/tcp'')] (\<lambda>d. Inr 0)) = 1"
proof -
  have "py_int_of_str (env_get [(''FUTU_PORT'', ''11111/tcp'')] ''FUTU_PORT'' ''11111'') = None" by code_simp
  with malformed_setting_stops_setup [of "[(''FUTU_PORT'', ''11111/tcp'')]" "\<lambda>d. Inr 0"] show ?thesis by blast
qed

end
