(* ===== verification/Spec2Isabelle.thy ===== *)
theory Spec2Isabelle
  imports Live Markets Fx Composite Recovery Monitor Jobs IbkrLink FillCapture Clients Lifespan Scripts IbkrSession IbkrNightly Pipeline
    PollFlow DumpSeeds MockSite Edges
begin

text \<open>
  Portfolio hub: the positions of several brokers on one live page. This development models the
  Python program under \<open>src/app\<close> and its Python scripts.

  How the program works. Each broker has an adapter that keeps the broker's positions as
  \<open>Position\<close> rows in dollars and in the native currency. The rows go to one \<open>LivePositions\<close> store,
  whose change event drives the server-sent events of every open page. Conversion rates come from
  the \<open>FxService\<close>, fed by IB's forex quotes and by a public API. Fills, daily equity snapshots,
  rates and names are kept in an SQLite database. Background jobs repeat the day's executions into
  the database, take a snapshot at each market's close, and watch the connection. A FastAPI
  application serves the page, the stream and a few admin routes over all of it.

  Theories and what they model (paths under \<open>src/app\<close>):

  \<^item> \<open>Prelude\<close>, \<open>PyFloat\<close>: what the source uses of Python. Exceptions are the datatype \<open>py_exc\<close> and a
    fallible call gives \<open>py_exc + 'a\<close>; a dict is an association list in insertion order; text
    operations are written out for ASCII; floats are exact rationals with NaN and the infinities.
  \<^item> \<open>Clock\<close>: instants as microseconds, calendar dates, and the ISO text of an instant.
  \<^item> \<open>Broker\<close>: \<open>core/broker.py\<close>. \<open>Symbols\<close>: \<open>core/symbols.py\<close> and \<open>core/yahoo_quotes.py\<close>.
  \<^item> \<open>Live\<close>: \<open>core/live_positions.py\<close>, the store and the stream of any number of clients.
  \<^item> \<open>Store\<close>: \<open>db/store.py\<close>, \<open>core/names.py\<close>, \<open>core/equity.py\<close>.
  \<^item> \<open>Fx\<close>: \<open>core/fx.py\<close> and the conversion helper of the adapters. A quote of the API is taken over as the
    code does, a NaN included, so a rate is never negative but may be NaN.
  \<^item> \<open>Markets\<close>: \<open>core/markets.py\<close>. \<open>Composite\<close>: \<open>core/composite_broker.py\<close>.
  \<^item> \<open>Recovery\<close>: \<open>core/ibkr_recovery.py\<close>, \<open>core/gateway_control.py\<close>, \<open>core/notifications.py\<close>.
  \<^item> \<open>Monitor\<close>: \<open>jobs/connection_monitor.py\<close>. \<open>Jobs\<close>: \<open>core/fills.py\<close>, \<open>jobs/fills_reconcile.py\<close>,
    \<open>jobs/snapshot.py\<close>.
  \<^item> \<open>Vendor\<close>: what the adapters share, the reading of vendor values and the two kinds of row.
  \<^item> \<open>Ibkr\<close>, \<open>IbkrStream\<close>, \<open>IbkrLink\<close>, \<open>IbkrSession\<close>, \<open>IbkrNightly\<close>, \<open>FillCapture\<close>: \<open>adapters/ibkr.py\<close>, as six parts. \<open>Ibkr\<close> builds rows
    from positions, quotes, the account portfolio and the caches; \<open>IbkrStream\<close> keeps them current
    by the handlers of ticks and portfolio updates; \<open>IbkrLink\<close> is the connection, with the reconnect
    task, the first connect and the disconnect handler as the steps of one relation; \<open>IbkrSession\<close> has
    the IB objects it creates, the handlers attached to them, the sessions that stay open and the
    hooks, with connects cut at their awaits, so that sessions drop during a seed and connects overlap; \<open>IbkrNightly\<close> is the task that refreshes the previous closes; \<open>FillCapture\<close> is the capture of executions with its pending writes.
  \<^item> \<open>Polling\<close>: the life cycle the other three adapters share, over each one's own connect, with an
    attempt to connect as one step. \<open>PollFlow\<close>: the same with the attempts cut at their awaits, any
    number of starts at once, and the lemmas that an attempt nothing comes between is the one of
    \<open>Polling\<close>; the invariant of the life cycle is proved over the awaits.
    \<open>Futu\<close>, \<open>Longbridge\<close>, \<open>Tiger\<close>: \<open>adapters/futu.py\<close>, \<open>longbridge.py\<close>, and \<open>tiger.py\<close> with \<open>tiger_mapping.py\<close>
    and \<open>tiger_config.py\<close>; accounts, rows, cash and summaries. \<open>Adapters\<close>: what they have in common
    and how a fetch and the life cycle go together. \<open>Clients\<close>: the loading of an SDK, the configuration,
    and which clients a connect opens and which stay open: kept by any sequence of attempts one after
    another, and lost by two starts of Futu that overlap.
  \<^item> \<open>Render\<close>: \<open>render.py\<close>, the row lookups of \<open>templates/partials/holdings_row.html\<close> that can raise, its
    lunch note with the market statuses it is given (none, on a push), and the market cards and the closure strip of \<open>main.py\<close>. \<open>Web\<close>: the settings, the choice of adapters
    and the routes of \<open>main.py\<close>. \<open>Lifespan\<close>: what its lifespan starts and stops,
    the tasks that the services it starts spawn, and what a failed start leaves behind.
  \<^item> \<open>Pipeline\<close>: \<open>IbkrStream\<close> and the stream of \<open>Live\<close> put together, from a tick or a poll to the
    rows a client is sent.
  \<^item> \<open>Scripts\<close>: \<open>src/scripts/verify_read_only_api.py\<close> and \<open>src/scripts/setup_opend.py\<close>. \<open>DumpSeeds\<close>:
    \<open>src/scripts/dump_seeds.py\<close>. \<open>MockSite\<close>: \<open>src/scripts/serve_mock.py\<close>.
  \<^item> \<open>Edges\<close>: the fetchers of \<open>fx.py\<close> and \<open>yahoo_quotes.py\<close>, the poll loop of the rates, the delivery of
    \<open>notifications.py\<close>, the middleware of \<open>main.py\<close>, and the defaults of \<open>setup_opend.py\<close>'s parser.

  How state and operations correspond. An object with attributes is a record and a method gives the
  record anew; where tasks interleave (the stream's clients, IBKR's connection, the pending fill
  writes), a step is what a task does between two awaits, and the states are those a step relation
  or a run of events reaches. An answer of a broker's SDK, of IB, of the calendar library or of an
  HTTP service is a parameter, with its failure as the left side of a sum. Where three adapters
  have a copy each of the same text, it is written once and the copies are named.

  What the lemmas show. For each store and table: what a lookup gives after a write, and that every
  key is there once. For each adapter: which rows it publishes, from which quote a price comes, and
  that a failed fetch leaves the rows as they were. For each life cycle: an invariant of all its
  events, whatever comes between two awaits (an adapter that says it reconnects has a task at work and
  shows its delay; where it needs that no two starts overlap, that is said, and a lemma shows the
  run that breaks it otherwise), and that the
  reconnect loop ends; for IBKR also that its handlers never accumulate and its nightly task is one,
  and how a failed seed locks it out. For the page: that a tick or a poll reaches it while one client watches, that it agrees with its
  stream but for the lunch notes, and which rows break it. For
  the jobs: that nothing is recorded or announced twice, and nothing dropped.

  Interfaces. The database gives the jobs \<open>insert_once\<close> and the name resolver its cache; the polling
  adapters share \<open>polling_connect\<close>, \<open>polling_life\<close>, \<open>flow_life\<close> and \<open>client_life\<close>; each is interpreted on
  the definitions of the component that provides it.

  Bounds. No definition uses fuel. The recursion of every loop is structural, on the list it goes
  through or on the schedule; the reconnect loop of \<open>IbkrLink\<close> is a relation, whose rank bounds a run
  by three steps for each delay and one more.

  Not modelled. The download and argument parsing of \<open>setup_opend.py\<close> and the serving of the mock
  site are network and terminal work. The HTML of the templates, the
  style and the browser code are not Python. What an SDK does when a client is built, asked or
  closed, what an HTTP request gives, the framework's operations on headers and hosts, and the event
  loop itself are parameters. Floats round in Python and not here; a claim about a value is about the
  exact one.
\<close>

end
